(* ===== verification/Kglb_Prelude.thy ===== *)
theory Kglb_Prelude
  imports Complex_Main "HOL-Library.Word" "HOL-Library.Multiset" "HOL-Library.AList"
begin

section \<open>Shared vocabulary of the development\<close>

text \<open>
  What every component theory uses: the widths of Go's integers, Go errors and panics as values,
  operations on a mutable world that may fail after having changed it, Go's \<open>for ... range\<close> over
  slices with an early return, the unspecified iteration order of Go maps, and decimal printing
  (the verb \<open>%d\<close>). The proof automation of the component theories is kept in the collections
  \<open>go_defs\<close> (control flow) and \<open>go_net\<close> (addresses).
\<close>

named_theorems go_defs \<open>control flow of the embedding: unfold to reach the branches of the code\<close>
named_theorems go_net \<open>facts about net.IP values\<close>

type_synonym u8 = "8 word"
type_synonym u16 = "16 word"
type_synonym u32 = "32 word"
type_synonym u64 = "64 word"

subsection \<open>Errors and panics\<close>

text \<open>
  \<open>New\<close> is \<open>errors.New\<close>, \<open>errors.Newf\<close> and \<open>fmt.Errorf\<close> (the interpolated values are dropped),
  \<open>Wrap\<close> is \<open>errors.Wrap\<close> and \<open>errors.Wrapf\<close>. A run-time panic (a nil dereference) is a value too,
  but no caller can handle it: \<open>wrap_err\<close> does not wrap it.
\<close>

datatype go_error = New string | Wrap go_error string | Panic string

type_synonym 'a result = "go_error + 'a"

fun wrap_err :: "string \<Rightarrow> go_error \<Rightarrow> go_error" where
  "wrap_err msg (Panic p) = Panic p"
| "wrap_err msg e = Wrap e msg"

fun is_panic :: "'a result \<Rightarrow> bool" where
  "is_panic (Inl (Panic _)) = True"
| "is_panic _ = False"

definition is_ok :: "'a result \<Rightarrow> bool" where
  "is_ok r \<longleftrightarrow> (case r of Inr _ \<Rightarrow> True | Inl _ \<Rightarrow> False)"

definition nilDeref :: "'a result" where
  "nilDeref = Inl (Panic ''nil pointer dereference'')"

definition fail :: "string \<Rightarrow> 'a result" where
  "fail msg = Inl (New msg)"

fun bind_r :: "'a result \<Rightarrow> ('a \<Rightarrow> 'b result) \<Rightarrow> 'b result" where
  "bind_r (Inl e) f = Inl e"
| "bind_r (Inr a) f = f a"

fun wrap_r :: "string \<Rightarrow> 'a result \<Rightarrow> 'a result" where
  "wrap_r msg (Inl e) = Inl (wrap_err msg e)"
| "wrap_r msg (Inr a) = Inr a"

text \<open>A loop over a slice that returns the first error.\<close>

fun each_r :: "('x \<Rightarrow> unit result) \<Rightarrow> 'x list \<Rightarrow> unit result" where
  "each_r f [] = Inr ()"
| "each_r f (x # xs) = bind_r (f x) (\<lambda>_. each_r f xs)"

lemma is_ok_simps [simp]: "is_ok (Inr a)" "\<not> is_ok (Inl e)"
  by (simp_all add: is_ok_def)

lemma is_ok_iff: "is_ok r \<longleftrightarrow> (\<exists>a. r = Inr a)"
  by (cases r) auto

lemma is_ok_unit: "is_ok (r :: unit result) \<longleftrightarrow> r = Inr ()"
  by (cases r) auto

lemma bind_r_eq_Inr [simp]: "bind_r r f = Inr b \<longleftrightarrow> (\<exists>a. r = Inr a \<and> f a = Inr b)"
  by (cases r) auto

lemma wrap_r_eq_Inr [simp]: "wrap_r msg r = Inr a \<longleftrightarrow> r = Inr a"
  by (cases r) auto

lemma is_ok_bind_r [simp]: "is_ok (bind_r r f) \<longleftrightarrow> (\<exists>a. r = Inr a \<and> is_ok (f a))"
  by (cases r) auto

lemma is_ok_wrap_r [simp]: "is_ok (wrap_r msg r) \<longleftrightarrow> is_ok r"
  by (cases r) auto

lemma not_ok_fail [simp]: "\<not> is_ok (fail msg)" "\<not> is_ok nilDeref"
  by (simp_all add: fail_def nilDeref_def)

lemma fail_neq_Inr [simp]: "fail msg \<noteq> Inr a" "nilDeref \<noteq> Inr a"
  by (simp_all add: fail_def nilDeref_def)

lemma each_r_ok [simp]: "is_ok (each_r f xs) \<longleftrightarrow> (\<forall>x\<in>set xs. is_ok (f x))"
  by (induction xs) (auto simp: is_ok_unit)

lemma each_r_Inr [simp]: "each_r f xs = Inr () \<longleftrightarrow> (\<forall>x\<in>set xs. f x = Inr ())"
  by (induction xs) auto

lemma is_panic_wrap [simp]: "is_panic (wrap_r msg r) = is_panic r"
proof (cases r)
  case (Inl e)
  then show ?thesis by (cases e) auto
qed simp

lemma is_panic_bind [simp]:
  "is_panic (bind_r r f) \<longleftrightarrow> is_panic r \<or> (\<exists>a. r = Inr a \<and> is_panic (f a))"
proof (cases r)
  case (Inl e)
  then show ?thesis by (cases e) auto
qed simp

lemma is_panic_basic [simp]: "\<not> is_panic (fail msg)" "is_panic nilDeref" "\<not> is_panic (Inr a)"
  by (simp_all add: fail_def nilDeref_def)

lemma each_r_panic: "is_panic (each_r f xs) \<Longrightarrow> \<exists>x\<in>set xs. is_panic (f x)"
  by (induction xs) auto

subsection \<open>Operations on a mutable world\<close>

text \<open>
  An operation that fails keeps what it has done so far: the new world is returned with the error.
\<close>

type_synonym ('s, 'a) act = "'s \<Rightarrow> 'a result \<times> 's"

definition ret_a :: "'a \<Rightarrow> ('s, 'a) act" where
  "ret_a a = (\<lambda>s. (Inr a, s))"

definition lift_r :: "'a result \<Rightarrow> ('s, 'a) act" where
  "lift_r r = (\<lambda>s. (r, s))"

definition bind_a :: "('s, 'a) act \<Rightarrow> ('a \<Rightarrow> ('s, 'b) act) \<Rightarrow> ('s, 'b) act" where
  "bind_a m f = (\<lambda>s. case m s of (Inl e, s') \<Rightarrow> (Inl e, s') | (Inr a, s') \<Rightarrow> f a s')"

definition wrap_a :: "string \<Rightarrow> ('s, 'a) act \<Rightarrow> ('s, 'a) act" where
  "wrap_a msg m = (\<lambda>s. let (r, s') = m s in (wrap_r msg r, s'))"

fun each_a :: "('x \<Rightarrow> ('s, unit) act) \<Rightarrow> 'x list \<Rightarrow> ('s, unit) act" where
  "each_a f [] = ret_a ()"
| "each_a f (x # xs) = bind_a (f x) (\<lambda>_. each_a f xs)"

lemma ret_a_apply [simp]: "ret_a a s = (Inr a, s)"
  by (simp add: ret_a_def)

lemma lift_r_apply [simp]: "lift_r r s = (r, s)"
  by (simp add: lift_r_def)

lemma bind_a_Inl [simp]: "m s = (Inl e, s') \<Longrightarrow> bind_a m f s = (Inl e, s')"
  by (simp add: bind_a_def)

lemma bind_a_Inr [simp]: "m s = (Inr a, s') \<Longrightarrow> bind_a m f s = f a s'"
  by (simp add: bind_a_def)

lemma bind_a_ok: "bind_a m f s = (Inr b, t) \<longleftrightarrow> (\<exists>a s'. m s = (Inr a, s') \<and> f a s' = (Inr b, t))"
  by (auto simp: bind_a_def split: prod.splits sum.splits)

lemma wrap_a_Inr [simp]: "m s = (Inr a, s') \<Longrightarrow> wrap_a msg m s = (Inr a, s')"
  by (simp add: wrap_a_def)

lemma wrap_a_Inl [simp]: "m s = (Inl e, s') \<Longrightarrow> wrap_a msg m s = (Inl (wrap_err msg e), s')"
  by (simp add: wrap_a_def)

lemma wrap_a_ok: "wrap_a msg m s = (Inr b, t) \<longleftrightarrow> m s = (Inr b, t)"
  by (auto simp: wrap_a_def split: prod.splits)

lemma snd_wrap_a [simp]: "snd (wrap_a msg m s) = snd (m s)"
  by (simp add: wrap_a_def split: prod.splits)

text \<open>Operations on one part of a state, a change without a result, and an operation done only if needed.\<close>

definition on_fst :: "('a, 'r) act \<Rightarrow> ('a \<times> 's, 'r) act" where
  "on_fst m = (\<lambda>(a, s). case m a of (r, a') \<Rightarrow> (r, (a', s)))"

definition on_snd :: "('s, 'r) act \<Rightarrow> ('a \<times> 's, 'r) act" where
  "on_snd m = (\<lambda>(a, s). case m s of (r, s') \<Rightarrow> (r, (a, s')))"

definition modify_a :: "('s \<Rightarrow> 's) \<Rightarrow> ('s, unit) act" where
  "modify_a f = (\<lambda>s. (Inr (), f s))"

definition gets_a :: "('s \<Rightarrow> 'a) \<Rightarrow> ('s, 'a) act" where
  "gets_a f = (\<lambda>s. (Inr (f s), s))"

definition when_a :: "bool \<Rightarrow> ('s, unit) act \<Rightarrow> ('s, unit) act" where
  "when_a b m = (if b then m else ret_a ())"

definition zoom :: "('w \<Rightarrow> 'a) \<Rightarrow> ('a \<Rightarrow> 'w \<Rightarrow> 'w) \<Rightarrow> ('a, 'r) act \<Rightarrow> ('w, 'r) act" where
  "zoom get put m = (\<lambda>w. case m (get w) of (r, a) \<Rightarrow> (r, put a w))"

text \<open>A loop over a slice that collects a value per element.\<close>

fun map_a :: "('x \<Rightarrow> ('s, 'y) act) \<Rightarrow> 'x list \<Rightarrow> ('s, 'y list) act" where
  "map_a f [] = ret_a []"
| "map_a f (x # xs) = bind_a (f x) (\<lambda>y. bind_a (map_a f xs) (\<lambda>ys. ret_a (y # ys)))"

lemma on_fst_apply [simp]: "m a = (r, a') \<Longrightarrow> on_fst m (a, s) = (r, (a', s))"
  by (simp add: on_fst_def)

lemma on_snd_apply [simp]: "m s = (r, s') \<Longrightarrow> on_snd m (a, s) = (r, (a, s'))"
  by (simp add: on_snd_def)

lemma on_fst_ok: "on_fst m p = (r, p') \<longleftrightarrow> m (fst p) = (r, fst p') \<and> snd p' = snd p"
  by (cases p; cases p') (auto simp: on_fst_def split: prod.splits)

lemma on_snd_ok: "on_snd m p = (r, p') \<longleftrightarrow> m (snd p) = (r, snd p') \<and> fst p' = fst p"
  by (cases p; cases p') (auto simp: on_snd_def split: prod.splits)

lemma modify_a_apply [simp]: "modify_a f s = (Inr (), f s)"
  by (simp add: modify_a_def)

lemma gets_a_apply [simp]: "gets_a f s = (Inr (f s), s)"
  by (simp add: gets_a_def)

lemma zoom_apply [simp]: "m (get w) = (r, a) \<Longrightarrow> zoom get put m w = (r, put a w)"
  by (simp add: zoom_def)

lemma when_a_simps [simp]: "when_a True m = m" "when_a False m = ret_a ()"
  by (simp_all add: when_a_def)

text \<open>Reading a loop that succeeds: an invariant of its prefixes.\<close>

lemma each_a_invariant:
  assumes "I [] s"
    and "\<And>ys x zs t. xs = ys @ x # zs \<Longrightarrow> I ys t \<Longrightarrow> \<exists>t'. f x t = (Inr (), t') \<and> I (ys @ [x]) t'"
  shows "\<exists>t. each_a f xs s = (Inr (), t) \<and> I xs t"
proof -
  have "I ys s' \<Longrightarrow> xs = ys @ zs \<Longrightarrow> \<exists>t. each_a f zs s' = (Inr (), t) \<and> I xs t" for ys zs s'
  proof (induction zs arbitrary: ys s')
    case Nil
    then show ?case by simp
  next
    case (Cons z zs)
    from assms(2) [OF Cons.prems(2,1)] obtain t' where
      t': "f z s' = (Inr (), t')" "I (ys @ [z]) t'" by blast
    have "xs = (ys @ [z]) @ zs" using Cons.prems(2) by simp
    from Cons.IH [OF t'(2) this] show ?case using t'(1) by simp
  qed
  from this [of "[]" s xs] assms(1) show ?thesis by simp
qed

text \<open>A property every step keeps is kept by the loop, whether it succeeds or stops early.\<close>

lemma each_a_preserves:
  assumes "P s" and "\<And>x t. x \<in> set xs \<Longrightarrow> P t \<Longrightarrow> P (snd (f x t))"
  shows "P (snd (each_a f xs s))"
  using assms
proof (induction xs arbitrary: s)
  case Nil
  then show ?case by simp
next
  case (Cons x xs)
  obtain r s' where fx: "f x s = (r, s')" by (cases "f x s")
  have "P s'" using Cons.prems(2) [of x s] Cons.prems(1) fx by simp
  with Cons fx show ?case by (cases r) (auto intro: Cons.IH)
qed

subsection \<open>Iteration order of Go maps\<close>

text \<open>
  \<open>for k, v := range m\<close> visits the entries of a map in an order the language does not fix, and two
  loops over the same map may differ. A range order assigns to the n-th range statement that runs a
  rearrangement of the entries; every theorem holds for every such assignment.
\<close>

type_synonym 'x range_order = "nat \<Rightarrow> 'x list \<Rightarrow> 'x list"

definition go_range :: "'x range_order \<Rightarrow> bool" where
  "go_range r \<longleftrightarrow> (\<forall>n xs. mset (r n xs) = mset xs)"

lemma go_range_mset [simp]: "go_range r \<Longrightarrow> mset (r n xs) = mset xs"
  by (simp add: go_range_def)

lemma go_range_set [simp]: "go_range r \<Longrightarrow> set (r n xs) = set xs"
  by (metis go_range_mset set_mset_mset)

lemma go_range_distinct [simp]: "go_range r \<Longrightarrow> distinct (r n xs) = distinct xs"
  by (metis go_range_mset mset_eq_imp_distinct_iff)

lemma go_range_map_distinct [simp]:
  "go_range r \<Longrightarrow> distinct (map f (r n xs)) = distinct (map f xs)"
  by (metis go_range_mset mset_eq_imp_distinct_iff mset_map)

lemma go_range_length [simp]: "go_range r \<Longrightarrow> length (r n xs) = length xs"
  by (metis go_range_mset size_mset)

lemma go_range_shift [intro]: "go_range r \<Longrightarrow> go_range (\<lambda>i. r (k + i))"
  by (simp add: go_range_def)

lemma go_range_id [simp]: "go_range (\<lambda>_ xs. xs)"
  by (simp add: go_range_def)

lemma go_range_rev [simp]: "go_range (\<lambda>_. rev)"
  by (simp add: go_range_def)

text \<open>Go maps that are ranged over are association lists with distinct keys.\<close>

type_synonym ('k, 'v) gomap = "('k \<times> 'v) list"

abbreviation wf_map :: "('k, 'v) gomap \<Rightarrow> bool" where
  "wf_map m \<equiv> distinct (map fst m)"

declare map_of_eq_Some_iff [simp del] Some_eq_map_of_iff [simp del]

lemma wf_map_lookup: "wf_map m \<Longrightarrow> (k, v) \<in> set m \<longleftrightarrow> map_of m k = Some v"
  by (simp add: map_of_eq_Some_iff)

lemma wf_map_update [simp]: "wf_map m \<Longrightarrow> wf_map (AList.update k v m)"
  by (rule distinct_update)

lemma wf_map_delete [simp]: "wf_map m \<Longrightarrow> wf_map (AList.delete k m)"
  by (rule distinct_delete)

lemma lookup_update [simp]: "map_of (AList.update k v m) k' = (if k' = k then Some v else map_of m k')"
  by (simp add: update_conv')

lemma lookup_delete [simp]: "map_of (AList.delete k m) k' = (if k' = k then None else map_of m k')"
  by (simp add: delete_conv')

lemma update_fresh: "map_of m k = None \<Longrightarrow> AList.update k v m = m @ [(k, v)]"
  by (induction m) auto

lemma map_snd_update:
  "map_of m k = Some v \<Longrightarrow> f v' = f v \<Longrightarrow> map (\<lambda>e. f (snd e)) (AList.update k v' m) = map (\<lambda>e. f (snd e)) m"
  by (induction m) (auto split: if_splits)

lemma delete_fresh: "map_of m k = None \<Longrightarrow> AList.delete k m = m"
  by (induction m) (auto split: if_splits simp: AList.delete_simps)

lemma mset_delete:
  "wf_map m \<Longrightarrow> map_of m k = Some v \<Longrightarrow> mset m = add_mset (k, v) (mset (AList.delete k m))"
proof (induction m)
  case (Cons e m)
  show ?case
  proof (cases "fst e = k")
    case True
    with Cons.prems have "map_of m k = None" "e = (k, v)"
      by (cases e; auto simp: map_of_eq_None_iff)+
    then show ?thesis by (simp add: AList.delete_simps delete_fresh)
  next
    case False
    with Cons show ?thesis by (cases e) (auto simp: AList.delete_simps)
  qed
qed simp

lemma find_SomeD: "find P xs = Some x \<Longrightarrow> x \<in> set xs \<and> P x"
  by (induction xs) (auto split: if_splits)

lemma mset_sub_distinct: "mset xs \<subseteq># mset ys \<Longrightarrow> distinct ys \<Longrightarrow> distinct xs"
  by (metis distinct_append mset_append mset_eq_imp_distinct_iff mset_subset_eq_exists_conv ex_mset)

text \<open>A multiset whose elements have pairwise different keys.\<close>

definition uniq :: "('x \<Rightarrow> 'k) \<Rightarrow> 'x multiset \<Rightarrow> bool" where
  "uniq key U \<longleftrightarrow> (\<exists>xs. mset xs = U \<and> distinct (map key xs))"

lemma uniq_mset [simp]: "uniq key (mset xs) \<longleftrightarrow> distinct (map key xs)"
proof
  assume "uniq key (mset xs)"
  then obtain ys where "mset ys = mset xs" "distinct (map key ys)" by (auto simp: uniq_def)
  then show "distinct (map key xs)" by (metis mset_eq_imp_distinct_iff mset_map)
qed (auto simp: uniq_def)

lemma uniq_sub: "uniq f P \<Longrightarrow> Q \<subseteq># P \<Longrightarrow> uniq f Q"
proof -
  assume P: "uniq f P" and sub: "Q \<subseteq># P"
  obtain xs ys where xs: "mset xs = P" and ys: "mset ys = Q" using ex_mset by metis
  have "mset (map f ys) \<subseteq># mset (map f xs)" using sub xs ys by (simp add: image_mset_subseteq_mono)
  moreover have "distinct (map f xs)" using P unfolding xs [symmetric] by simp
  ultimately have "distinct (map f ys)" by (rule mset_sub_distinct)
  then show "uniq f Q" unfolding ys [symmetric] by simp
qed

lemma uniq_add: "uniq f P \<Longrightarrow> distinct (map f ys) \<Longrightarrow> f ` set ys \<inter> f ` set_mset P = {} \<Longrightarrow> uniq f (P + mset ys)"
proof -
  assume P: "uniq f P" and ys: "distinct (map f ys)" "f ` set ys \<inter> f ` set_mset P = {}"
  from P obtain xs where xs: "mset xs = P" "distinct (map f xs)" by (auto simp: uniq_def)
  have "set xs = set_mset P" using xs(1) by (metis set_mset_mset)
  then have "distinct (map f (xs @ ys))" using xs(2) ys by auto
  moreover have "mset (xs @ ys) = P + mset ys" using xs(1) by simp
  ultimately show ?thesis unfolding uniq_def by blast
qed

lemma set_mset_distinct_diff: "distinct xs \<Longrightarrow> set_mset (mset xs - mset ys) = set xs - set ys"
proof -
  assume d: "distinct xs"
  have "x \<in># mset xs - mset ys \<longleftrightarrow> x \<in> set xs \<and> x \<notin> set ys" for x
  proof -
    have "count (mset xs) x \<le> 1" using d by (simp add: distinct_count_atmost_1)
    moreover have "0 < count (mset ys) x \<longleftrightarrow> x \<in> set ys" "0 < count (mset xs) x \<longleftrightarrow> x \<in> set xs"
      by (simp_all add: count_greater_zero_iff)
    ultimately show ?thesis unfolding in_diff_count by linarith
  qed
  then show ?thesis by blast
qed

lemma mset_diff_filter:
  assumes "distinct xs" and "distinct ys" and "set ys \<subseteq> set xs"
  shows "mset xs - mset ys = mset (filter (\<lambda>x. x \<notin> set ys) xs)"
proof (rule multiset_eqI)
  fix x
  show "count (mset xs - mset ys) x = count (mset (filter (\<lambda>x. x \<notin> set ys) xs)) x"
    using assms by (cases "x \<in> set ys") (auto simp: distinct_count_atmost_1 count_mset_0_iff subset_iff)
qed

lemma mset_sub_set: "distinct ys \<Longrightarrow> set ys \<subseteq> set xs \<Longrightarrow> mset ys \<subseteq># mset xs"
  by (auto simp: subseteq_mset_def distinct_count_atmost_1 Suc_le_eq)

lemma mset_set_eq: "distinct xs \<Longrightarrow> distinct ys \<Longrightarrow> set xs = set ys \<Longrightarrow> mset xs = mset ys"
  using set_eq_iff_mset_eq_distinct by blast

lemma find_append: "find P (xs @ ys) = (case find P xs of Some x \<Rightarrow> Some x | None \<Rightarrow> find P ys)"
  by (induction xs) auto

subsection \<open>Words\<close>

lemma u32_bound: "unat (w :: u32) < 4294967296"
proof -
  have "unat w < 2 ^ LENGTH(32)" by (rule unsigned_less)
  then show ?thesis by simp
qed

lemma of_nat_u32_inject:
  "m < 4294967296 \<Longrightarrow> n < 4294967296 \<Longrightarrow> (of_nat m :: u32) = of_nat n \<longleftrightarrow> m = n"
  by (simp add: word_of_nat_eq_iff take_bit_nat_eq_self)

lemma word_succ_unat: "i < j \<Longrightarrow> unat (i + 1) = Suc (unat i)" for i j :: "'a::len word"
proof -
  assume "i < j"
  then have "Suc (unat i) \<le> unat j" by (simp add: word_less_nat_alt)
  also have "\<dots> < 2 ^ LENGTH('a)" by (rule unsigned_less)
  finally have "Suc (unat i) < 2 ^ LENGTH('a)" .
  then show ?thesis by (simp add: unat_word_ariths)
qed

subsection \<open>Decimal printing\<close>

definition digit_char :: "nat \<Rightarrow> char" where
  "digit_char d = ''0123456789'' ! d"

fun dec :: "nat \<Rightarrow> string" where
  "dec n = (if n < 10 then [digit_char n] else dec (n div 10) @ [digit_char (n mod 10)])"

declare dec.simps [simp del]

definition is_digit :: "char \<Rightarrow> bool" where
  "is_digit c \<longleftrightarrow> c \<in> set ''0123456789''"

definition digit_val :: "char \<Rightarrow> nat" where
  "digit_val c = of_char c - 48"

definition undec :: "string \<Rightarrow> nat" where
  "undec s = foldl (\<lambda>n c. 10 * n + digit_val c) 0 s"

lemma digit_cases:
  "d < 10 \<Longrightarrow> d = 0 \<or> d = 1 \<or> d = 2 \<or> d = 3 \<or> d = 4 \<or> d = 5 \<or> d = 6 \<or> d = 7 \<or> d = 8 \<or> d = (9::nat)"
  by arith

lemma digit_val_char [simp]: "d < 10 \<Longrightarrow> digit_val (digit_char d) = d"
  by (drule digit_cases) (elim disjE; simp add: digit_val_def digit_char_def)

lemma is_digit_char [simp]: "d < 10 \<Longrightarrow> is_digit (digit_char d)"
  by (drule digit_cases) (elim disjE; simp add: is_digit_def digit_char_def)

lemma undec_dec [simp]: "undec (dec n) = n"
proof (induction n rule: dec.induct)
  case (1 n)
  then show ?case
    by (cases "n < 10") (simp_all add: dec.simps [of n] undec_def)
qed

lemma dec_inj [simp]: "dec m = dec n \<longleftrightarrow> m = n"
  by (metis undec_dec)

lemma dec_digits: "c \<in> set (dec n) \<Longrightarrow> is_digit c"
proof (induction n rule: dec.induct)
  case (1 n)
  then show ?case
    by (cases "n < 10") (auto simp: dec.simps [of n])
qed

lemma dec_nonempty [simp]: "dec n \<noteq> []"
  by (subst dec.simps) simp

text \<open>Two fields joined by a character that the second one does not contain can be told apart.\<close>

lemma sep_inject:
  assumes "xs @ c # ys = xs' @ c # ys'" and "c \<notin> set ys" and "c \<notin> set ys'"
  shows "xs = xs' \<and> ys = ys'"
  using assms
proof (induction ys arbitrary: ys' rule: rev_induct)
  case Nil
  then show ?case by (cases ys' rule: rev_cases) auto
next
  case (snoc y ys)
  then show ?case by (cases ys' rule: rev_cases) (auto simp flip: append_Cons append_assoc)
qed

end
