(* ===== verification/Health_Status.thy ===== *)
theory Health_Status
  imports Kglb_Prelude
begin

section \<open>kglb/utils/health\_manager: health\_status.go\<close>

text \<open>
  The status of one upstream: a flag and a signed counter of consecutive equal check results. The
  lemmas relate the counter to the history of results and show when the flag flips: after exactly
  \<open>riseCount\<close> passed or \<open>fallCount\<close> failed checks in a row. The counter is Go's \<open>int\<close>; it counts
  one check per interval, so it does not reach \<open>2 ^ 63\<close> and is unbounded here.
\<close>

record healthStatusEntry =
  hs_isHealthy :: bool
  hs_healthCount :: int

definition NewHealthStatusEntry :: "bool \<Rightarrow> healthStatusEntry" where
  "NewHealthStatusEntry initialHealthyState = \<lparr>hs_isHealthy = initialHealthyState, hs_healthCount = 0\<rparr>"

definition UpdateHealthCheckStatus ::
  "bool \<Rightarrow> int \<Rightarrow> int \<Rightarrow> healthStatusEntry \<Rightarrow> bool \<times> healthStatusEntry" where
  "UpdateHealthCheckStatus healthCheckPassed riseCount fallCount h =
     (if healthCheckPassed then
        let h = (if hs_healthCount h < 0 then h\<lparr>hs_healthCount := 1\<rparr> else h\<lparr>hs_healthCount := hs_healthCount h + 1\<rparr>)
        in if \<not> hs_isHealthy h \<and> hs_healthCount h \<ge> riseCount
           then (True, h\<lparr>hs_isHealthy := True\<rparr>)
           else (False, h)
      else
        let h = (if hs_healthCount h > 0 then h\<lparr>hs_healthCount := - 1\<rparr> else h\<lparr>hs_healthCount := hs_healthCount h - 1\<rparr>)
        in if hs_isHealthy h \<and> - hs_healthCount h \<ge> fallCount
           then (True, h\<lparr>hs_isHealthy := False\<rparr>)
           else (False, h))"

definition healthStatusEntry_Equal :: "healthStatusEntry \<Rightarrow> healthStatusEntry \<Rightarrow> bool" where
  "healthStatusEntry_Equal h entry \<longleftrightarrow>
     hs_healthCount h = hs_healthCount entry \<and> hs_isHealthy h = hs_isHealthy entry"

text \<open>A history of check results, oldest first.\<close>

definition run_checks :: "int \<Rightarrow> int \<Rightarrow> bool list \<Rightarrow> healthStatusEntry \<Rightarrow> healthStatusEntry" where
  "run_checks rise fall rs h = fold (\<lambda>r h. snd (UpdateHealthCheckStatus r rise fall h)) rs h"

text \<open>The length of the run of equal results a history ends with.\<close>

definition streak :: "bool \<Rightarrow> bool list \<Rightarrow> nat" where
  "streak b rs = length (takeWhile (\<lambda>r. r = b) (rev rs))"

lemma streak_snoc [simp]: "streak b (rs @ [r]) = (if r = b then Suc (streak b rs) else 0)"
  by (simp add: streak_def)

lemma streak_Nil [simp]: "streak b [] = 0"
  by (simp add: streak_def)

lemma streak_other: "streak True rs = 0 \<or> streak False rs = 0"
  by (cases rs rule: rev_cases) auto

lemma run_checks_snoc: "run_checks rise fall (rs @ [r]) h = snd (UpdateHealthCheckStatus r rise fall (run_checks rise fall rs h))"
  by (simp add: run_checks_def)

lemma run_checks_append: "run_checks rise fall (rs @ ts) h = run_checks rise fall ts (run_checks rise fall rs h)"
  by (simp add: run_checks_def)

lemma update_flips: "fst (UpdateHealthCheckStatus r rise fall h) \<longleftrightarrow>
    hs_isHealthy (snd (UpdateHealthCheckStatus r rise fall h)) \<noteq> hs_isHealthy h"
  by (auto simp: UpdateHealthCheckStatus_def Let_def)

text \<open>The counter is the signed length of the current run.\<close>

lemma counter_is_streak:
  "hs_healthCount (run_checks rise fall rs (NewHealthStatusEntry b)) = int (streak True rs) - int (streak False rs)"
proof (induction rs rule: rev_induct)
  case Nil
  then show ?case by (simp add: run_checks_def NewHealthStatusEntry_def)
next
  case (snoc r rs)
  with streak_other [of rs] show ?case
    by (auto simp: run_checks_snoc UpdateHealthCheckStatus_def Let_def)
qed

lemma update_on_history:
  fixes rs b rise fall
  defines "h \<equiv> run_checks rise fall rs (NewHealthStatusEntry b)"
  shows "hs_isHealthy (snd (UpdateHealthCheckStatus r rise fall h)) =
    (if hs_isHealthy h then r \<or> int (streak False (rs @ [r])) < fall
     else r \<and> int (streak True (rs @ [r])) \<ge> rise)"
proof -
  have c: "hs_healthCount h = int (streak True rs) - int (streak False rs)"
    unfolding h_def by (rule counter_is_streak)
  with streak_other [of rs] show ?thesis by (auto simp: UpdateHealthCheckStatus_def Let_def)
qed

subsection \<open>Properties\<close>

text \<open>
  C15: The health of an upstream after any history of checks: it is up when the history ends with at
  least \<open>riseCount\<close> passed checks, down when it ends with at least \<open>fallCount\<close> failed ones, and
  otherwise what it was before the last check (initially, the configured state). So an upstream
  never flaps on runs shorter than the thresholds.
\<close>

theorem health_hysteresis:
  assumes "0 < rise" and "0 < fall"
  shows "hs_isHealthy (run_checks rise fall rs (NewHealthStatusEntry b)) =
    (if rise \<le> int (streak True rs) then True
     else if fall \<le> int (streak False rs) then False
     else if rs = [] then b
     else hs_isHealthy (run_checks rise fall (butlast rs) (NewHealthStatusEntry b)))"
proof (cases rs rule: rev_cases)
  case Nil
  with assms show ?thesis by (simp add: run_checks_def NewHealthStatusEntry_def)
next
  case (snoc ys r)
  with assms update_on_history [of r rise fall ys b] show ?thesis
    by (cases r) (auto simp: run_checks_snoc)
qed

theorem health_hysteresis_witness:
  "hs_isHealthy (run_checks 3 2 [False, True, True, True] (NewHealthStatusEntry False)) \<and>
   hs_isHealthy (run_checks 3 2 [False, True, True, True, False] (NewHealthStatusEntry False)) \<and>
   \<not> hs_isHealthy (run_checks 3 2 [True, False, False] (NewHealthStatusEntry True))"
  using health_hysteresis [of 3 2 "[False, True, True, True]" False]
    health_hysteresis [of 3 2 "[False, True, True, True, False]" False]
    health_hysteresis [of 3 2 "[True, False, False]" True]
  by (simp add: streak_def)

text \<open>
  \<open>UpdateHealthCheckStatus\<close> reports a change exactly when the flag flips, and the counter is
  always the signed length of the current run of equal results.
\<close>

theorem health_counter:
  "(fst (UpdateHealthCheckStatus r rise fall h) \<longleftrightarrow>
      hs_isHealthy (snd (UpdateHealthCheckStatus r rise fall h)) \<noteq> hs_isHealthy h) \<and>
   hs_healthCount (run_checks rise fall rs (NewHealthStatusEntry b)) = int (streak True rs) - int (streak False rs)"
  by (simp add: update_flips counter_is_streak)

end
