(* ===== verification/Go_Net.thy ===== *)
theory Go_Net
  imports Kglb_Prelude
begin

section \<open>Addresses of Go's package net\<close>

text \<open>
  The part of the standard library the sources lean on: \<open>net.IP\<close> is a byte slice (nil, 4 bytes or
  16 bytes), with \<open>net.ParseIP\<close>, \<open>IP.String\<close>, \<open>IP.To4\<close>, \<open>IP.To16\<close>, \<open>IP.Equal\<close>,
  \<open>net.ParseCIDR\<close>, \<open>IPNet.Contains\<close> and \<open>IPNet.String\<close>, as Go 1.13 defines them. These
  definitions model the language's library, not the repository, so the manifest maps none of them.
\<close>

unbundle bit_operations_syntax

type_synonym net_ip = "u8 list"

definition v4InV6Prefix :: net_ip where
  "v4InV6Prefix = [0, 0, 0, 0, 0, 0, 0, 0, 0, 0, 255, 255]"

definition To4 :: "net_ip \<Rightarrow> net_ip option" where
  "To4 ip = (if length ip = 4 then Some ip
             else if length ip = 16 \<and> take 12 ip = v4InV6Prefix then Some (drop 12 ip)
             else None)"

definition To16 :: "net_ip \<Rightarrow> net_ip option" where
  "To16 ip = (if length ip = 4 then Some (v4InV6Prefix @ ip)
              else if length ip = 16 then Some ip
              else None)"

definition is_v4 :: "net_ip \<Rightarrow> bool" where
  "is_v4 ip \<longleftrightarrow> To4 ip \<noteq> None"

text \<open>\<open>IP.Equal\<close>: an IPv4 address and its 16-byte form are equal.\<close>

definition IP_Equal :: "net_ip \<Rightarrow> net_ip \<Rightarrow> bool" where
  "IP_Equal a b \<longleftrightarrow>
     (if length a = length b then a = b
      else if length a = 4 \<and> length b = 16 then v4InV6Prefix @ a = b
      else if length a = 16 \<and> length b = 4 then a = v4InV6Prefix @ b
      else False)"

subsection \<open>Parsing\<close>

definition big :: nat where
  "big = 16777215"

definition dtoi :: "string \<Rightarrow> (nat \<times> string) option" where
  "dtoi s = (let ds = takeWhile is_digit s in
     if ds = [] \<or> big \<le> undec ds then None else Some (undec ds, drop (length ds) s))"

definition hex_val :: "char \<Rightarrow> nat option" where
  "hex_val c = map_of (zip ''0123456789abcdefABCDEF'' ([0..<16] @ [10..<16])) c"

definition xtoi :: "string \<Rightarrow> (nat \<times> string) option" where
  "xtoi s = (let hs = takeWhile (\<lambda>c. hex_val c \<noteq> None) s;
                 n = foldl (\<lambda>n c. 16 * n + the (hex_val c)) 0 hs in
     if hs = [] \<or> big \<le> n then None else Some (n, drop (length hs) s))"

text \<open>\<open>parseIPv4\<close>: four numbers up to 255, separated by dots, and nothing after them.\<close>

fun parse_octets :: "nat \<Rightarrow> string \<Rightarrow> u8 list option" where
  "parse_octets 0 s = (if s = [] then Some [] else None)"
| "parse_octets (Suc k) s =
     (case dtoi s of
        None \<Rightarrow> None
      | Some (n, rest) \<Rightarrow>
          if 255 < n then None
          else if k = 0 then map_option (Cons (of_nat n)) (parse_octets 0 rest)
          else (case rest of
                  CHR ''.'' # rest' \<Rightarrow> map_option (Cons (of_nat n)) (parse_octets k rest')
                | _ \<Rightarrow> None))"

definition parseIPv4 :: "string \<Rightarrow> net_ip" where
  "parseIPv4 s = (case parse_octets 4 s of None \<Rightarrow> [] | Some bs \<Rightarrow> v4InV6Prefix @ bs)"

text \<open>
  \<open>parseIPv6\<close>: the loop carries the bytes parsed so far and the position of the ellipsis. Each
  round adds two bytes, so eight rounds are enough: the fuel is the number of groups left.
\<close>

fun parse_groups :: "nat \<Rightarrow> string \<Rightarrow> u8 list \<Rightarrow> nat option \<Rightarrow> (u8 list \<times> nat option \<times> string) option" where
  "parse_groups 0 s ip ell = Some (ip, ell, s)"
| "parse_groups (Suc k) s ip ell =
     (case xtoi s of
        None \<Rightarrow> None
      | Some (n, rest) \<Rightarrow>
          if 65535 < n then None
          else (case rest of
              [] \<Rightarrow> Some (ip @ [of_nat (n div 256), of_nat n], ell, [])
            | c # cs \<Rightarrow>
                if c = CHR ''.'' then
                  if ell = None \<and> length ip \<noteq> 12 then None
                  else if 16 < length ip + 4 then None
                  else (case parse_octets 4 s of
                          None \<Rightarrow> None
                        | Some bs \<Rightarrow> Some (ip @ bs, ell, []))
                else if c \<noteq> CHR '':'' \<or> cs = [] then None
                else
                  let ip' = ip @ [of_nat (n div 256), of_nat n] in
                  if hd cs = CHR '':'' then
                    if ell \<noteq> None then None
                    else if tl cs = [] then Some (ip', Some (length ip'), [])
                    else parse_groups k (tl cs) ip' (Some (length ip'))
                  else parse_groups k cs ip' ell))"

definition expand_ellipsis :: "u8 list \<times> nat option \<times> string \<Rightarrow> net_ip" where
  "expand_ellipsis p = (case p of (ip, ell, s) \<Rightarrow>
     if s \<noteq> [] then []
     else if length ip < 16 then
       (case ell of
          None \<Rightarrow> []
        | Some e \<Rightarrow> take e ip @ replicate (16 - length ip) 0 @ drop e ip)
     else if ell \<noteq> None then [] else ip)"

definition parseIPv6 :: "string \<Rightarrow> net_ip" where
  "parseIPv6 s =
     (let r = (if take 2 s = ''::''
               then if drop 2 s = [] then Some ([], Some 0, []) else parse_groups 8 (drop 2 s) [] (Some 0)
               else parse_groups 8 s [] None)
      in case r of None \<Rightarrow> [] | Some p \<Rightarrow> expand_ellipsis p)"

definition ParseIP :: "string \<Rightarrow> net_ip" where
  "ParseIP s = (case dropWhile (\<lambda>c. c \<noteq> CHR ''.'' \<and> c \<noteq> CHR '':'') s of
     [] \<Rightarrow> []
   | c # _ \<Rightarrow> if c = CHR ''.'' then parseIPv4 s else parseIPv6 s)"

subsection \<open>Printing\<close>

definition dotted :: "u8 list \<Rightarrow> string" where
  "dotted bs = dec (unat (bs ! 0)) @ ''.'' @ dec (unat (bs ! 1)) @ ''.'' @
               dec (unat (bs ! 2)) @ ''.'' @ dec (unat (bs ! 3))"

fun hex :: "nat \<Rightarrow> string" where
  "hex n = (if n < 16 then [''0123456789abcdef'' ! n] else hex (n div 16) @ [''0123456789abcdef'' ! (n mod 16)])"

declare hex.simps [simp del]

fun ip_groups :: "u8 list \<Rightarrow> nat list" where
  "ip_groups (a # b # bs) = (256 * unat a + unat b) # ip_groups bs"
| "ip_groups _ = []"

text \<open>The first longest run of zero groups: its position and its length.\<close>

fun best_run :: "nat \<Rightarrow> nat list \<Rightarrow> nat \<times> nat \<Rightarrow> nat \<times> nat" where
  "best_run i [] best = best"
| "best_run i (g # gs) best =
     (let l = length (takeWhile (\<lambda>x. x = 0) (g # gs)) in
      best_run (Suc i) gs (if snd best < l then (i, l) else best))"

fun join_groups :: "nat list \<Rightarrow> string" where
  "join_groups [] = []"
| "join_groups [g] = hex g"
| "join_groups (g # gs) = hex g @ '':'' @ join_groups gs"

definition IP_String :: "net_ip \<Rightarrow> string" where
  "IP_String ip =
     (if ip = [] then ''<nil>''
      else case To4 ip of
        Some b4 \<Rightarrow> dotted b4
      | None \<Rightarrow>
          if length ip \<noteq> 16 then ''?'' @ concat (map (\<lambda>b. hex (unat b)) ip)
          else let gs = ip_groups ip; (e0, l) = best_run 0 gs (0, 0) in
            if l \<le> 1 then join_groups gs
            else join_groups (take e0 gs) @ ''::'' @ join_groups (drop (e0 + l) gs))"

subsection \<open>Networks\<close>

text \<open>\<open>net.IPNet\<close>: the network number and the mask, both of the address's length.\<close>

type_synonym ip_net = "net_ip \<times> u8 list"

text \<open>\<open>net.CIDRMask(n, 8 * len)\<close> as bytes.\<close>

fun cidr_mask :: "nat \<Rightarrow> nat \<Rightarrow> u8 list" where
  "cidr_mask n 0 = []"
| "cidr_mask n (Suc k) = (if 8 \<le> n then 255 else of_nat (256 - 2 ^ (8 - n))) # cidr_mask (n - 8) k"

definition ParseCIDR :: "string \<Rightarrow> ip_net option" where
  "ParseCIDR s =
     (let addr = takeWhile (\<lambda>c. c \<noteq> CHR ''/'') s;
          m = drop (Suc (length addr)) s;
          ip4 = parse_octets 4 addr;
          ip6 = parseIPv6 addr;
          ip = (case ip4 of Some bs \<Rightarrow> bs | None \<Rightarrow> ip6)
      in if CHR ''/'' \<notin> set s \<or> ip = [] then None
         else case dtoi m of
           None \<Rightarrow> None
         | Some (n, rest) \<Rightarrow>
             if rest \<noteq> [] \<or> 8 * length ip < n then None
             else let mask = cidr_mask n (length ip) in Some (map2 (AND) ip mask, mask))"

definition IPNet_Contains :: "ip_net \<Rightarrow> net_ip \<Rightarrow> bool" where
  "IPNet_Contains net ip =
     (let x = (case To4 ip of Some b \<Rightarrow> b | None \<Rightarrow> ip) in
      length x = length (fst net) \<and> map2 (AND) (fst net) (snd net) = map2 (AND) x (snd net))"

definition mask_len :: "u8 list \<Rightarrow> nat" where
  "mask_len m = sum_list (map (\<lambda>b. length (filter (\<lambda>i. bit b i) [0..<8])) m)"

definition IPNet_String :: "ip_net \<Rightarrow> string" where
  "IPNet_String net = IP_String (fst net) @ ''/'' @ dec (mask_len (snd net))"

subsection \<open>Facts\<close>

lemma v4prefix_length [simp]: "length v4InV6Prefix = 12"
  by (simp add: v4InV6Prefix_def)

lemma v4prefix_nonempty [simp]: "v4InV6Prefix \<noteq> []"
  by (simp add: v4InV6Prefix_def)

lemma To4_mapped [simp]: "length bs = 4 \<Longrightarrow> To4 (v4InV6Prefix @ bs) = Some bs"
  by (simp add: To4_def)

lemma To4_length: "To4 ip = Some bs \<Longrightarrow> length bs = 4"
  by (auto simp: To4_def split: if_splits)

lemma To4_nil [simp]: "To4 [] = None"
  by (simp add: To4_def)

lemma To4_To16: "To4 ip = Some bs \<Longrightarrow> To16 ip = Some (v4InV6Prefix @ bs)"
  by (auto simp: To4_def To16_def split: if_splits) (metis append_take_drop_id)

lemma octet_bound [simp]: "unat (b :: u8) \<le> 255"
proof -
  have "unat b < 2 ^ LENGTH(8)" by (rule unsigned_less)
  then show ?thesis by simp
qed

lemma not_digit [simp]: "\<not> is_digit (CHR ''.'')" "\<not> is_digit (CHR '':'')" "\<not> is_digit (CHR ''/'')"
  by (simp_all add: is_digit_def)

lemma dec_no_sep [simp]: "CHR ''.'' \<notin> set (dec n)" "CHR '':'' \<notin> set (dec n)" "CHR ''/'' \<notin> set (dec n)"
  using dec_digits not_digit by blast+

lemma takeWhile_dec: "takeWhile is_digit (dec n) = dec n"
  by (simp add: takeWhile_eq_all_conv dec_digits)

lemma takeWhile_dec_sep: "\<not> is_digit c \<Longrightarrow> takeWhile is_digit (dec n @ c # s) = dec n"
  using dec_digits [of _ n] by (simp add: takeWhile_append takeWhile_dec)

lemma dtoi_dec_sep [simp]:
  "n < big \<Longrightarrow> \<not> is_digit c \<Longrightarrow> dtoi (dec n @ c # s) = Some (n, c # s)"
  by (simp add: dtoi_def Let_def takeWhile_dec_sep)

lemma dtoi_dec [simp]: "n < big \<Longrightarrow> dtoi (dec n) = Some (n, [])"
  by (simp add: dtoi_def Let_def takeWhile_dec)

lemma octet_lt_big [simp]: "unat (b :: u8) < big"
  using octet_bound [of b] unfolding big_def by linarith

lemma four_octets: "length bs = 4 \<Longrightarrow> \<exists>a b c d. bs = [a, b, c, d]"
  by (auto simp: eval_nat_numeral length_Suc_conv)

lemma octet_le [simp]: "\<not> 255 < unat (b :: u8)"
  using octet_bound [of b] by linarith

lemma parse_dotted [simp]: assumes "length bs = 4" shows "parse_octets 4 (dotted bs) = Some bs"
proof -
  from four_octets [OF assms] obtain a b c d where bs: "bs = [a, b, c, d]" by blast
  have four: "(4::nat) = Suc (Suc (Suc (Suc 0)))" by simp
  show ?thesis unfolding bs four by (simp add: dotted_def)
qed

lemma parseIPv4_dotted [simp]: "length bs = 4 \<Longrightarrow> parseIPv4 (dotted bs) = v4InV6Prefix @ bs"
  by (simp add: parseIPv4_def)

lemma dropWhile_dotted:
  "\<exists>t. dropWhile (\<lambda>c. c \<noteq> CHR ''.'' \<and> c \<noteq> CHR '':'') (dotted bs) = CHR ''.'' # t"
proof -
  have "\<forall>c\<in>set (dec n). c \<noteq> CHR ''.'' \<and> c \<noteq> CHR '':''" for n
    using dec_no_sep by metis
  then show ?thesis
    by (auto simp: dotted_def dropWhile_append)
qed

lemma ParseIP_dotted [go_net]: "length bs = 4 \<Longrightarrow> ParseIP (dotted bs) = v4InV6Prefix @ bs"
  using dropWhile_dotted [of bs] by (auto simp: ParseIP_def)

text \<open>Printing an IPv4 address and parsing it gives the address back, in its 16-byte form.\<close>

lemma ParseIP_String_v4 [go_net]: "To4 ip = Some bs \<Longrightarrow> ParseIP (IP_String ip) = v4InV6Prefix @ bs"
  by (auto simp: IP_String_def ParseIP_dotted dest: To4_length)

lemma IP_String_v4_inj: "To4 a = Some x \<Longrightarrow> To4 b = Some y \<Longrightarrow> IP_String a = IP_String b \<Longrightarrow> x = y"
  by (metis ParseIP_String_v4 append_eq_append_conv)

lemma dtoi_none [simp]: "dtoi (CHR ''<'' # s) = None"
  by (simp add: dtoi_def is_digit_def)

lemma xtoi_none [simp]: "xtoi (CHR ''<'' # s) = None"
  by (simp add: xtoi_def hex_val_def)

lemma parse_nil [simp]: "parse_octets 4 ''<nil>'' = None" "parseIPv6 ''<nil>'' = []"
  by (simp_all add: numeral_eq_Suc parseIPv6_def)

text \<open>The route of a message without an address: \<open>fmt\<close> prints a nil \<open>net.IP\<close> as \<open><nil>\<close>.\<close>

lemma ParseCIDR_nil [go_net]: "ParseCIDR (IP_String [] @ ''/'' @ dec n) = None"
  by (simp add: ParseCIDR_def IP_String_def)

lemma and_mask_idem: "map2 (AND) (map2 (AND) x m) m = map2 (AND) x (m :: u8 list)"
  by (rule nth_equalityI) (auto simp: and.assoc)

text \<open>A parsed network contains its own network number.\<close>

lemma cidr_mask_length [simp]: "length (cidr_mask n k) = k"
  by (induction n k rule: cidr_mask.induct) auto

lemma dotted_no_slash [simp]: "CHR ''/'' \<notin> set (dotted bs)"
  by (simp add: dotted_def)

lemma dotted_nonempty [simp]: "dotted bs \<noteq> []"
  by (simp add: dotted_def)

text \<open>A network in dotted notation parses to its masked address.\<close>

lemma ParseCIDR_dotted [go_net]:
  assumes "length bs = 4" and "n \<le> 32"
  shows "ParseCIDR (dotted bs @ ''/'' @ dec n) = Some (map2 (AND) bs (cidr_mask n 4), cidr_mask n 4)"
proof -
  have "takeWhile (\<lambda>c. c \<noteq> CHR ''/'') (dotted bs @ CHR ''/'' # dec n) = dotted bs"
    using dotted_no_slash [of bs] by (subst takeWhile_append2) (auto simp: takeWhile_eq_all_conv)
  moreover have "n < big" using assms(2) by (simp add: big_def)
  moreover have "bs \<noteq> []" using assms(1) by auto
  ultimately show ?thesis using assms by (simp add: ParseCIDR_def Let_def)
qed

text \<open>\<open>IP.Equal\<close> compares the 16-byte forms, so it is an equivalence.\<close>

definition norm_ip :: "net_ip \<Rightarrow> net_ip" where
  "norm_ip ip = (if length ip = 4 then v4InV6Prefix @ ip else ip)"

lemma IP_Equal_norm: "IP_Equal a b \<longleftrightarrow> norm_ip a = norm_ip b"
  by (auto simp: IP_Equal_def norm_ip_def)

end
