(* ===== verification/Go_Float32.thy ===== *)
theory Go_Float32
  imports Kglb_Prelude
begin

section \<open>Go's float32, as far as ratios of counts need it\<close>

text \<open>
  \<open>common.AliveUpstreamsRatio\<close> computes \<open>float32(alive) / float32(all)\<close> and the servicer compares
  the quotient with a configured \<open>float32\<close>. A finite value is the rational it denotes; conversion
  and division round to 24 significant bits, ties to even, as IEEE 754 and Go do. Counts are
  slice lengths (below \<open>2 ^ 63\<close>), so a quotient never reaches the subnormal range.
\<close>

datatype f32 = F32 rat | F32_NaN | F32_Inf bool

text \<open>IEEE comparisons: every comparison with NaN is false.\<close>

fun f32_less :: "f32 \<Rightarrow> f32 \<Rightarrow> bool" where
  "f32_less (F32 a) (F32 b) = (a < b)"
| "f32_less (F32 a) (F32_Inf p) = p"
| "f32_less (F32_Inf p) (F32 b) = (\<not> p)"
| "f32_less (F32_Inf p) (F32_Inf q) = (\<not> p \<and> q)"
| "f32_less _ _ = False"

fun f32_eq :: "f32 \<Rightarrow> f32 \<Rightarrow> bool" where
  "f32_eq F32_NaN _ = False"
| "f32_eq _ F32_NaN = False"
| "f32_eq a b = (a = b)"

definition f32_ge :: "f32 \<Rightarrow> f32 \<Rightarrow> bool" where
  "f32_ge a b \<longleftrightarrow> f32_less b a \<or> f32_eq b a"

text \<open>Rounding a quotient of naturals to the nearest natural, ties to even.\<close>

definition div_even :: "nat \<Rightarrow> nat \<Rightarrow> nat" where
  "div_even a b = (let q = a div b; r = a mod b in
     if b < 2 * r \<or> (b = 2 * r \<and> odd q) then Suc q else q)"

fun nbits :: "nat \<Rightarrow> nat" where
  "nbits n = (if n = 0 then 0 else Suc (nbits (n div 2)))"

declare nbits.simps [simp del]

text \<open>\<open>float32(n)\<close>: exact below \<open>2 ^ 24\<close>.\<close>

definition f32_of_nat :: "nat \<Rightarrow> nat" where
  "f32_of_nat n = (let j = nbits n - 24 in div_even n (2 ^ j) * 2 ^ j)"

text \<open>Scale the dividend until the quotient has 24 bits.\<close>

function norm_up :: "nat \<Rightarrow> nat \<Rightarrow> nat \<Rightarrow> nat \<times> nat" where
  "norm_up a b k = (if 0 < a \<and> a < 2 ^ 23 * b then norm_up (2 * a) b (Suc k) else (a, k))"
  by pat_completeness auto
termination
  by (relation "measure (\<lambda>(a, b, k). 2 ^ 23 * b - a)") auto

declare norm_up.simps [simp del]

definition f32_quot :: "nat \<Rightarrow> nat \<Rightarrow> rat" where
  "f32_quot x y = (let (a, k) = norm_up x y 0 in of_nat (div_even a y) / 2 ^ k)"

lemma norm_up_scales: "\<exists>j. norm_up a b k = (a * 2 ^ j, k + j)"
proof (induction a b k rule: norm_up.induct)
  case (1 a b k)
  show ?case
  proof (cases "0 < a \<and> a < 2 ^ 23 * b")
    case True
    from "1.IH" [OF True] obtain j where "norm_up (2 * a) b (Suc k) = (2 * a * 2 ^ j, Suc k + j)"
      by blast
    with True have "norm_up a b k = (a * 2 ^ Suc j, k + Suc j)"
      by (simp add: norm_up.simps [of a b k] mult_ac)
    then show ?thesis by blast
  next
    case False
    then have "norm_up a b k = (a * 2 ^ 0, k + 0)"
      by (simp only: norm_up.simps [of a b k] if_False) simp
    then show ?thesis by blast
  qed
qed

lemma norm_up_large: "0 < a \<Longrightarrow> 2 ^ 23 * b \<le> fst (norm_up a b k)"
proof (induction a b k rule: norm_up.induct)
  case (1 a b k)
  then show ?case
    by (cases "a < 2 ^ 23 * b") (simp_all add: norm_up.simps [of a b k])
qed

lemma div_even_pos: "b \<le> a \<Longrightarrow> 0 < b \<Longrightarrow> 0 < div_even a b"
  by (simp add: div_even_def Let_def div_greater_zero_iff)

lemma div_even_le: "a \<le> c * b \<Longrightarrow> 0 < b \<Longrightarrow> div_even a b \<le> c"
proof -
  assume a: "a \<le> c * b" and b: "0 < b"
  have "a div b \<le> c" using a b by (metis div_le_mono div_mult_self_is_m)
  moreover have "a div b = c \<Longrightarrow> a mod b = 0"
    using a by (metis div_mult_mod_eq add_le_same_cancel1 le_zero_eq)
  ultimately show ?thesis using b by (auto simp: div_even_def Let_def le_less)
qed

lemma div_even_0 [simp]: "div_even 0 b = 0"
  by (simp add: div_even_def)

lemma f32_quot_0 [simp]: "f32_quot 0 y = 0"
  using norm_up_scales [of 0 y 0] by (auto simp: f32_quot_def)

lemma f32_quot_pos: "0 < x \<Longrightarrow> 0 < y \<Longrightarrow> 0 < f32_quot x y"
proof -
  assume x: "0 < x" and y: "0 < y"
  obtain a k where ak: "norm_up x y 0 = (a, k)" by fastforce
  have "y \<le> 2 ^ 23 * y" by simp
  also have "\<dots> \<le> a" using norm_up_large [OF x, of y 0] ak by simp
  finally show ?thesis using div_even_pos [of y a] y ak by (simp add: f32_quot_def)
qed

lemma f32_quot_nonneg: "0 \<le> f32_quot x y"
  by (simp add: f32_quot_def split: prod.splits)

lemma f32_quot_le_1: "x \<le> y \<Longrightarrow> f32_quot x y \<le> 1"
proof (cases "y = 0")
  case False
  assume xy: "x \<le> y"
  from norm_up_scales [of x y 0] obtain j where j: "norm_up x y 0 = (x * 2 ^ j, j)" by auto
  have "div_even (x * 2 ^ j) y \<le> 2 ^ j"
    using xy False by (intro div_even_le) (simp_all add: mult.commute)
  then have "of_nat (div_even (x * 2 ^ j) y) \<le> (2 ^ j :: rat)"
    by (metis of_nat_le_iff of_nat_numeral of_nat_power)
  then show ?thesis by (simp add: f32_quot_def j)
qed simp

lemma nbits_0 [simp]: "nbits 0 = 0"
  by (simp add: nbits.simps)

lemma f32_of_nat_0 [simp]: "f32_of_nat 0 = 0"
  by (simp add: f32_of_nat_def)

lemma nbits_bound: "n < 2 ^ nbits n"
proof (induction n rule: nbits.induct)
  case (1 n)
  then show ?case by (cases "n = 0") (auto simp: nbits.simps [of n])
qed

lemma nbits_least: "0 < n \<Longrightarrow> 2 ^ (nbits n - 1) \<le> n"
proof (induction n rule: nbits.induct)
  case (1 n)
  show ?case
  proof (cases "n div 2 = 0")
    case True
    with "1.prems" have "n = 1" by linarith
    then show ?thesis by (simp add: nbits.simps)
  next
    case False
    then have "nbits (n div 2) = Suc (nbits (n div 2) - 1)"
      by (simp add: nbits.simps [of "n div 2"])
    then have "(2::nat) ^ nbits (n div 2) = 2 * 2 ^ (nbits (n div 2) - 1)"
      by (metis power_Suc)
    with "1.IH" "1.prems" False show ?thesis by (simp add: nbits.simps [of n])
  qed
qed

lemma f32_of_nat_pos: "0 < n \<Longrightarrow> 0 < f32_of_nat n"
proof -
  assume n: "0 < n"
  have "2 ^ (nbits n - 24) \<le> (2 ^ (nbits n - 1) :: nat)" by (rule power_increasing) auto
  also have "\<dots> \<le> n" by (rule nbits_least [OF n])
  finally show ?thesis by (simp add: f32_of_nat_def Let_def div_even_pos)
qed

lemma f32_of_nat_exact: "nbits n \<le> 24 \<Longrightarrow> f32_of_nat n = n"
  by (simp add: f32_of_nat_def div_even_def)

end
