(* ===== verification/Messages.thy ===== *)
theory Messages
  imports Go_Net Go_Float32
begin

section \<open>The messages of proto/dropbox/proto/kglb\<close>

text \<open>
  The protobuf messages both planes exchange, field by field. A pointer to a message is an
  \<open>option\<close> (nil is \<open>None\<close>), a \<open>oneof\<close> is an \<open>option\<close> of a datatype with one constructor per
  member (whose payload is again a pointer), and a proto3 enum, which is open, has a constructor
  for the numbers without a name. Elements of repeated message fields are never nil. The generated
  getters are nil-safe, so \<open>Get...\<close> on a pointer returns the default of its field.
  \<open>proto.Equal\<close> is equality of these values.
\<close>

subsection \<open>common.proto\<close>

datatype ForwardMethods = TUNNEL | MASQ | ForwardMethods_num int

datatype AddressFamily = AF_INET | AF_INET6 | AddressFamily_num int

fun AddressFamily_value :: "AddressFamily \<Rightarrow> int" where
  "AddressFamily_value AF_INET = 0"
| "AddressFamily_value AF_INET6 = 1"
| "AddressFamily_value (AddressFamily_num n) = n"

datatype IP_Address = IP_Ipv4 string | IP_Ipv6 string

datatype IP = IP (IP_address: "IP_Address option")

record Stats =
  st_ConnectionsCount :: u64
  st_PacketsInCount :: u64
  st_PacketsOutCount :: u64
  st_BytesInCount :: u64
  st_BytesOutCount :: u64
  st_ConnectionsRate :: u64
  st_PacketsInRate :: u64
  st_PacketsOutRate :: u64
  st_BytesInRate :: u64
  st_BytesOutRate :: u64
  st_ActiveConnsCount :: u64
  st_InactConnsCount :: u64
  st_PersistConnsCount :: u64

record UpstreamState =
  us_Address :: "IP option"
  us_Port :: u32
  us_Hostname :: string
  us_Weight :: u32
  us_ForwardMethod :: ForwardMethods

record IpvsFwmarkAttributes =
  fw_AddressFamily :: AddressFamily
  fw_Fwmark :: u32

record IpvsTcpAttributes =
  tcp_Address :: "IP option"
  tcp_Port :: u32

record IpvsUdpAttributes =
  udp_Address :: "IP option"
  udp_Port :: u32

datatype IpvsService_Flag =
  EMPTY | PERSISTENT | HASHED | ONEPACKET | SCHED1 | SCHED2 | SCHED3 | SH_FALLBACK | SH_PORT
  | SH_NOPORT | Flag_num int

datatype IpvsService_Scheduler = RR | WRR | IP_VS_SCH | Scheduler_num int

datatype IpvsService_Attributes =
  TcpAttributes "IpvsTcpAttributes option"
| UdpAttributes "IpvsUdpAttributes option"
| FwmarkAttributes "IpvsFwmarkAttributes option"

record IpvsService =
  ipvs_Attributes :: "IpvsService_Attributes option"
  ipvs_Scheduler :: IpvsService_Scheduler
  ipvs_Flags :: "IpvsService_Flag list"

datatype LoadBalancerService_Service = LbIpvsService "IpvsService option"

record LoadBalancerService =
  lb_Service :: "LoadBalancerService_Service option"

record BalancerState =
  bs_Name :: string
  bs_LbService :: "LoadBalancerService option"
  bs_Upstreams :: "UpstreamState list"

record BgpRouteAttributes =
  bgp_LocalAsn :: u32
  bgp_PeerAsn :: u32
  bgp_Community :: string
  bgp_Prefix :: "IP option"
  bgp_Prefixlen :: u32
  bgp_HoldTimeMs :: u32

datatype DynamicRoute_Attributes = DynamicRoute_Bgp "BgpRouteAttributes option"

record DynamicRoute =
  dr_Attributes :: "DynamicRoute_Attributes option"

record LinkAddress =
  la_LinkName :: string
  la_Address :: "IP option"

subsection \<open>state.proto\<close>

record DataPlaneState =
  dp_Balancers :: "BalancerState list"
  dp_DynamicRoutes :: "DynamicRoute list"
  dp_LinkAddresses :: "LinkAddress list"

subsection \<open>healthchecker.proto\<close>

datatype HcIPProtocol = HC_TCP | HC_UDP | HcIPProtocol_num int

datatype DNSQueryType = Q_A | Q_AAAA | Q_NS | Q_MX | Q_TXT | Q_SOA | DNSQueryType_num int

record DnsCheckerAttributes =
  dns_QueryString :: string
  dns_QueryType :: DNSQueryType
  dns_Protocol :: HcIPProtocol
  dns_Rcode :: u32
  dns_CheckTimeoutMs :: u32

record HttpCheckerAttributes =
  http_Scheme :: string
  http_Uri :: string
  http_Headers :: "(string, string) gomap"
  http_Codes :: "u32 list"
  http_ProxyCheckUrl :: string
  http_FollowRedirects :: bool
  http_CheckTimeoutMs :: u32

record SyslogCheckerAttributes =
  syslog_LogLevel :: u32
  syslog_Port :: u32
  syslog_Protocol :: HcIPProtocol
  syslog_CheckTimeoutMs :: u32

datatype HealthCheckerAttributes_Attributes =
  HcDummy "unit option"
| HcDns "DnsCheckerAttributes option"
| HcHttp "HttpCheckerAttributes option"
| HcSyslog "SyslogCheckerAttributes option"
| HcTcp "u32 option"

record HealthCheckerAttributes =
  hc_Attributes :: "HealthCheckerAttributes_Attributes option"

record UpstreamChecker =
  uc_IntervalMs :: u32
  uc_RiseCount :: u32
  uc_FallCount :: u32
  uc_Checker :: "HealthCheckerAttributes option"
  uc_ConcurrencyLimit :: u32

subsection \<open>config.proto\<close>

datatype UpstreamDiscovery_Attributes =
  MdbAttributes "string option"
| StaticAttributes "string list option"

record UpstreamDiscovery =
  ud_Port :: u32
  ud_ResolveFamily :: AddressFamily
  ud_Attributes :: "UpstreamDiscovery_Attributes option"

record UpstreamRouting =
  ur_ForwardMethod :: ForwardMethods

datatype DynamicRouting_Attributes = DynamicRouting_Bgp "BgpRouteAttributes option"

record DynamicRouting =
  drt_AnnounceLimitRatio :: f32
  drt_Attributes :: "DynamicRouting_Attributes option"

record BalancerConfig =
  bc_Name :: string
  bc_SetupName :: string
  bc_LbService :: "LoadBalancerService option"
  bc_UpstreamRouting :: "UpstreamRouting option"
  bc_UpstreamDiscovery :: "UpstreamDiscovery option"
  bc_UpstreamChecker :: "UpstreamChecker option"
  bc_EnableFwmarks :: bool
  bc_DynamicRouting :: "DynamicRouting option"
  bc_WeightUp :: u32

record ControlPlaneConfig =
  cp_Balancers :: "BalancerConfig list"

subsection \<open>Generated getters\<close>

definition GetAddress :: "IP option \<Rightarrow> IP_Address option" where
  "GetAddress ip = Option.bind ip IP_address"

definition GetIpvsService :: "LoadBalancerService option \<Rightarrow> IpvsService option" where
  "GetIpvsService lb =
     (case Option.bind lb lb_Service of Some (LbIpvsService s) \<Rightarrow> s | None \<Rightarrow> None)"

definition GetBgpAttributes :: "DynamicRoute \<Rightarrow> BgpRouteAttributes option" where
  "GetBgpAttributes r = (case dr_Attributes r of Some (DynamicRoute_Bgp b) \<Rightarrow> b | None \<Rightarrow> None)"

definition GetRoutingBgp :: "DynamicRouting option \<Rightarrow> BgpRouteAttributes option" where
  "GetRoutingBgp r =
     (case Option.bind r drt_Attributes of Some (DynamicRouting_Bgp b) \<Rightarrow> b | None \<Rightarrow> None)"

definition GetFwmark :: "IpvsService option \<Rightarrow> u32" where
  "GetFwmark s =
     (case Option.bind s ipvs_Attributes of
        Some (FwmarkAttributes (Some a)) \<Rightarrow> fw_Fwmark a
      | _ \<Rightarrow> 0)"

definition GetPrefix :: "BgpRouteAttributes option \<Rightarrow> IP option" where
  "GetPrefix b = Option.bind b bgp_Prefix"

definition GetPrefixlen :: "BgpRouteAttributes option \<Rightarrow> u32" where
  "GetPrefixlen b = (case b of None \<Rightarrow> 0 | Some a \<Rightarrow> bgp_Prefixlen a)"

lemma GetAddress_simps [simp]: "GetAddress None = None" "GetAddress (Some (IP a)) = a"
  by (simp_all add: GetAddress_def)

lemma GetIpvsService_simps [simp]:
  "GetIpvsService None = None"
  "GetIpvsService (Some \<lparr>lb_Service = Some (LbIpvsService s)\<rparr>) = s"
  by (simp_all add: GetIpvsService_def)

text \<open>What \<open>BalancerManager.GetBalancers\<close> and the servicer wrap a service into.\<close>

definition mk_lb :: "IpvsService \<Rightarrow> LoadBalancerService" where
  "mk_lb s = \<lparr>lb_Service = Some (LbIpvsService (Some s))\<rparr>"

lemma GetIpvsService_mk_lb [simp]: "GetIpvsService (Some (mk_lb s)) = Some s"
  by (simp add: mk_lb_def)

lemma mk_lb_inj [simp]: "mk_lb s = mk_lb t \<longleftrightarrow> s = t"
  by (simp add: mk_lb_def)

end
