(* ===== verification/Data_Types.thy ===== *)
theory Data_Types
  imports Messages
begin

section \<open>kglb/common: data\_types.go, utils.go, const.go\<close>

text \<open>
  Conversions between the messages' addresses and \<open>net.IP\<close>, extraction of the ipvs service, its VIP
  and its key, and the ratio of upstreams that are alive.
\<close>

subsection \<open>Addresses\<close>

definition LoopbackLinkName :: string where
  "LoopbackLinkName = ''lo''"

definition NetIpToKglbAddr :: "net_ip \<Rightarrow> IP" where
  "NetIpToKglbAddr netIP =
     (case To4 netIP of
        Some _ \<Rightarrow> IP (Some (IP_Ipv4 (IP_String netIP)))
      | None \<Rightarrow> IP (Some (IP_Ipv6 (IP_String netIP))))"

definition KglbAddrToAddressFamily :: "IP option \<Rightarrow> string" where
  "KglbAddrToAddressFamily kglbIP =
     (case GetAddress kglbIP of
        Some (IP_Ipv4 _) \<Rightarrow> ''v4''
      | Some (IP_Ipv6 _) \<Rightarrow> ''v6''
      | None \<Rightarrow> [])"

definition KglbAddrToNetIp :: "IP option \<Rightarrow> net_ip" where
  "KglbAddrToNetIp kglbIP =
     (case GetAddress kglbIP of
        Some (IP_Ipv4 a) \<Rightarrow> ParseIP a
      | Some (IP_Ipv6 a) \<Rightarrow> ParseIP a
      | None \<Rightarrow> [])"

definition KglbAddrToString :: "IP option \<Rightarrow> string" where
  "KglbAddrToString kglbIP =
     (case GetAddress kglbIP of
        Some (IP_Ipv4 a) \<Rightarrow> IP_String (ParseIP a)
      | Some (IP_Ipv6 a) \<Rightarrow> ''['' @ IP_String (ParseIP a) @ '']''
      | None \<Rightarrow> [])"

definition KglbAddrToNetIpNet :: "IP option \<Rightarrow> ip_net option" where
  "KglbAddrToNetIpNet kglbIP =
     (case GetAddress kglbIP of
        Some (IP_Ipv4 a) \<Rightarrow> Some (ParseIP a, cidr_mask 32 4)
      | Some (IP_Ipv6 a) \<Rightarrow> Some (ParseIP a, cidr_mask 128 16)
      | None \<Rightarrow> None)"

definition KglbAddrToFamily :: "IP option \<Rightarrow> AddressFamily" where
  "KglbAddrToFamily kglbIP =
     (case GetAddress kglbIP of Some (IP_Ipv6 _) \<Rightarrow> AF_INET6 | _ \<Rightarrow> AF_INET)"

subsection \<open>Equality of upstreams and services\<close>

definition UpstreamsEqual :: "UpstreamState \<Rightarrow> UpstreamState \<Rightarrow> bool" where
  "UpstreamsEqual s u \<longleftrightarrow> s\<lparr>us_Weight := 0, us_Hostname := []\<rparr> = u\<lparr>us_Weight := 0, us_Hostname := []\<rparr>"

definition IPVSServicesEqual :: "IpvsService \<Rightarrow> IpvsService \<Rightarrow> bool" where
  "IPVSServicesEqual s u \<longleftrightarrow> s = u"

subsection \<open>Services, VIPs and keys\<close>

definition GetIpvsServiceFromLbService :: "LoadBalancerService option \<Rightarrow> IpvsService result" where
  "GetIpvsServiceFromLbService lbService =
     (case lbService of
        None \<Rightarrow> nilDeref
      | Some lb \<Rightarrow>
          (case lb_Service lb of
             Some (LbIpvsService s) \<Rightarrow>
               (case s of None \<Rightarrow> fail ''missed ipvs service state'' | Some ipvsService \<Rightarrow> Inr ipvsService)
           | None \<Rightarrow> fail ''Unknown lb service type''))"

definition GetIpvsServiceFromBalancer :: "BalancerState option \<Rightarrow> IpvsService result" where
  "GetIpvsServiceFromBalancer balancer =
     (case balancer of
        None \<Rightarrow> fail ''balancer state is empty.''
      | Some b \<Rightarrow> GetIpvsServiceFromLbService (bs_LbService b))"

definition GetVipFromLbService :: "LoadBalancerService option \<Rightarrow> (string \<times> nat) result" where
  "GetVipFromLbService lb =
     bind_r (GetIpvsServiceFromLbService lb) (\<lambda>ipvsService.
       case ipvs_Attributes ipvsService of
         Some (TcpAttributes None) \<Rightarrow> nilDeref
       | Some (TcpAttributes (Some a)) \<Rightarrow>
           Inr (IP_String (KglbAddrToNetIp (tcp_Address a)), unat (tcp_Port a))
       | Some (UdpAttributes None) \<Rightarrow> nilDeref
       | Some (UdpAttributes (Some a)) \<Rightarrow>
           Inr (IP_String (KglbAddrToNetIp (udp_Address a)), unat (udp_Port a))
       | Some (FwmarkAttributes a) \<Rightarrow>
           Inr (''fwmark'', (case a of None \<Rightarrow> 0 | Some f \<Rightarrow> unat (fw_Fwmark f)))
       | None \<Rightarrow> fail ''unknown attributes type of ipvs service'')"

definition GetKeyFromLbService :: "LoadBalancerService option \<Rightarrow> string result" where
  "GetKeyFromLbService lb =
     bind_r (GetIpvsServiceFromLbService lb) (\<lambda>ipvsService.
       case ipvs_Attributes ipvsService of
         Some (TcpAttributes None) \<Rightarrow> nilDeref
       | Some (TcpAttributes (Some a)) \<Rightarrow>
           Inr (IP_String (KglbAddrToNetIp (tcp_Address a)) @ '':'' @ dec (unat (tcp_Port a)) @ ''-tcp'')
       | Some (UdpAttributes None) \<Rightarrow> nilDeref
       | Some (UdpAttributes (Some a)) \<Rightarrow>
           Inr (IP_String (KglbAddrToNetIp (udp_Address a)) @ '':'' @ dec (unat (udp_Port a)) @ ''-udp'')
       | Some (FwmarkAttributes None) \<Rightarrow> nilDeref
       | Some (FwmarkAttributes (Some f)) \<Rightarrow>
           (let af = (case fw_AddressFamily f of AF_INET \<Rightarrow> ''v4'' | AF_INET6 \<Rightarrow> ''v6'' | _ \<Rightarrow> [])
            in Inr (''fwmark:'' @ dec (unat (fw_Fwmark f)) @ '':'' @ af))
       | None \<Rightarrow> fail ''unknown attributes type of ipvs service'')"

definition GetKeyFromBalancerConfig :: "BalancerConfig \<Rightarrow> string result" where
  "GetKeyFromBalancerConfig balancerConfig =
     bind_r (GetKeyFromLbService (bc_LbService balancerConfig)) (\<lambda>lbKey.
       Inr (bc_Name balancerConfig @ ''-'' @ lbKey))"

subsection \<open>Alive ratio\<close>

definition alive_count :: "UpstreamState list \<Rightarrow> nat" where
  "alive_count ups = length (filter (\<lambda>u. us_Weight u \<noteq> 0) ups)"

definition AliveUpstreamsRatio :: "UpstreamState list \<Rightarrow> rat" where
  "AliveUpstreamsRatio ups =
     (let n = length ups; alive = alive_count ups in
      if alive = 0 then 0 else f32_quot (f32_of_nat alive) (f32_of_nat n))"

subsection \<open>Lemmas\<close>

lemma GetIpvsServiceFromLbService_mk_lb [simp]: "GetIpvsServiceFromLbService (Some (mk_lb s)) = Inr s"
  by (simp add: GetIpvsServiceFromLbService_def mk_lb_def)

lemma GetIpvsServiceFromLbService_ok:
  "GetIpvsServiceFromLbService lb = Inr s \<longleftrightarrow> lb = Some (mk_lb s)"
  by (auto simp: GetIpvsServiceFromLbService_def mk_lb_def
      split: option.splits LoadBalancerService_Service.splits)

lemma alive_count_le: "alive_count ups \<le> length ups"
  by (simp add: alive_count_def)

lemma alive_count_0: "alive_count ups = 0 \<longleftrightarrow> (\<forall>u\<in>set ups. us_Weight u = 0)"
  by (auto simp: alive_count_def filter_empty_conv)

lemma AliveUpstreamsRatio_0: "AliveUpstreamsRatio ups = 0 \<longleftrightarrow> (\<forall>u\<in>set ups. us_Weight u = 0)"
proof (cases "alive_count ups = 0")
  case True
  then show ?thesis by (simp add: AliveUpstreamsRatio_def alive_count_0 Let_def)
next
  case False
  then have "0 < length ups" using alive_count_le [of ups] by linarith
  with False have "0 < f32_quot (f32_of_nat (alive_count ups)) (f32_of_nat (length ups))"
    by (intro f32_quot_pos f32_of_nat_pos) simp_all
  with False show ?thesis by (simp add: AliveUpstreamsRatio_def alive_count_0 [symmetric] Let_def)
qed

lemma AliveUpstreamsRatio_nonneg: "0 \<le> AliveUpstreamsRatio ups"
  by (simp add: AliveUpstreamsRatio_def Let_def f32_quot_nonneg)

text \<open>
  What a key stands for: the protocol, VIP and port of a tcp or udp service, or the mark and
  address family of a fwmark service.
\<close>

datatype lb_id = TcpId string nat | UdpId string nat | MarkId nat string

definition family_tag :: "AddressFamily \<Rightarrow> string" where
  "family_tag af = (case af of AF_INET \<Rightarrow> ''v4'' | AF_INET6 \<Rightarrow> ''v6'' | _ \<Rightarrow> [])"

definition attr_ident :: "IpvsService_Attributes option \<Rightarrow> lb_id option" where
  "attr_ident attrs =
     (case attrs of
        Some (TcpAttributes (Some a)) \<Rightarrow> Some (TcpId (IP_String (KglbAddrToNetIp (tcp_Address a))) (unat (tcp_Port a)))
      | Some (UdpAttributes (Some a)) \<Rightarrow> Some (UdpId (IP_String (KglbAddrToNetIp (udp_Address a))) (unat (udp_Port a)))
      | Some (FwmarkAttributes (Some f)) \<Rightarrow> Some (MarkId (unat (fw_Fwmark f)) (family_tag (fw_AddressFamily f)))
      | _ \<Rightarrow> None)"

abbreviation lb_ident :: "IpvsService \<Rightarrow> lb_id option" where
  "lb_ident s \<equiv> attr_ident (ipvs_Attributes s)"

fun ident_key :: "lb_id \<Rightarrow> string" where
  "ident_key (TcpId a n) = a @ '':'' @ dec n @ ''-tcp''"
| "ident_key (UdpId a n) = a @ '':'' @ dec n @ ''-udp''"
| "ident_key (MarkId n af) = ''fwmark:'' @ dec n @ '':'' @ af"

lemma attrs_cases:
  obtains "attrs = None" | "attrs = Some (TcpAttributes None)" | a where "attrs = Some (TcpAttributes (Some a))"
  | "attrs = Some (UdpAttributes None)" | b where "attrs = Some (UdpAttributes (Some b))"
  | "attrs = Some (FwmarkAttributes None)" | f where "attrs = Some (FwmarkAttributes (Some f))"
  by (metis IpvsService_Attributes.exhaust option.exhaust)

lemma GetKeyFromLbService_mk_lb:
  "GetKeyFromLbService (Some (mk_lb s)) = Inr k \<longleftrightarrow> (\<exists>i. lb_ident s = Some i \<and> k = ident_key i)"
  by (cases "ipvs_Attributes s" rule: attrs_cases)
     (auto simp: GetKeyFromLbService_def attr_ident_def family_tag_def)

lemma GetKeyFromLbService_ok:
  "GetKeyFromLbService lb = Inr k \<longleftrightarrow>
     (\<exists>s i. lb = Some (mk_lb s) \<and> lb_ident s = Some i \<and> k = ident_key i)"
proof
  assume key: "GetKeyFromLbService lb = Inr k"
  then obtain s where "GetIpvsServiceFromLbService lb = Inr s"
    unfolding GetKeyFromLbService_def bind_r_eq_Inr by blast
  then have "lb = Some (mk_lb s)" by (simp only: GetIpvsServiceFromLbService_ok)
  with key show "\<exists>s i. lb = Some (mk_lb s) \<and> lb_ident s = Some i \<and> k = ident_key i"
    by (auto simp: GetKeyFromLbService_mk_lb)
qed (auto simp: GetKeyFromLbService_mk_lb)

lemma dash_not_digit [simp]: "CHR ''-'' \<notin> set (dec n)"
  using dec_digits [of "CHR ''-''" n] by (auto simp: is_digit_def)

lemma endpoint_inject: "a @ CHR '':'' # dec n = b @ CHR '':'' # dec m \<longleftrightarrow> a = b \<and> n = m"
  using sep_inject [of a "CHR '':''" "dec n" b "dec m"] by auto

lemma family_tag_sep [simp]: "CHR '':'' \<notin> set (family_tag af)"
  by (cases af) (simp_all add: family_tag_def)

lemma mark_inject:
  "dec n @ CHR '':'' # family_tag af = dec m @ CHR '':'' # family_tag ag \<longleftrightarrow> n = m \<and> family_tag af = family_tag ag"
  using sep_inject [of "dec n" "CHR '':''" "family_tag af" "dec m" "family_tag ag"] by auto

lemma last_mark: "last (''fwmark:'' @ dec n @ '':'' @ family_tag af) \<noteq> CHR ''p''"
  by (cases af) (simp_all add: family_tag_def)

lemma last_endpoint: "last (ident_key (TcpId a n)) = CHR ''p''" "last (ident_key (UdpId a n)) = CHR ''p''"
  by simp_all

lemma mark_ident: "attr_ident x = Some (MarkId n t) \<Longrightarrow> \<exists>af. t = family_tag af"
  by (cases x rule: attrs_cases) (auto simp: attr_ident_def)

lemma mark_key_last: "attr_ident x = Some (MarkId n t) \<Longrightarrow> last (ident_key (MarkId n t)) \<noteq> CHR ''p''"
  using mark_ident last_mark by (metis ident_key.simps(3))

lemma ident_key_inject:
  assumes "attr_ident x = Some i" and "attr_ident y = Some j" and eq: "ident_key i = ident_key j"
  shows "i = j"
proof (cases i)
  case (TcpId a n)
  show ?thesis
  proof (cases j)
    case (TcpId b m)
    with eq \<open>i = TcpId a n\<close> have "a @ CHR '':'' # dec n = b @ CHR '':'' # dec m" by simp
    with \<open>i = TcpId a n\<close> TcpId show ?thesis by (simp only: endpoint_inject)
  next
    case (UdpId b m)
    then show ?thesis using eq \<open>i = TcpId a n\<close> by (auto dest: arg_cong [of _ _ rev])
  next
    case (MarkId m t)
    with eq \<open>i = TcpId a n\<close> have "last (ident_key (MarkId m t)) = CHR ''p''" by (metis last_endpoint(1))
    with mark_key_last assms(2) MarkId show ?thesis by metis
  qed
next
  case (UdpId a n)
  show ?thesis
  proof (cases j)
    case (UdpId b m)
    with eq \<open>i = UdpId a n\<close> have "a @ CHR '':'' # dec n = b @ CHR '':'' # dec m" by simp
    with \<open>i = UdpId a n\<close> UdpId show ?thesis by (simp only: endpoint_inject)
  next
    case (TcpId b m)
    then show ?thesis using eq \<open>i = UdpId a n\<close> by (auto dest: arg_cong [of _ _ rev])
  next
    case (MarkId m t)
    with eq \<open>i = UdpId a n\<close> have "last (ident_key (MarkId m t)) = CHR ''p''" by (metis last_endpoint(2))
    with mark_key_last assms(2) MarkId show ?thesis by metis
  qed
next
  case (MarkId n t)
  then have np: "last (ident_key j) \<noteq> CHR ''p''" using mark_key_last assms(1) eq by metis
  then obtain m u where j: "j = MarkId m u" by (metis ident_key.cases last_endpoint)
  obtain af ag where "t = family_tag af" "u = family_tag ag"
    using mark_ident assms(1,2) MarkId j by blast
  with eq MarkId j mark_inject [of n af m ag] show ?thesis by simp
qed

text \<open>An IPv4 address survives the trip through the message and back, in its 16-byte form.\<close>

lemma KglbAddr_roundtrip_v4:
  "To4 ip = Some bs \<Longrightarrow> KglbAddrToNetIp (Some (NetIpToKglbAddr ip)) = v4InV6Prefix @ bs"
  by (simp add: KglbAddrToNetIp_def NetIpToKglbAddr_def go_net)

end
