(* ===== verification/Discovery.thy ===== *)
theory Discovery
  imports Data_Types
begin

section \<open>kglb/utils/discovery and control\_plane/discovery\_factory.go\<close>

text \<open>
  Discovered hosts, the static resolver with its one-slot update channel, and the factory that
  builds and updates resolvers from the configuration. A buffered channel of capacity one is an
  optional value and a flag for \<open>close\<close>; sending on a closed channel panics. The resolver's mutex
  makes its operations atomic. Ports are Go's \<open>int\<close>; gauges are left out.
\<close>

subsection \<open>host\_ports.go\<close>

record HostPort =
  hp_Host :: string
  hp_Port :: int
  hp_Address :: string
  hp_Enabled :: bool

definition NewHostPort :: "string \<Rightarrow> int \<Rightarrow> bool \<Rightarrow> HostPort" where
  "NewHostPort host port enabled = \<lparr>hp_Host = host, hp_Port = port, hp_Address = host, hp_Enabled = enabled\<rparr>"

definition HostPort_Equal :: "HostPort \<Rightarrow> HostPort option \<Rightarrow> bool" where
  "HostPort_Equal h item =
     (case item of
        None \<Rightarrow> False
      | Some i \<Rightarrow> hp_Host h = hp_Host i \<and> hp_Port h = hp_Port i \<and> hp_Address h = hp_Address i \<and> hp_Enabled h = hp_Enabled i)"

text \<open>\<open>strconv.Itoa\<close> and \<open>net.JoinHostPort\<close>.\<close>

definition Itoa :: "int \<Rightarrow> string" where
  "Itoa n = (if n < 0 then ''-'' @ dec (nat (- n)) else dec (nat n))"

definition JoinHostPort :: "string \<Rightarrow> string \<Rightarrow> string" where
  "JoinHostPort host port =
     (if CHR '':'' \<in> set host then ''['' @ host @ '']:'' @ port else host @ '':'' @ port)"

definition HostPort_String :: "HostPort \<Rightarrow> string" where
  "HostPort_String h = JoinHostPort (hp_Host h) (Itoa (hp_Port h))"

type_synonym DiscoveryState = "HostPort list"

fun DiscoveryState_Contains :: "DiscoveryState \<Rightarrow> HostPort \<Rightarrow> bool" where
  "DiscoveryState_Contains [] hostPort = False"
| "DiscoveryState_Contains (entry # h) hostPort =
     (if HostPort_Equal hostPort (Some entry) then True else DiscoveryState_Contains h hostPort)"

definition DiscoveryState_Equal :: "DiscoveryState \<Rightarrow> DiscoveryState \<Rightarrow> bool" where
  "DiscoveryState_Equal h state =
     (if length h \<noteq> length state then False
      else list_all (\<lambda>curEntry. list_ex (\<lambda>newEntry. HostPort_Equal curEntry (Some newEntry)) state) h)"

subsection \<open>static\_resolver.go\<close>

record StaticResolver =
  sr_id :: string
  sr_state :: DiscoveryState
  sr_chan :: "DiscoveryState option"
  sr_closed :: bool

definition NewStaticResolver :: "string \<Rightarrow> DiscoveryState \<Rightarrow> StaticResolver" where
  "NewStaticResolver rid hosts =
     (let hostPorts = map (\<lambda>entry. \<lparr>hp_Host = hp_Host entry, hp_Port = hp_Port entry,
                                     hp_Address = hp_Host entry, hp_Enabled = hp_Enabled entry\<rparr>) hosts
      in \<lparr>sr_id = rid, sr_state = hostPorts, sr_chan = Some hostPorts, sr_closed = False\<rparr>)"

definition StaticResolver_Update :: "DiscoveryState \<Rightarrow> (StaticResolver, unit) act" where
  "StaticResolver_Update newState = (\<lambda>r.
     let r1 = r\<lparr>sr_state := newState\<rparr>;
         r2 = r1\<lparr>sr_chan := None\<rparr>
     in if sr_closed r2 then (Inl (Panic ''send on closed channel''), r2)
        else (Inr (), r2\<lparr>sr_chan := Some newState\<rparr>))"

definition StaticResolver_Close :: "StaticResolver \<Rightarrow> StaticResolver" where
  "StaticResolver_Close r = r\<lparr>sr_closed := True\<rparr>"

text \<open>A receive on \<open>Updates()\<close>: a state, the closed channel, or nothing yet (the receiver blocks).\<close>

datatype recv = Received DiscoveryState | ChanClosed | WouldBlock

definition StaticResolver_recv :: "StaticResolver \<Rightarrow> recv \<times> StaticResolver" where
  "StaticResolver_recv r =
     (case sr_chan r of
        Some st \<Rightarrow> (Received st, r\<lparr>sr_chan := None\<rparr>)
      | None \<Rightarrow> (if sr_closed r then ChanClosed else WouldBlock, r))"

definition StaticResolver_Equal :: "StaticResolver \<Rightarrow> StaticResolver \<Rightarrow> bool" where
  "StaticResolver_Equal r item =
     (if length (sr_state r) \<noteq> length (sr_state item) then False
      else if sr_id r \<noteq> sr_id item then False
      else list_all (\<lambda>i. HostPort_Equal (sr_state r ! i) (Some (sr_state item ! i))) [0..<length (sr_state r)])"

subsection \<open>discovery\_factory.go\<close>

text \<open>Another implementation of \<open>DiscoveryResolver\<close> (none is in the repository) is \<open>OtherResolver\<close>.\<close>

datatype DiscoveryResolver = RStatic StaticResolver | OtherResolver

definition ErrResolverIncompatibleType :: go_error where
  "ErrResolverIncompatibleType = New ''incompatible resolver type''"

definition staticHostPorts :: "UpstreamDiscovery \<Rightarrow> string list \<Rightarrow> DiscoveryState" where
  "staticHostPorts conf hosts = map (\<lambda>host. NewHostPort host (uint (ud_Port conf)) True) hosts"

definition Factory_Resolver :: "string \<Rightarrow> UpstreamDiscovery option \<Rightarrow> DiscoveryResolver result" where
  "Factory_Resolver name conf =
     (case conf of
        None \<Rightarrow> nilDeref
      | Some c \<Rightarrow>
          (case ud_Attributes c of
             Some (StaticAttributes None) \<Rightarrow> nilDeref
           | Some (StaticAttributes (Some hosts)) \<Rightarrow>
               Inr (RStatic (NewStaticResolver (name @ ''/static'') (staticHostPorts c hosts)))
           | _ \<Rightarrow> fail ''DiscoverResolver is not implemented''))"

definition Factory_Update :: "UpstreamDiscovery option \<Rightarrow> (DiscoveryResolver, unit) act" where
  "Factory_Update conf = (\<lambda>resolver.
     case conf of
       None \<Rightarrow> (nilDeref, resolver)
     | Some c \<Rightarrow>
         (case ud_Attributes c of
            Some (StaticAttributes attr) \<Rightarrow>
              (case resolver of
                 OtherResolver \<Rightarrow> (Inl ErrResolverIncompatibleType, resolver)
               | RStatic r \<Rightarrow>
                   (case attr of
                      None \<Rightarrow> (nilDeref, resolver)
                    | Some hosts \<Rightarrow>
                        (let (res, r') = StaticResolver_Update (staticHostPorts c hosts) r in (res, RStatic r'))))
          | _ \<Rightarrow> (fail ''DiscoverResolver is not implemented'', resolver)))"

subsection \<open>Lemmas\<close>

lemma HostPort_Equal_iff [simp]: "HostPort_Equal h (Some i) \<longleftrightarrow> h = i"
  by (cases h; cases i) (auto simp: HostPort_Equal_def)

lemma HostPort_Equal_nil [simp]: "\<not> HostPort_Equal h None"
  by (simp add: HostPort_Equal_def)

lemma DiscoveryState_Contains_iff [simp]: "DiscoveryState_Contains h x \<longleftrightarrow> x \<in> set h"
  by (induction h) auto

lemma DiscoveryState_Equal_iff: "DiscoveryState_Equal h s \<longleftrightarrow> length h = length s \<and> set h \<subseteq> set s"
  by (auto simp: DiscoveryState_Equal_def list_all_iff list_ex_iff)

lemma DiscoveryState_Equal_distinct:
  "distinct h \<Longrightarrow> DiscoveryState_Equal h s \<longleftrightarrow> mset h = mset s"
proof
  assume d: "distinct h" and "DiscoveryState_Equal h s"
  then have len: "length h = length s" and sub: "set h \<subseteq> set s" by (simp_all add: DiscoveryState_Equal_iff)
  have "card (set h) = length s" using d len by (simp add: distinct_card)
  then have "set h = set s" using sub card_length [of s] by (intro card_seteq) simp_all
  moreover have "distinct s" using \<open>card (set h) = length s\<close> \<open>set h = set s\<close> by (simp add: card_distinct)
  ultimately show "mset h = mset s" using d set_eq_iff_mset_eq_distinct by blast
qed (metis DiscoveryState_Equal_iff mset_eq_setD order_refl size_mset)

lemma StaticResolver_Equal_iff:
  "StaticResolver_Equal r item \<longleftrightarrow> sr_id r = sr_id item \<and> sr_state r = sr_state item"
proof -
  have "sr_state r = sr_state item \<longleftrightarrow> length (sr_state r) = length (sr_state item) \<and>
      (\<forall>i<length (sr_state r). sr_state r ! i = sr_state item ! i)"
    by (rule list_eq_iff_nth_eq)
  then show ?thesis by (simp add: StaticResolver_Equal_def list_all_iff Ball_def)
qed

subsection \<open>Properties\<close>

lemma open_update:
  "\<not> sr_closed r \<Longrightarrow> StaticResolver_Update st r = (Inr (), r\<lparr>sr_state := st, sr_chan := Some st\<rparr>)"
  by (simp add: StaticResolver_Update_def Let_def)

lemma updates_latest:
  "\<not> sr_closed r \<Longrightarrow>
     fold (\<lambda>st r. snd (StaticResolver_Update st r)) (sts @ [st]) r = r\<lparr>sr_state := st, sr_chan := Some st\<rparr>"
  by (induction sts arbitrary: r) (simp_all add: open_update)

text \<open>
  The health manager never sees a stale discovery: whatever updates a resolver got since the
  last receive, the next receive returns the newest one, no update blocks, and a second receive
  finds nothing; closing keeps the pending state and only then reports the closed channel, and an
  update after \<open>Close\<close> panics.
\<close>

theorem static_resolver_latest:
  assumes "\<not> sr_closed r" and "r' = fold (\<lambda>st r. snd (StaticResolver_Update st r)) (sts @ [st]) r"
  shows "fst (StaticResolver_recv r') = Received st \<and>
    fst (StaticResolver_recv (snd (StaticResolver_recv r'))) = WouldBlock \<and>
    fst (StaticResolver_recv (StaticResolver_Close r')) = Received st \<and>
    fst (StaticResolver_recv (snd (StaticResolver_recv (StaticResolver_Close r')))) = ChanClosed \<and>
    is_panic (fst (StaticResolver_Update st' (StaticResolver_Close r')))"
  unfolding assms(2) updates_latest [OF assms(1)]
  using assms(1) by (simp add: StaticResolver_recv_def StaticResolver_Close_def StaticResolver_Update_def Let_def)

theorem static_resolver_latest_witness:
  "fst (StaticResolver_recv (fold (\<lambda>st r. snd (StaticResolver_Update st r))
      ([[NewHostPort ''h1'' 80 True]] @ [[NewHostPort ''h2'' 80 True]]) (NewStaticResolver ''r'' []))) =
    Received [NewHostPort ''h2'' 80 True]"
  using static_resolver_latest [of "NewStaticResolver ''r'' []", OF _ refl, of "[[NewHostPort ''h1'' 80 True]]" "[NewHostPort ''h2'' 80 True]"]
  by (simp add: NewStaticResolver_def Let_def)

text \<open>
  On a state without duplicate hosts, the order-insensitive comparison of discovery states
  accepts exactly the permutations of it.
\<close>

theorem discovery_equal:
  assumes "distinct h"
  shows "DiscoveryState_Equal h state \<longleftrightarrow> mset h = mset state"
  using assms by (rule DiscoveryState_Equal_distinct)

theorem discovery_equal_witness:
  "DiscoveryState_Equal [NewHostPort ''h1'' 80 True, NewHostPort ''h2'' 80 True] [NewHostPort ''h2'' 80 True, NewHostPort ''h1'' 80 True]"
  using discovery_equal [of "[NewHostPort ''h1'' 80 True, NewHostPort ''h2'' 80 True]"]
  by (simp add: NewHostPort_def add_mset_commute)

end
