(* ===== verification/Concurrency.thy ===== *)
theory Concurrency
  imports Kglb_Prelude
begin

section \<open>kglb/utils/concurrency: CompleteTasks\<close>

text \<open>
  \<open>CompleteTasks\<close> splits the task numbers among workers and runs the workers as goroutines. The
  split is the function \<open>workerRange\<close>; the goroutines are a step relation in which any worker may
  run its next task at any time and the context may be cancelled at any time. The lemmas show that
  the ranges partition the tasks, that no interleaving runs a task twice, and that without
  cancellation the call ends with every task done once.
\<close>

subsection \<open>The split\<close>

definition effectiveWorkers :: "nat \<Rightarrow> nat \<Rightarrow> nat" where
  "effectiveWorkers numWorkers numTasks =
     (if numTasks < numWorkers \<or> numWorkers = 0 then numTasks else numWorkers)"

definition workerRange :: "nat \<Rightarrow> nat \<Rightarrow> nat \<Rightarrow> nat \<times> nat" where
  "workerRange numWorkers numTasks workerId =
     (let numToCheck = (numTasks + numWorkers - 1) div numWorkers;
          start = workerId * numToCheck;
          end0 = (workerId + 1) * numToCheck
      in (start, if numTasks < end0 then numTasks else end0))"

definition range_tasks :: "nat \<times> nat \<Rightarrow> nat list" where
  "range_tasks se = [fst se..<snd se]"

lemma concat_ranges:
  "concat (map (\<lambda>w. [w * k..<min (Suc w * k) t]) [0..<n]) = [0..<min (n * k) t]"
proof (induction n)
  case (Suc n)
  have "concat (map (\<lambda>w. [w * k..<min (Suc w * k) t]) [0..<Suc n]) = [0..<min (n * k) t] @ [n * k..<min (Suc n * k) t]"
    using Suc.IH by simp
  also have "\<dots> = [0..<min (Suc n * k) t]"
  proof (cases "n * k \<le> t")
    case True
    then have "n * k \<le> min (Suc n * k) t" by simp
    with True show ?thesis using upt_add_eq_append [of 0 "n * k" "min (Suc n * k) t - n * k"] by (simp add: min_absorb1)
  next
    case False
    then show ?thesis by (simp add: min_def)
  qed
  finally show ?case .
qed simp

lemma ceil_covers: "0 < n \<Longrightarrow> t \<le> n * ((t + n - 1) div n)" for t n :: nat
proof -
  assume n: "0 < n"
  have "t + n - 1 < n * ((t + n - 1) div n) + n"
    using n by (metis add.commute mod_less_divisor mult.commute nat_add_left_cancel_less mult_div_mod_eq)
  then show ?thesis using n by linarith
qed

lemma workerRange_min:
  "range_tasks (workerRange n t w) = [w * ((t + n - 1) div n)..<min (Suc w * ((t + n - 1) div n)) t]"
  by (simp add: range_tasks_def workerRange_def Let_def min_def)

lemma ranges_partition:
  assumes "0 < n" shows "concat (map (\<lambda>w. range_tasks (workerRange n t w)) [0..<n]) = [0..<t]"
  unfolding workerRange_min concat_ranges using ceil_covers [OF assms, of t] by (simp add: min_absorb2)

subsection \<open>The goroutines\<close>

text \<open>
  \<open>ct_pos\<close> is each worker's loop variable, \<open>ct_done\<close> says which workers have called \<open>wg.Done\<close>,
  \<open>ct_log\<close> holds the calls \<open>taskFunc(workerId, pos)\<close> made so far, \<open>ct_result\<close> what the call returned:
  \<open>Some False\<close> is nil and \<open>Some True\<close> is \<open>ctx.Err()\<close>.
\<close>

record CompleteTasks_state =
  ct_pos :: "nat list"
  ct_done :: "bool list"
  ct_cancelled :: bool
  ct_log :: "(nat \<times> nat) list"
  ct_result :: "bool option"

definition CompleteTasks_init :: "nat \<Rightarrow> nat \<Rightarrow> CompleteTasks_state" where
  "CompleteTasks_init numWorkers numTasks =
     \<lparr>ct_pos = map (\<lambda>w. fst (workerRange numWorkers numTasks w)) [0..<numWorkers],
      ct_done = replicate numWorkers False, ct_cancelled = False, ct_log = [], ct_result = None\<rparr>"

inductive ct_step :: "nat \<Rightarrow> nat \<Rightarrow> CompleteTasks_state \<Rightarrow> CompleteTasks_state \<Rightarrow> bool" for n t where
  ct_run: "w < n \<Longrightarrow> \<not> ct_done s ! w \<Longrightarrow> ct_pos s ! w < snd (workerRange n t w) \<Longrightarrow> \<not> ct_cancelled s \<Longrightarrow>
    ct_step n t s (s\<lparr>ct_pos := (ct_pos s)[w := Suc (ct_pos s ! w)], ct_log := ct_log s @ [(w, ct_pos s ! w)]\<rparr>)"
| ct_stop: "w < n \<Longrightarrow> \<not> ct_done s ! w \<Longrightarrow> snd (workerRange n t w) \<le> ct_pos s ! w \<or> ct_cancelled s \<Longrightarrow>
    ct_step n t s (s\<lparr>ct_done := (ct_done s)[w := True]\<rparr>)"
| ct_cancel: "ct_step n t s (s\<lparr>ct_cancelled := True\<rparr>)"
| ct_return: "ct_result s = None \<Longrightarrow> (\<forall>w<n. ct_done s ! w) \<Longrightarrow>
    ct_step n t s (s\<lparr>ct_result := Some (ct_cancelled s)\<rparr>)"
| ct_return_err: "ct_result s = None \<Longrightarrow> ct_cancelled s \<Longrightarrow> ct_step n t s (s\<lparr>ct_result := Some True\<rparr>)"

inductive ct_reach :: "nat \<Rightarrow> nat \<Rightarrow> CompleteTasks_state \<Rightarrow> bool" for n t where
  ct_start: "ct_reach n t (CompleteTasks_init n t)"
| ct_next: "ct_reach n t s \<Longrightarrow> ct_step n t s s' \<Longrightarrow> ct_reach n t s'"

inductive_cases ct_stepE: "ct_step n t s s'"

text \<open>The invariant: the log of a worker is the prefix of its range up to its loop variable.\<close>

definition worker_log :: "nat \<Rightarrow> (nat \<times> nat) list \<Rightarrow> nat list" where
  "worker_log w l = map snd (filter (\<lambda>e. fst e = w) l)"

definition ct_inv :: "nat \<Rightarrow> nat \<Rightarrow> CompleteTasks_state \<Rightarrow> bool" where
  "ct_inv n t s \<longleftrightarrow>
     length (ct_pos s) = n \<and> length (ct_done s) = n \<and> (\<forall>e\<in>set (ct_log s). fst e < n) \<and>
     (\<forall>w<n. let (b, e) = workerRange n t w in
        b \<le> ct_pos s ! w \<and> ct_pos s ! w \<le> max b e \<and> worker_log w (ct_log s) = [b..<ct_pos s ! w]) \<and>
     (\<forall>w<n. ct_done s ! w \<longrightarrow> ct_cancelled s \<or> snd (workerRange n t w) \<le> ct_pos s ! w) \<and>
     (ct_result s = Some False \<longrightarrow> (\<forall>w<n. snd (workerRange n t w) \<le> ct_pos s ! w))"

lemma worker_log_snoc [simp]:
  "worker_log w (l @ [(v, p)]) = (if v = w then worker_log w l @ [p] else worker_log w l)"
  by (simp add: worker_log_def)

lemma ct_inv_init: "ct_inv n t (CompleteTasks_init n t)"
  by (auto simp: ct_inv_def CompleteTasks_init_def worker_log_def split_beta)

lemma ct_inv_step:
  assumes "ct_inv n t s" and "ct_step n t s s'" shows "ct_inv n t s'"
  using assms(2,1)
proof cases
  case (ct_run w)
  then show ?thesis using assms(1)
    by (auto simp: ct_inv_def nth_list_update split_beta Let_def upt_Suc_append less_Suc_eq_le le_SucI)
next
  case (ct_stop w)
  then show ?thesis using assms(1) by (auto simp: ct_inv_def nth_list_update split_beta)
next
  case ct_cancel
  then show ?thesis using assms(1) by (auto simp: ct_inv_def)
next
  case ct_return
  then show ?thesis using assms(1) by (auto simp: ct_inv_def)
next
  case ct_return_err
  then show ?thesis using assms(1) by (auto simp: ct_inv_def)
qed

lemma ct_reach_inv: "ct_reach n t s \<Longrightarrow> ct_inv n t s"
  by (induction rule: ct_reach.induct) (auto intro: ct_inv_init ct_inv_step)

subsection \<open>Every task once\<close>

lemma count_list_distinct: "distinct xs \<Longrightarrow> x \<in> set xs \<Longrightarrow> count_list xs x = 1"
  by (induction xs) auto

lemma mset_by_worker:
  assumes "\<forall>e\<in>set l. fst e < n"
  shows "mset (map snd l) = mset (concat (map (\<lambda>w. worker_log w l) [0..<n]))"
  using assms
proof (induction l rule: rev_induct)
  case Nil
  show ?case by (simp add: worker_log_def)
next
  case (snoc e l)
  obtain v p where e: "e = (v, p)" by fastforce
  have "mset (concat (map (\<lambda>w. worker_log w (l @ [(v, p)])) ws)) =
      mset (concat (map (\<lambda>w. worker_log w l) ws)) + replicate_mset (count_list ws v) p" for ws
    by (induction ws) auto
  moreover have "count_list [0..<n] v = 1" using snoc.prems e by (intro count_list_distinct) simp_all
  ultimately show ?case using snoc e by simp
qed

lemma mset_concat_mono:
  "(\<And>x. x \<in> set xs \<Longrightarrow> mset (f x) \<subseteq># mset (g x)) \<Longrightarrow> mset (concat (map f xs)) \<subseteq># mset (concat (map g xs))"
  by (induction xs) (auto intro: subset_mset.add_mono)

lemma range_prefix:
  fixes b e p :: nat
  assumes "b \<le> p" "p \<le> max b e" shows "mset [b..<p] \<subseteq># mset [b..<e]" and "e \<le> p \<Longrightarrow> [b..<p] = [b..<e]"
proof -
  show "e \<le> p \<Longrightarrow> [b..<p] = [b..<e]" using assms by (cases "b \<le> e") auto
  show "mset [b..<p] \<subseteq># mset [b..<e]"
  proof (cases "p \<le> e")
    case True
    then have "[b..<e] = [b..<p] @ [p..<e]" using assms(1) by (metis le_Suc_ex upt_add_eq_append)
    then show ?thesis by simp
  next
    case False
    then show ?thesis using assms by auto
  qed
qed

lemma ct_inv_worker:
  assumes "ct_inv n t s" and "w < n"
  shows "mset (worker_log w (ct_log s)) \<subseteq># mset (range_tasks (workerRange n t w))"
    and "snd (workerRange n t w) \<le> ct_pos s ! w \<Longrightarrow> worker_log w (ct_log s) = range_tasks (workerRange n t w)"
  using assms range_prefix [of "fst (workerRange n t w)" "ct_pos s ! w" "snd (workerRange n t w)"]
  by (auto simp: ct_inv_def range_tasks_def split_beta Let_def)

lemma ct_tasks_subset:
  assumes "0 < n" and "ct_inv n t s" shows "mset (map snd (ct_log s)) \<subseteq># mset [0..<t]"
proof -
  have "mset (map snd (ct_log s)) = mset (concat (map (\<lambda>w. worker_log w (ct_log s)) [0..<n]))"
    using assms(2) by (intro mset_by_worker) (simp add: ct_inv_def)
  also have "\<dots> \<subseteq># mset (concat (map (\<lambda>w. range_tasks (workerRange n t w)) [0..<n]))"
    using ct_inv_worker(1) [OF assms(2)] by (intro mset_concat_mono) simp
  finally show ?thesis by (simp only: ranges_partition [OF assms(1)])
qed

lemma ct_tasks_all:
  assumes "0 < n" and "ct_inv n t s" and "\<forall>w<n. snd (workerRange n t w) \<le> ct_pos s ! w"
  shows "mset (map snd (ct_log s)) = mset [0..<t]"
proof -
  have "mset (map snd (ct_log s)) = mset (concat (map (\<lambda>w. worker_log w (ct_log s)) [0..<n]))"
    using assms(2) by (intro mset_by_worker) (simp add: ct_inv_def)
  also have "map (\<lambda>w. worker_log w (ct_log s)) [0..<n] = map (\<lambda>w. range_tasks (workerRange n t w)) [0..<n]"
    using ct_inv_worker(2) [OF assms(2)] assms(3) by simp
  finally show ?thesis by (simp only: ranges_partition [OF assms(1)])
qed

subsection \<open>Termination\<close>

text \<open>The work left: tasks, workers that have not finished, and the return itself.\<close>

definition ct_work :: "nat \<Rightarrow> nat \<Rightarrow> CompleteTasks_state \<Rightarrow> nat" where
  "ct_work n t s =
     (\<Sum>w<n. (snd (workerRange n t w) - ct_pos s ! w) + (if ct_done s ! w then 0 else 1)) +
     (if ct_result s = None then 1 else 0)"

lemma sum_one_less:
  fixes f g :: "nat \<Rightarrow> nat"
  assumes "w < n" "f w < g w" "\<And>v. v \<noteq> w \<Longrightarrow> v < n \<Longrightarrow> f v = g v" shows "sum f {..<n} < sum g {..<n}"
proof (rule sum_strict_mono_ex1)
  show "\<forall>v\<in>{..<n}. f v \<le> g v" using assms(2,3) by (metis lessThan_iff less_imp_le order_refl)
qed (use assms(1,2) in auto)

lemma ct_work_decreases:
  assumes "ct_inv n t s" and "ct_step n t s s'"
  shows "s' = s\<lparr>ct_cancelled := True\<rparr> \<or> ct_work n t s' < ct_work n t s"
  using assms(2)
proof cases
  case (ct_run w)
  then have len: "w < length (ct_pos s)" using assms(1) by (simp add: ct_inv_def)
  have "(\<Sum>v<n. (snd (workerRange n t v) - ct_pos s' ! v) + (if ct_done s' ! v then 0 else 1)) <
      (\<Sum>v<n. (snd (workerRange n t v) - ct_pos s ! v) + (if ct_done s ! v then 0 else 1))"
    using ct_run len by (intro sum_one_less [of w]) (simp_all add: nth_list_update)
  with ct_run show ?thesis by (simp add: ct_work_def)
next
  case (ct_stop w)
  then have len: "w < length (ct_done s)" using assms(1) by (simp add: ct_inv_def)
  have "(\<Sum>v<n. (snd (workerRange n t v) - ct_pos s' ! v) + (if ct_done s' ! v then 0 else 1)) <
      (\<Sum>v<n. (snd (workerRange n t v) - ct_pos s ! v) + (if ct_done s ! v then 0 else 1))"
    using ct_stop len by (intro sum_one_less [of w]) (simp_all add: nth_list_update)
  with ct_stop show ?thesis by (simp add: ct_work_def)
next
  case ct_cancel
  then show ?thesis by simp
next
  case ct_return
  then show ?thesis by (simp add: ct_work_def)
next
  case ct_return_err
  then show ?thesis by (simp add: ct_work_def)
qed

lemma ct_work_cancel: "ct_work n t (s\<lparr>ct_cancelled := c\<rparr>) = ct_work n t s"
  by (simp add: ct_work_def)

lemma ct_progress:
  assumes "ct_inv n t s" "ct_result s = None" shows "\<exists>s'. ct_step n t s s' \<and> ct_cancelled s' = ct_cancelled s \<and> s' \<noteq> s"
proof (cases "\<forall>w<n. ct_done s ! w")
  case True
  let ?s = "s\<lparr>ct_result := Some (ct_cancelled s)\<rparr>"
  have "ct_step n t s ?s" using assms(2) True by (rule ct_return)
  moreover have "?s \<noteq> s" using assms(2) by (metis CompleteTasks_state.select_convs(5) CompleteTasks_state.surjective
        CompleteTasks_state.update_convs(5) option.distinct(1))
  ultimately show ?thesis by force
next
  case False
  then obtain w where w: "w < n" "\<not> ct_done s ! w" by blast
  show ?thesis
  proof (cases "snd (workerRange n t w) \<le> ct_pos s ! w \<or> ct_cancelled s")
    case True
    let ?s = "s\<lparr>ct_done := (ct_done s)[w := True]\<rparr>"
    have "ct_done ?s ! w \<noteq> ct_done s ! w" using w assms(1) by (simp add: ct_inv_def)
    then have "?s \<noteq> s" by metis
    with ct_stop [OF w True] show ?thesis by force
  next
    case False
    let ?s = "s\<lparr>ct_pos := (ct_pos s)[w := Suc (ct_pos s ! w)], ct_log := ct_log s @ [(w, ct_pos s ! w)]\<rparr>"
    have "ct_log ?s \<noteq> ct_log s" by simp
    then have "?s \<noteq> s" by metis
    with ct_run [OF w, of t] False show ?thesis by force
  qed
qed

lemma ct_returns:
  assumes "ct_inv n t s" shows "\<exists>s'. (ct_step n t)\<^sup>*\<^sup>* s s' \<and> ct_result s' \<noteq> None"
  using assms
proof (induction "ct_work n t s" arbitrary: s rule: less_induct)
  case less
  show ?case
  proof (cases "ct_result s")
    case None
    from ct_progress [OF less.prems None] obtain s' where s': "ct_step n t s s'" "ct_cancelled s' = ct_cancelled s" "s' \<noteq> s"
      by blast
    from s'(2,3) have "s' \<noteq> s\<lparr>ct_cancelled := True\<rparr>" by (cases s) auto
    with ct_work_decreases [OF less.prems s'(1)] have "ct_work n t s' < ct_work n t s" by blast
    from less.hyps [OF this ct_inv_step [OF less.prems s'(1)]] s'(1) show ?thesis
      by (meson converse_rtranclp_into_rtranclp)
  qed auto
qed

subsection \<open>Properties\<close>

lemma effectiveWorkers_pos: "0 < t \<Longrightarrow> 0 < effectiveWorkers n t"
  by (simp add: effectiveWorkers_def)

text \<open>
  C18: In every interleaving of the workers, and wherever the context is cancelled, no task is run
  twice and none out of range; and when \<open>CompleteTasks\<close> returns nil, every task has been run exactly
  once.
\<close>

theorem tasks_run_once:
  assumes "0 < numTasks" and "ct_reach (effectiveWorkers numWorkers numTasks) numTasks s"
  shows "distinct (map snd (ct_log s)) \<and> set (map snd (ct_log s)) \<subseteq> {..<numTasks} \<and>
    (ct_result s = Some False \<longrightarrow> mset (map snd (ct_log s)) = mset [0..<numTasks])"
proof -
  let ?n = "effectiveWorkers numWorkers numTasks"
  have n: "0 < ?n" using assms(1) by (rule effectiveWorkers_pos)
  have inv: "ct_inv ?n numTasks s" using assms(2) by (rule ct_reach_inv)
  have sub: "mset (map snd (ct_log s)) \<subseteq># mset [0..<numTasks]" using n inv by (rule ct_tasks_subset)
  have "set (map snd (ct_log s)) \<subseteq> {..<numTasks}"
    using set_mset_mono [OF sub] unfolding set_mset_mset by auto
  moreover have "ct_result s = Some False \<Longrightarrow> mset (map snd (ct_log s)) = mset [0..<numTasks]"
    using inv by (intro ct_tasks_all [OF n inv]) (simp add: ct_inv_def)
  ultimately show ?thesis using mset_sub_distinct [OF sub] by simp
qed

lemma one_worker_run:
  "ct_reach 1 2 \<lparr>ct_pos = [2], ct_done = [True], ct_cancelled = False, ct_log = [(0, 0), (0, 1)], ct_result = Some False\<rparr>"
proof -
  have range: "workerRange 1 2 0 = (0, 2)" by (simp add: workerRange_def)
  let ?s = "\<lambda>p d l r. \<lparr>ct_pos = [p], ct_done = [d], ct_cancelled = False, ct_log = l, ct_result = r\<rparr>"
  have "ct_reach 1 2 (?s 0 False [] None)"
    using ct_start [of 1 2] by (simp add: CompleteTasks_init_def workerRange_def)
  then have "ct_reach 1 2 (?s 1 False [(0, 0)] None)"
    using ct_run [of 0 1 "?s 0 False [] None" 2] range by (auto intro: ct_next)
  then have "ct_reach 1 2 (?s 2 False [(0, 0), (0, 1)] None)"
    using ct_run [of 0 1 "?s 1 False [(0, 0)] None" 2] range by (auto intro: ct_next simp: numeral_2_eq_2)
  then have "ct_reach 1 2 (?s 2 True [(0, 0), (0, 1)] None)"
    using ct_stop [of 0 1 "?s 2 False [(0, 0), (0, 1)] None" 2] range by (auto intro: ct_next)
  then show ?thesis
    using ct_return [of "?s 2 True [(0, 0), (0, 1)] None" 1 2] by (auto intro: ct_next)
qed

theorem tasks_run_once_witness:
  "\<exists>s. ct_reach (effectiveWorkers 1 2) 2 s \<and> ct_result s = Some False \<and> mset (map snd (ct_log s)) = mset [0..<2]"
proof -
  have n: "effectiveWorkers 1 2 = 1" by (simp add: effectiveWorkers_def)
  from tasks_run_once [of 2 1, unfolded n, OF _ one_worker_run] one_worker_run n show ?thesis
    by (metis CompleteTasks_state.select_convs(5) pos2)
qed

text \<open>
  C19: \<open>CompleteTasks\<close> cannot hang: from every state it can reach, the goroutines can run to a state
  in which it has returned, and every step that is not a cancellation uses up work that only
  decreases.
\<close>

theorem tasks_terminate:
  assumes "ct_reach n numTasks s"
  shows "(\<exists>s'. (ct_step n numTasks)\<^sup>*\<^sup>* s s' \<and> ct_result s' \<noteq> None) \<and>
    (\<forall>s'. ct_step n numTasks s s' \<longrightarrow> s' = s\<lparr>ct_cancelled := True\<rparr> \<or> ct_work n numTasks s' < ct_work n numTasks s)"
  using ct_returns ct_work_decreases ct_reach_inv [OF assms] by blast

theorem tasks_terminate_witness:
  "\<exists>s'. (ct_step 2 3)\<^sup>*\<^sup>* (CompleteTasks_init 2 3) s' \<and> ct_result s' \<noteq> None"
  using tasks_terminate [OF ct_start [of 2 3]] by blast

end
