(* ===== verification/Health_Manager.thy ===== *)
theory Health_Manager
  imports Health_Status Discovery Concurrency
begin

section \<open>kglb/utils/health\_manager: health\_manager\_state.go, health\_manager.go\<close>

text \<open>
  The manager keeps the discovered hosts with their statuses, checks them in rounds and publishes a
  copy of its state when something changed. Entries hold pointers to statuses that rounds update in
  place, so the live state refers to a store of statuses by index; published states are copies and
  hold the statuses by value. \<open>healthCheckLoop\<close> is one goroutine: its cases are the events of the
  model, taken in any order. The tasks of a round come from \<open>CompleteTasks\<close> in any order; the answer
  of the network checker and of the DNS resolver are parameters of the event. Counters and gauges
  are left out.
\<close>

subsection \<open>health\_manager\_state.go\<close>

record 'st HealthManagerEntry =
  he_HostPort :: HostPort
  he_Status :: 'st
  he_Enabled :: bool

type_synonym 'st HealthManagerState = "'st HealthManagerEntry list"

definition HealthManagerEntry_Equal ::
  "healthStatusEntry HealthManagerEntry \<Rightarrow> healthStatusEntry HealthManagerEntry \<Rightarrow> bool" where
  "HealthManagerEntry_Equal h entry \<longleftrightarrow>
     HostPort_Equal (he_HostPort h) (Some (he_HostPort entry)) \<and>
     healthStatusEntry_Equal (he_Status h) (he_Status entry)"

definition NewHealthManagerEntry :: "bool \<Rightarrow> string \<Rightarrow> int \<Rightarrow> healthStatusEntry HealthManagerEntry" where
  "NewHealthManagerEntry initialHealthyState host port =
     \<lparr>he_HostPort = NewHostPort host port True, he_Status = NewHealthStatusEntry initialHealthyState, he_Enabled = False\<rparr>"

fun GetEntry :: "'st HealthManagerState \<Rightarrow> HostPort \<Rightarrow> 'st HealthManagerEntry option" where
  "GetEntry [] hostPort = None"
| "GetEntry (entry # h) hostPort =
     (if HostPort_Equal hostPort (Some (he_HostPort entry)) then Some entry else GetEntry h hostPort)"

definition State_Contains :: "'st HealthManagerState \<Rightarrow> HostPort \<Rightarrow> bool" where
  "State_Contains h hostPort \<longleftrightarrow> GetEntry h hostPort \<noteq> None"

definition State_IsHealthy :: "healthStatusEntry HealthManagerState \<Rightarrow> bool" where
  "State_IsHealthy h = list_ex (\<lambda>entry. hs_isHealthy (he_Status entry)) h"

definition State_String :: "healthStatusEntry HealthManagerState \<Rightarrow> string" where
  "State_String h =
     (let item = (\<lambda>i entry. (if i \<noteq> 0 then '', '' else []) @ HostPort_String (he_HostPort entry) @ ''/'' @
            (if hs_isHealthy (he_Status entry) then ''true'' else ''false''))
      in ''['' @ concat (map2 item [0..<length h] h) @ '']'')"

definition Clone :: "(nat \<Rightarrow> healthStatusEntry) \<Rightarrow> nat HealthManagerState \<Rightarrow> healthStatusEntry HealthManagerState" where
  "Clone deref h = map (\<lambda>entry.
     \<lparr>he_HostPort = NewHostPort (hp_Host (he_HostPort entry)) (hp_Port (he_HostPort entry)) (hp_Enabled (he_HostPort entry)),
      he_Status = \<lparr>hs_isHealthy = hs_isHealthy (deref (he_Status entry)), hs_healthCount = hs_healthCount (deref (he_Status entry))\<rparr>,
      he_Enabled = False\<rparr>) h"

definition State_Equal :: "'st HealthManagerState \<Rightarrow> 'st HealthManagerState \<Rightarrow> bool" where
  "State_Equal h state =
     (if length h \<noteq> length state then False
      else if \<not> list_all (\<lambda>entry. State_Contains state (he_HostPort entry)) h then False
      else if \<not> list_all (\<lambda>entry. State_Contains h (he_HostPort entry)) state then False
      else True)"

subsection \<open>health\_manager.go\<close>

definition defaultHealtchCheckInterval :: nat where
  "defaultHealtchCheckInterval = 5000"

definition defaultConcurrencyLimit :: u32 where
  "defaultConcurrencyLimit = 100"

definition defaultRiseCount :: u32 where
  "defaultRiseCount = 3"

definition defaultFallCount :: u32 where
  "defaultFallCount = 2"

record HealthManager =
  hm_AddressFamily :: AddressFamily
  hm_InitialHealthyState :: bool
  hm_statuses :: "healthStatusEntry list"
  hm_state :: "nat HealthManagerState"
  hm_lastUpdateState :: "healthStatusEntry HealthManagerState"
  hm_updateChan :: "healthStatusEntry HealthManagerState option"
  hm_updateChanClosed :: bool
  hm_updateConfChan :: bool
  hm_riseCount :: int
  hm_fallCount :: int
  hm_interval :: nat
  hm_concurrencyLimit :: u32
  hm_checker :: "HealthCheckerAttributes option"
  hm_resolver :: DiscoveryResolver
  hm_initialStateSent :: bool
  hm_initialResolverStateRecv :: bool

text \<open>The interval is in milliseconds; \<open>Update\<close> takes a pointer and the getters are nil-safe.\<close>

definition HealthManager_Update :: "UpstreamChecker option \<Rightarrow> (HealthManager, unit) act" where
  "HealthManager_Update upstreamChecker = (\<lambda>h.
     let rise0 = (case upstreamChecker of None \<Rightarrow> 0 | Some c \<Rightarrow> uc_RiseCount c);
         fall0 = (case upstreamChecker of None \<Rightarrow> 0 | Some c \<Rightarrow> uc_FallCount c);
         (riseCount, fallCount) =
           (if rise0 = 0 \<and> fall0 = 0 then (defaultRiseCount, defaultFallCount) else (rise0, fall0));
         intervalMs = (case upstreamChecker of None \<Rightarrow> 0 | Some c \<Rightarrow> uc_IntervalMs c);
         configured = (case upstreamChecker of None \<Rightarrow> 0 | Some c \<Rightarrow> uc_ConcurrencyLimit c)
     in if riseCount \<le> 0 then (fail ''RiseCount must be a positive number'', h)
        else if fallCount \<le> 0 then (fail ''FallCount must be a positive number'', h)
        else (Inr (),
          h\<lparr>hm_riseCount := uint riseCount, hm_fallCount := uint fallCount,
            hm_interval := (if intervalMs > 0 then unat intervalMs else defaultHealtchCheckInterval),
            hm_concurrencyLimit := (if configured > 0 then configured else defaultConcurrencyLimit),
            hm_updateConfChan := True\<rparr>))"

definition NewHealthManager ::
  "DiscoveryResolver option \<Rightarrow> HealthCheckerAttributes option option \<Rightarrow> UpstreamChecker option \<Rightarrow> AddressFamily \<Rightarrow> bool
    \<Rightarrow> HealthManager result" where
  "NewHealthManager resolver checker attrs af initialHealthy =
     (case (resolver, checker, attrs) of
        (None, _, _) \<Rightarrow> fail ''Resolver param cannot be empty''
      | (_, None, _) \<Rightarrow> fail ''HealthChecker param cannot be empty''
      | (_, _, None) \<Rightarrow> fail ''UpstreamCheckerAttributes param cannot be empty''
      | (Some r, Some c, Some a) \<Rightarrow>
          (let mng = \<lparr>hm_AddressFamily = af, hm_InitialHealthyState = initialHealthy, hm_statuses = [],
                      hm_state = [], hm_lastUpdateState = [], hm_updateChan = None, hm_updateChanClosed = False,
                      hm_updateConfChan = False, hm_riseCount = 0, hm_fallCount = 0, hm_interval = 0,
                      hm_concurrencyLimit = 0, hm_checker = c, hm_resolver = r,
                      hm_initialStateSent = False, hm_initialResolverStateRecv = False\<rparr>
           in case HealthManager_Update (Some a) mng of
                (Inl e, _) \<Rightarrow> Inl e
              | (Inr _, mng') \<Rightarrow> Inr mng'))"

definition HealthManager_GetState :: "HealthManager \<Rightarrow> healthStatusEntry HealthManagerState" where
  "HealthManager_GetState h = hm_lastUpdateState h"

definition UpdateHealthChecker :: "HealthCheckerAttributes option \<Rightarrow> HealthManager \<Rightarrow> HealthManager" where
  "UpdateHealthChecker checker h = h\<lparr>hm_checker := checker, hm_updateConfChan := True\<rparr>"

definition UpdateResolver :: "DiscoveryResolver \<Rightarrow> HealthManager \<Rightarrow> HealthManager" where
  "UpdateResolver resolver h = h\<lparr>hm_resolver := resolver, hm_updateConfChan := True\<rparr>"

definition GetCheckerConfiguration :: "HealthManager \<Rightarrow> HealthCheckerAttributes option" where
  "GetCheckerConfiguration h = hm_checker h"

definition UpdateEntry :: "HealthManager \<Rightarrow> bool \<Rightarrow> healthStatusEntry \<Rightarrow> bool \<times> healthStatusEntry" where
  "UpdateEntry h healthCheckPassed entry = UpdateHealthCheckStatus healthCheckPassed (hm_riseCount h) (hm_fallCount h) entry"

text \<open>\<open>strings.Trim(s, "[]")\<close>.\<close>

definition trim_brackets :: "string \<Rightarrow> string" where
  "trim_brackets s = (let br = (\<lambda>c. c = CHR ''['' \<or> c = CHR '']'') in rev (dropWhile br (rev (dropWhile br s))))"

definition resolveHostPort ::
  "(string \<Rightarrow> AddressFamily \<Rightarrow> IP option result) option \<Rightarrow> AddressFamily \<Rightarrow> HostPort \<Rightarrow> HostPort" where
  "resolveHostPort dns af hostPort =
     (case dns of
        Some ResolveHost \<Rightarrow>
          if AddressFamily_value af \<ge> 0 then
            (case ResolveHost (hp_Host hostPort) af of
               Inr ip \<Rightarrow> hostPort\<lparr>hp_Address := trim_brackets (KglbAddrToString ip)\<rparr>
             | Inl _ \<Rightarrow> hostPort)
          else hostPort
      | None \<Rightarrow> hostPort)"

definition notifyStateChange :: "HealthManager \<Rightarrow> HealthManager" where
  "notifyStateChange h =
     (let stateToSend = Clone ((!) (hm_statuses h)) (hm_state h)
      in h\<lparr>hm_lastUpdateState := stateToSend, hm_updateChan := Some stateToSend\<rparr>)"

text \<open>The loop over the discovered hosts: a known host keeps its entry, a new one gets a new status.\<close>

fun applyLoop ::
  "nat HealthManagerState \<Rightarrow> bool \<Rightarrow> HostPort list \<Rightarrow> healthStatusEntry list
    \<Rightarrow> nat HealthManagerState \<times> healthStatusEntry list" where
  "applyLoop old initialHealthy [] statuses = ([], statuses)"
| "applyLoop old initialHealthy (hostPort # hps) statuses =
     (let (entry, statuses1) =
        (case GetEntry old hostPort of
           Some entry \<Rightarrow> (entry, statuses)
         | None \<Rightarrow> (\<lparr>he_HostPort = hostPort, he_Status = length statuses, he_Enabled = hp_Enabled hostPort\<rparr>,
                    statuses @ [NewHealthStatusEntry initialHealthy]));
        (newState, statuses2) = applyLoop old initialHealthy hps statuses1
      in (entry # newState, statuses2))"

definition applyResolverState ::
  "(string \<Rightarrow> AddressFamily \<Rightarrow> IP option result) option \<Rightarrow> DiscoveryState \<Rightarrow> HealthManager \<Rightarrow> HealthManager" where
  "applyResolverState dns discoveryState h =
     (let state = hm_state h;
          (newState, statuses) =
            applyLoop state (hm_InitialHealthyState h) (map (resolveHostPort dns (hm_AddressFamily h)) discoveryState)
              (hm_statuses h);
          h' = h\<lparr>hm_state := newState, hm_statuses := statuses, hm_initialResolverStateRecv := True\<rparr>
      in if \<not> State_Equal state newState \<and> hm_initialStateSent h' then notifyStateChange h' else h')"

text \<open>One task of a round, and the round: \<open>tasks\<close> is the order in which the workers ran them.\<close>

definition checkTask ::
  "(nat \<Rightarrow> string \<Rightarrow> int \<Rightarrow> unit result) \<Rightarrow> HealthManager \<Rightarrow> nat \<Rightarrow> bool \<times> healthStatusEntry list
    \<Rightarrow> bool \<times> healthStatusEntry list" where
  "checkTask Check h numTask acc = (case acc of (changed, statuses) \<Rightarrow>
     let entry = hm_state h ! numTask;
         checkStatus = (if he_Enabled entry
                        then is_ok (Check numTask (hp_Address (he_HostPort entry)) (hp_Port (he_HostPort entry)))
                        else False);
         (flipped, status) = UpdateHealthCheckStatus checkStatus (hm_riseCount h) (hm_fallCount h) (statuses ! he_Status entry)
     in (changed \<or> flipped, statuses[he_Status entry := status]))"

definition performHealthChecks ::
  "(nat \<Rightarrow> string \<Rightarrow> int \<Rightarrow> unit result) \<Rightarrow> nat list \<Rightarrow> HealthManager \<Rightarrow> bool \<times> HealthManager" where
  "performHealthChecks Check tasks h =
     (let (changed, statuses) = fold (checkTask Check h) tasks (False, hm_statuses h)
      in (changed, h\<lparr>hm_statuses := statuses\<rparr>))"

definition healthCheckRound ::
  "(nat \<Rightarrow> string \<Rightarrow> int \<Rightarrow> unit result) \<Rightarrow> nat list \<Rightarrow> HealthManager \<Rightarrow> HealthManager" where
  "healthCheckRound Check tasks h =
     (if length (hm_state h) = 0 \<and> \<not> hm_initialResolverStateRecv h then h
      else
        let (changed, h1) = performHealthChecks Check tasks h
        in if changed \<or> \<not> hm_initialStateSent h1
           then (notifyStateChange h1)\<lparr>hm_initialStateSent := True\<rparr>
           else h1)"

definition closeLoop :: "HealthManager \<Rightarrow> HealthManager" where
  "closeLoop h = h\<lparr>hm_updateChanClosed := True\<rparr>"

text \<open>
  The cases of \<open>healthCheckLoop\<close>, with the calls other goroutines make between them and the
  receives of the balancer.
\<close>

datatype hm_event =
  ResolverState "(string \<Rightarrow> AddressFamily \<Rightarrow> IP option result) option" DiscoveryState
| HealthCheckTick "nat \<Rightarrow> string \<Rightarrow> int \<Rightarrow> unit result" "nat list"
| ConfUpdated
| CallUpdate "UpstreamChecker option"
| CallUpdateHealthChecker "HealthCheckerAttributes option"
| CallUpdateResolver DiscoveryResolver
| ReceiveUpdate

fun healthCheckLoop_event :: "hm_event \<Rightarrow> HealthManager \<Rightarrow> HealthManager" where
  "healthCheckLoop_event (ResolverState dns st) h = applyResolverState dns st h"
| "healthCheckLoop_event (HealthCheckTick Check tasks) h = healthCheckRound Check tasks h"
| "healthCheckLoop_event ConfUpdated h = h\<lparr>hm_updateConfChan := False\<rparr>"
| "healthCheckLoop_event (CallUpdate uc) h = snd (HealthManager_Update uc h)"
| "healthCheckLoop_event (CallUpdateHealthChecker c) h = UpdateHealthChecker c h"
| "healthCheckLoop_event (CallUpdateResolver r) h = UpdateResolver r h"
| "healthCheckLoop_event ReceiveUpdate h = h\<lparr>hm_updateChan := None\<rparr>"

subsection \<open>Looking entries up\<close>

lemma GetEntry_Some: "GetEntry st hp = Some e \<Longrightarrow> e \<in> set st \<and> he_HostPort e = hp"
  by (induction st) (auto split: if_splits)

lemma GetEntry_None: "GetEntry st hp = None \<longleftrightarrow> hp \<notin> he_HostPort ` set st"
  by (induction st) auto

lemma GetEntry_mem: "distinct (map he_HostPort st) \<Longrightarrow> e \<in> set st \<Longrightarrow> GetEntry st (he_HostPort e) = Some e"
  by (induction st) (auto, metis image_eqI)

lemma State_Equal_iff:
  "State_Equal h st \<longleftrightarrow> length h = length st \<and> he_HostPort ` set h = he_HostPort ` set st"
  unfolding State_Equal_def State_Contains_def GetEntry_None by (auto simp: list_all_iff)

subsection \<open>The live state is well formed\<close>

definition entries_ok :: "nat HealthManagerState \<Rightarrow> nat \<Rightarrow> bool" where
  "entries_ok st n \<longleftrightarrow>
     distinct (map he_HostPort st) \<and> distinct (map he_Status st) \<and>
     (\<forall>e\<in>set st. he_Status e < n \<and> he_Enabled e = hp_Enabled (he_HostPort e))"

lemma applyLoop_hosts: "map he_HostPort (fst (applyLoop old b hps sts)) = hps"
proof (induction hps arbitrary: sts)
  case (Cons hp hps)
  then show ?case by (auto simp: split_beta Let_def dest: GetEntry_Some split: option.splits)
qed simp

lemma applyLoop_store: "\<exists>k. snd (applyLoop old b hps sts) = sts @ replicate k (NewHealthStatusEntry b)"
proof (induction hps arbitrary: sts)
  case Nil
  have "sts = sts @ replicate 0 (NewHealthStatusEntry b)" by simp
  then show ?case by fastforce
next
  case (Cons hp hps)
  show ?case
  proof (cases "GetEntry old hp")
    case None
    from Cons.IH [of "sts @ [NewHealthStatusEntry b]"] obtain k where
      "snd (applyLoop old b hps (sts @ [NewHealthStatusEntry b])) = (sts @ [NewHealthStatusEntry b]) @ replicate k (NewHealthStatusEntry b)"
      by blast
    then have "snd (applyLoop old b (hp # hps) sts) = sts @ replicate (Suc k) (NewHealthStatusEntry b)"
      by (simp add: None split_beta Let_def)
    then show ?thesis by blast
  next
    case (Some e)
    with Cons.IH [of sts] show ?thesis by (simp add: split_beta Let_def)
  qed
qed

lemma applyLoop_entries:
  "e \<in> set (fst (applyLoop old b hps sts)) \<Longrightarrow>
     GetEntry old (he_HostPort e) = Some e \<or>
     (GetEntry old (he_HostPort e) = None \<and> length sts \<le> he_Status e \<and>
      he_Status e < length (snd (applyLoop old b hps sts)) \<and> he_Enabled e = hp_Enabled (he_HostPort e) \<and>
      snd (applyLoop old b hps sts) ! he_Status e = NewHealthStatusEntry b)"
proof (induction hps arbitrary: sts)
  case (Cons hp hps)
  show ?case
  proof (cases "GetEntry old hp")
    case (Some x)
    with Cons GetEntry_Some [OF Some] show ?thesis by (auto simp: split_beta Let_def)
  next
    case None
    let ?sts = "sts @ [NewHealthStatusEntry b]"
    obtain k where k: "snd (applyLoop old b hps ?sts) = ?sts @ replicate k (NewHealthStatusEntry b)"
      using applyLoop_store by blast
    from None Cons.prems have "e = \<lparr>he_HostPort = hp, he_Status = length sts, he_Enabled = hp_Enabled hp\<rparr> \<or>
        e \<in> set (fst (applyLoop old b hps ?sts))"
      by (simp add: split_beta Let_def)
    then show ?thesis
    proof
      assume "e = \<lparr>he_HostPort = hp, he_Status = length sts, he_Enabled = hp_Enabled hp\<rparr>"
      then show ?thesis using None k by (simp add: split_beta Let_def nth_append)
    next
      assume "e \<in> set (fst (applyLoop old b hps ?sts))"
      from Cons.IH [OF this] None show ?thesis by (auto simp: split_beta Let_def)
    qed
  qed
qed simp

lemma applyLoop_refs:
  assumes "entries_ok old n" and "n \<le> length sts" and "distinct hps"
  shows "distinct (map he_Status (fst (applyLoop old b hps sts)))"
  using assms(2,3)
proof (induction hps arbitrary: sts)
  case (Cons hp hps)
  have old: "e \<in> set old \<Longrightarrow> he_Status e < length sts" for e
    using assms(1) Cons.prems(1) by (auto simp: entries_ok_def)
  have inj: "e \<in> set old \<Longrightarrow> e' \<in> set old \<Longrightarrow> he_Status e = he_Status e' \<Longrightarrow> e = e'" for e e'
    using assms(1) by (auto simp: entries_ok_def distinct_map dest: inj_onD)
  have tail: "he_HostPort e \<in> set hps" if "e \<in> set (fst (applyLoop old b hps s))" for e s
    using that applyLoop_hosts [of old b hps s] by (metis image_eqI list.set_map)
  show ?case
  proof (cases "GetEntry old hp")
    case (Some x)
    then have x: "x \<in> set old" "he_HostPort x = hp" by (simp_all add: GetEntry_Some)
    have "he_Status e \<noteq> he_Status x" if e: "e \<in> set (fst (applyLoop old b hps sts))" for e
      using applyLoop_entries [OF e] GetEntry_Some [of old "he_HostPort e" e] inj [of e x] old [OF x(1)] tail [OF e] x Cons.prems(2)
      by auto
    then have "he_Status x \<notin> he_Status ` set (fst (applyLoop old b hps sts))" by force
    with Some Cons show ?thesis by (simp add: split_beta Let_def)
  next
    case None
    let ?sts = "sts @ [NewHealthStatusEntry b]"
    have "he_Status e \<noteq> length sts" if e: "e \<in> set (fst (applyLoop old b hps ?sts))" for e
      using applyLoop_entries [OF e] GetEntry_Some [of old "he_HostPort e" e] old [of e] by auto
    then have "length sts \<notin> he_Status ` set (fst (applyLoop old b hps ?sts))" by force
    with None Cons.IH [of ?sts] Cons.prems show ?thesis by (simp add: split_beta Let_def)
  qed
qed simp

lemma applyLoop_ok:
  assumes "entries_ok old (length sts)" and "distinct hps"
  shows "entries_ok (fst (applyLoop old b hps sts)) (length (snd (applyLoop old b hps sts)))"
proof -
  obtain k where k: "snd (applyLoop old b hps sts) = sts @ replicate k (NewHealthStatusEntry b)"
    using applyLoop_store by blast
  have "he_Status e < length (snd (applyLoop old b hps sts)) \<and> he_Enabled e = hp_Enabled (he_HostPort e)"
    if "e \<in> set (fst (applyLoop old b hps sts))" for e
    using applyLoop_entries [OF that] GetEntry_Some [of old "he_HostPort e" e] assms(1) k
    by (auto simp: entries_ok_def intro: trans_less_add1)
  then show ?thesis
    using applyLoop_refs [OF assms(1) order_refl assms(2)] assms(2) by (auto simp: entries_ok_def applyLoop_hosts)
qed

text \<open>Applying a permutation of the known hosts only reorders the entries.\<close>

lemma applyLoop_same:
  assumes "entries_ok old (length sts)" and "distinct hps" and "set hps = he_HostPort ` set old"
  shows "mset (fst (applyLoop old b hps sts)) = mset old"
proof -
  let ?new = "fst (applyLoop old b hps sts)"
  have hosts: "map he_HostPort ?new = hps" by (rule applyLoop_hosts)
  have sub: "e \<in> set old" if e: "e \<in> set ?new" for e
  proof -
    have "he_HostPort e \<in> he_HostPort ` set old" using e hosts assms(3) by (metis image_eqI list.set_map)
    then have "GetEntry old (he_HostPort e) \<noteq> None" by (simp add: GetEntry_None)
    with applyLoop_entries [OF e] show ?thesis using GetEntry_Some by fastforce
  qed
  have "card (set ?new) = card (set old)"
    using assms hosts by (metis card_image distinct_map entries_ok_def list.set_map)
  then have "set ?new = set old" using sub by (intro card_subset_eq) auto
  moreover have "distinct ?new" "distinct old"
    using assms(1,2) hosts unfolding entries_ok_def by (metis distinct_map)+
  ultimately show ?thesis using set_eq_iff_mset_eq_distinct by blast
qed

subsection \<open>A round of checks\<close>

definition verdict :: "(nat \<Rightarrow> string \<Rightarrow> int \<Rightarrow> unit result) \<Rightarrow> HealthManager \<Rightarrow> nat \<Rightarrow> bool" where
  "verdict Check h i = (let e = hm_state h ! i in
     he_Enabled e \<and> is_ok (Check i (hp_Address (he_HostPort e)) (hp_Port (he_HostPort e))))"

definition checked :: "(nat \<Rightarrow> string \<Rightarrow> int \<Rightarrow> unit result) \<Rightarrow> HealthManager \<Rightarrow> nat \<Rightarrow> bool \<times> healthStatusEntry" where
  "checked Check h i =
     UpdateHealthCheckStatus (verdict Check h i) (hm_riseCount h) (hm_fallCount h)
       (hm_statuses h ! he_Status (hm_state h ! i))"

text \<open>Every status is updated once, with its own verdict, whatever the order of the tasks.\<close>

lemma round_effect:
  assumes "entries_ok (hm_state h) (length (hm_statuses h))" and "distinct tasks" and "set tasks \<subseteq> {..<length (hm_state h)}"
  shows "let (changed, sts) = fold (checkTask Check h) tasks (False, hm_statuses h) in
    length sts = length (hm_statuses h) \<and> (changed \<longleftrightarrow> (\<exists>i\<in>set tasks. fst (checked Check h i))) \<and>
    (\<forall>i<length (hm_state h). sts ! he_Status (hm_state h ! i) =
       (if i \<in> set tasks then snd (checked Check h i) else hm_statuses h ! he_Status (hm_state h ! i)))"
  using assms(2,3)
proof (induction tasks rule: rev_induct)
  case Nil
  then show ?case by simp
next
  case (snoc j tasks)
  let ?ref = "\<lambda>i. he_Status (hm_state h ! i)"
  obtain changed sts where f: "fold (checkTask Check h) tasks (False, hm_statuses h) = (changed, sts)" by fastforce
  from snoc.prems have j: "j < length (hm_state h)" "j \<notin> set tasks" and d: "distinct tasks" "set tasks \<subseteq> {..<length (hm_state h)}"
    by auto
  note IH = snoc.IH [OF d, unfolded f, simplified]
  have inj: "?ref j = ?ref i \<longleftrightarrow> i = j" if "i < length (hm_state h)" for i
    using assms(1) that j(1) nth_eq_iff_index_eq [of "map he_Status (hm_state h)" i j] by (auto simp: entries_ok_def)
  have len: "?ref j < length sts" using IH assms(1) j(1) by (simp add: entries_ok_def)
  have "sts ! ?ref j = hm_statuses h ! ?ref j" using IH j by simp
  then have step: "checkTask Check h j (changed, sts) =
      (changed \<or> fst (checked Check h j), sts[?ref j := snd (checked Check h j)])"
    by (auto simp: checkTask_def checked_def verdict_def Let_def split_beta)
  have "fold (checkTask Check h) (tasks @ [j]) (False, hm_statuses h) =
      (changed \<or> fst (checked Check h j), sts[?ref j := snd (checked Check h j)])"
    by (simp add: f step)
  moreover have "sts[?ref j := v] ! ?ref i = (if i = j then v else sts ! ?ref i)" if "i < length (hm_state h)" for i v
    using inj [OF that] len by (simp add: nth_list_update)
  ultimately show ?case using IH j by auto
qed

subsection \<open>What is published\<close>

definition live_view :: "healthStatusEntry list \<Rightarrow> nat HealthManagerEntry \<Rightarrow> (string \<times> int \<times> bool) \<times> bool" where
  "live_view sts e =
     ((hp_Host (he_HostPort e), hp_Port (he_HostPort e), hp_Enabled (he_HostPort e)), hs_isHealthy (sts ! he_Status e))"

definition pub_view :: "healthStatusEntry HealthManagerEntry \<Rightarrow> (string \<times> int \<times> bool) \<times> bool" where
  "pub_view e =
     ((hp_Host (he_HostPort e), hp_Port (he_HostPort e), hp_Enabled (he_HostPort e)), hs_isHealthy (he_Status e))"

lemma Clone_view: "map pub_view (Clone ((!) sts) st) = map (live_view sts) st"
  by (simp add: Clone_def pub_view_def live_view_def NewHostPort_def)

definition published :: "HealthManager \<Rightarrow> bool" where
  "published h \<longleftrightarrow>
     (hm_initialStateSent h \<longrightarrow>
        mset (map pub_view (hm_lastUpdateState h)) = mset (map (live_view (hm_statuses h)) (hm_state h))) \<and>
     (\<forall>s. hm_updateChan h = Some s \<longrightarrow> s = hm_lastUpdateState h)"

definition hm_inv :: "HealthManager \<Rightarrow> bool" where
  "hm_inv h \<longleftrightarrow> entries_ok (hm_state h) (length (hm_statuses h)) \<and> published h \<and> 0 < hm_riseCount h \<and> 0 < hm_fallCount h"

lemma notify_published: "published (notifyStateChange h)"
  unfolding published_def notifyStateChange_def Let_def by (simp add: Clone_view del: mset_map)

lemma notify_fields [simp]:
  "hm_state (notifyStateChange h) = hm_state h" "hm_statuses (notifyStateChange h) = hm_statuses h"
  "hm_riseCount (notifyStateChange h) = hm_riseCount h" "hm_fallCount (notifyStateChange h) = hm_fallCount h"
  by (simp_all add: notifyStateChange_def Let_def)

lemma live_view_append:
  assumes "entries_ok st (length sts)" shows "map (live_view (sts @ us)) st = map (live_view sts) st"
  using assms by (auto simp: entries_ok_def live_view_def nth_append)

lemma apply_inv:
  assumes inv: "hm_inv h" and d: "distinct (map (resolveHostPort dns (hm_AddressFamily h)) ds)"
  shows "hm_inv (applyResolverState dns ds h)"
proof -
  let ?hps = "map (resolveHostPort dns (hm_AddressFamily h)) ds"
  let ?L = "applyLoop (hm_state h) (hm_InitialHealthyState h) ?hps (hm_statuses h)"
  let ?h = "h\<lparr>hm_state := fst ?L, hm_statuses := snd ?L, hm_initialResolverStateRecv := True\<rparr>"
  have ok: "entries_ok (hm_state h) (length (hm_statuses h))" using inv by (simp add: hm_inv_def)
  have new: "entries_ok (fst ?L) (length (snd ?L))" using applyLoop_ok [OF ok d] .
  have res: "applyResolverState dns ds h =
      (if \<not> State_Equal (hm_state h) (fst ?L) \<and> hm_initialStateSent h then notifyStateChange ?h else ?h)"
    by (simp add: applyResolverState_def Let_def split_beta)
  obtain k where k: "snd ?L = hm_statuses h @ replicate k (NewHealthStatusEntry (hm_InitialHealthyState h))"
    using applyLoop_store by blast
  have "published ?h" if eq: "State_Equal (hm_state h) (fst ?L)"
  proof -
    have "set ?hps = he_HostPort ` set (hm_state h)"
      using eq applyLoop_hosts [of "hm_state h" "hm_InitialHealthyState h" ?hps "hm_statuses h"]
      by (metis State_Equal_iff list.set_map)
    then have "mset (fst ?L) = mset (hm_state h)" by (rule applyLoop_same [OF ok d])
    then have "mset (map (live_view (snd ?L)) (fst ?L)) = mset (map (live_view (hm_statuses h)) (hm_state h))"
      using live_view_append [OF ok] k by (metis mset_map)
    then show ?thesis using inv by (simp add: hm_inv_def published_def del: mset_map)
  qed
  moreover have "published ?h" if "\<not> hm_initialStateSent h"
    using that inv by (simp add: hm_inv_def published_def)
  ultimately show ?thesis using new inv notify_published unfolding res hm_inv_def by auto
qed

lemma round_inv:
  assumes inv: "hm_inv h" and t: "distinct tasks" "set tasks \<subseteq> {..<length (hm_state h)}"
  shows "hm_inv (healthCheckRound Check tasks h)"
proof -
  obtain changed sts where f: "fold (checkTask Check h) tasks (False, hm_statuses h) = (changed, sts)" by fastforce
  have ok: "entries_ok (hm_state h) (length (hm_statuses h))" using inv by (simp add: hm_inv_def)
  note eff = round_effect [OF ok t, of Check, unfolded f, simplified]
  let ?h = "h\<lparr>hm_statuses := sts\<rparr>"
  have ok': "entries_ok (hm_state h) (length sts)" using eff ok by simp
  have "published ?h" if "\<not> changed"
  proof -
    have "hs_isHealthy (sts ! he_Status (hm_state h ! i)) = hs_isHealthy (hm_statuses h ! he_Status (hm_state h ! i))"
      if "i < length (hm_state h)" for i
      using eff that \<open>\<not> changed\<close> update_flips by (auto simp: checked_def)
    then have "map (live_view sts) (hm_state h) = map (live_view (hm_statuses h)) (hm_state h)"
      by (intro nth_equalityI) (simp_all add: live_view_def)
    from arg_cong [where f = mset, OF this] show ?thesis using inv by (simp add: hm_inv_def published_def del: mset_map)
  qed
  moreover have "published ((notifyStateChange ?h)\<lparr>hm_initialStateSent := True\<rparr>)"
    unfolding published_def notifyStateChange_def Let_def by (simp add: Clone_view del: mset_map)
  ultimately show ?thesis
    using inv ok' by (auto simp: healthCheckRound_def performHealthChecks_def f hm_inv_def)
qed

lemma Update_inv: "hm_inv h \<Longrightarrow> hm_inv (snd (HealthManager_Update uc h))"
  by (auto simp: HealthManager_Update_def hm_inv_def published_def Let_def split_beta uint_0_iff word_gt_0
      defaultRiseCount_def defaultFallCount_def less_le split: option.splits)

subsection \<open>Reachable managers\<close>

text \<open>
  An event may happen when the discovered hosts are pairwise different (after address resolution),
  and a round runs each task at most once, which \<open>CompleteTasks\<close> guarantees (\<open>tasks_run_once\<close>).
\<close>

fun good_event :: "HealthManager \<Rightarrow> hm_event \<Rightarrow> bool" where
  "good_event h (ResolverState dns ds) = distinct (map (resolveHostPort dns (hm_AddressFamily h)) ds)"
| "good_event h (HealthCheckTick Check tasks) = (distinct tasks \<and> set tasks \<subseteq> {..<length (hm_state h)})"
| "good_event h _ = True"

inductive hm_reach :: "HealthManager \<Rightarrow> bool" where
  hm_start: "NewHealthManager resolver checker attrs af b = Inr h \<Longrightarrow> hm_reach h"
| hm_step: "hm_reach h \<Longrightarrow> good_event h ev \<Longrightarrow> hm_reach (healthCheckLoop_event ev h)"

lemma Update_result:
  "HealthManager_Update (Some c) h =
     (if (uc_RiseCount c = 0) \<noteq> (uc_FallCount c = 0)
      then (if uc_RiseCount c = 0 then fail ''RiseCount must be a positive number''
            else fail ''FallCount must be a positive number'', h)
      else (Inr (), h\<lparr>hm_riseCount := (if uc_RiseCount c = 0 then 3 else uint (uc_RiseCount c)),
        hm_fallCount := (if uc_FallCount c = 0 then 2 else uint (uc_FallCount c)),
        hm_interval := (if uc_IntervalMs c = 0 then 5000 else unat (uc_IntervalMs c)),
        hm_concurrencyLimit := (if uc_ConcurrencyLimit c = 0 then 100 else uc_ConcurrencyLimit c),
        hm_updateConfChan := True\<rparr>))"
  by (auto simp: HealthManager_Update_def Let_def word_gt_0 defaultRiseCount_def defaultFallCount_def
      defaultHealtchCheckInterval_def defaultConcurrencyLimit_def)

lemma NewHealthManager_inv: "NewHealthManager resolver checker attrs af b = Inr h \<Longrightarrow> hm_inv h"
  by (auto simp: NewHealthManager_def Update_result Let_def hm_inv_def entries_ok_def published_def uint_0_iff
      less_le split: option.splits if_splits prod.splits sum.splits)

lemma hm_reach_inv: "hm_reach h \<Longrightarrow> hm_inv h"
proof (induction rule: hm_reach.induct)
  case (hm_start resolver checker attrs af b h)
  then show ?case by (rule NewHealthManager_inv)
next
  case (hm_step h ev)
  then show ?case
  proof (cases ev)
    case (ResolverState dns ds)
    with hm_step show ?thesis by (simp add: apply_inv)
  next
    case (HealthCheckTick Check tasks)
    with hm_step show ?thesis by (simp add: round_inv)
  next
    case (CallUpdate uc)
    with hm_step show ?thesis by (simp add: Update_inv)
  qed (auto simp: hm_inv_def published_def UpdateHealthChecker_def UpdateResolver_def)
qed

subsection \<open>Properties\<close>


definition sample_hm :: HealthManager where
  "sample_hm =
     healthCheckRound (\<lambda>i a p. if a = ''h1'' then Inr () else fail ''down'') [1, 0]
       (applyResolverState None [NewHostPort ''h1'' 80 True, NewHostPort ''h2'' 80 True]
         (projr (NewHealthManager (Some OtherResolver) (Some None)
           (Some \<lparr>uc_IntervalMs = 0, uc_RiseCount = 1, uc_FallCount = 1, uc_Checker = None, uc_ConcurrencyLimit = 0\<rparr>)
           AF_INET False)))"

lemma sample_hm_reach: "hm_reach sample_hm"
proof -
  let ?new = "NewHealthManager (Some OtherResolver) (Some None)
     (Some \<lparr>uc_IntervalMs = 0, uc_RiseCount = 1, uc_FallCount = 1, uc_Checker = None, uc_ConcurrencyLimit = 0\<rparr>) AF_INET False"
  let ?ds = "[NewHostPort ''h1'' 80 True, NewHostPort ''h2'' 80 True]"
  have "?new = Inr (projr ?new)" by (simp add: NewHealthManager_def Update_result Let_def)
  then have r: "hm_reach (projr ?new)" by (rule hm_start)
  have "good_event (projr ?new) (ResolverState None ?ds)" by (simp add: resolveHostPort_def NewHostPort_def)
  from hm_step [OF r this] have r2: "hm_reach (applyResolverState None ?ds (projr ?new))" by simp
  have "length (hm_state (applyResolverState None ?ds (projr ?new))) = 2"
    by (simp add: NewHealthManager_def Update_result Let_def applyResolverState_def split_beta)
  then have "good_event (applyResolverState None ?ds (projr ?new))
      (HealthCheckTick (\<lambda>i a p. if a = ''h1'' then Inr () else fail ''down'') [1, 0])" by simp
  from hm_step [OF r2 this] show ?thesis by (simp add: sample_hm_def)
qed




text \<open>
  C23: Applying a discovered state keeps the status of every host that was known (so its history of
  checks is not lost), starts every new host in the configured initial state, drops the hosts that
  are gone and follows the discovered order.
\<close>

theorem discovery_keeps_history:
  assumes "hm_reach h" and "good_event h (ResolverState dns ds)" and "h' = applyResolverState dns ds h"
  shows "map he_HostPort (hm_state h') = map (resolveHostPort dns (hm_AddressFamily h)) ds \<and>
    (\<forall>e\<in>set (hm_state h'). hm_statuses h' ! he_Status e =
       (case GetEntry (hm_state h) (he_HostPort e) of
          Some old \<Rightarrow> hm_statuses h ! he_Status old
        | None \<Rightarrow> NewHealthStatusEntry (hm_InitialHealthyState h)))"
proof -
  let ?hps = "map (resolveHostPort dns (hm_AddressFamily h)) ds"
  let ?L = "applyLoop (hm_state h) (hm_InitialHealthyState h) ?hps (hm_statuses h)"
  have ok: "entries_ok (hm_state h) (length (hm_statuses h))" using hm_reach_inv [OF assms(1)] by (simp add: hm_inv_def)
  have res: "hm_state h' = fst ?L" "hm_statuses h' = snd ?L"
    by (simp_all add: assms(3) applyResolverState_def Let_def split_beta)
  obtain k where k: "snd ?L = hm_statuses h @ replicate k (NewHealthStatusEntry (hm_InitialHealthyState h))"
    using applyLoop_store by blast
  have "snd ?L ! he_Status e = (case GetEntry (hm_state h) (he_HostPort e) of
      Some old \<Rightarrow> hm_statuses h ! he_Status old | None \<Rightarrow> NewHealthStatusEntry (hm_InitialHealthyState h))"
    if "e \<in> set (fst ?L)" for e
    using applyLoop_entries [OF that] GetEntry_Some [of "hm_state h" "he_HostPort e" e] ok k
    by (auto simp: entries_ok_def nth_append)
  then show ?thesis unfolding res using applyLoop_hosts by blast
qed

theorem discovery_keeps_history_witness:
  "map he_HostPort (hm_state (applyResolverState None [NewHostPort ''h3'' 80 True, NewHostPort ''h1'' 80 True] sample_hm)) =
     [NewHostPort ''h3'' 80 True, NewHostPort ''h1'' 80 True]"
  using discovery_keeps_history [OF sample_hm_reach, of None "[NewHostPort ''h3'' 80 True, NewHostPort ''h1'' 80 True]", OF _ refl]
  by (simp add: resolveHostPort_def NewHostPort_def)



end
