(* ===== verification/Fwmark.thy ===== *)
theory Fwmark
  imports Data_Types
begin

section \<open>kglb/utils/fwmark: allocation of firewall marks\<close>

text \<open>
  \<open>fwmark_manager.go\<close> (\<open>Manager\<close>), \<open>fwmark_helpers.go\<close> and the key of \<open>fwmark_gen.go\<close>. Marks and
  reference counts are 32-bit words and wrap as in Go; every operation holds the manager's mutex, so
  operations are atomic. The manager refines an allocator that only counts references and has a
  capacity; its clients (theory Balancer) rely on the laws of the locale \<open>mark_allocator\<close>.
\<close>

subsection \<open>Definitions\<close>

record fwmarkMdata =
  md_fwmark :: u32
  md_refcount :: u32

record Manager =
  fm_maxFwmark :: u32
  fm_base :: u32
  fm_pool :: "u32 list"
  fm_allocated :: "(string, fwmarkMdata) gomap"

text \<open>The loop \<open>for i := base; i < base+maxFwmark; i++\<close>, with the limit computed modulo \<open>2 ^ 32\<close>.\<close>

function poolLoop :: "u32 \<Rightarrow> u32 \<Rightarrow> u32 list" where
  "poolLoop i hi = (if i < hi then i # poolLoop (i + 1) hi else [])"
  by pat_completeness auto
termination
proof (relation "measure (\<lambda>(i, hi). unat hi - unat i)")
  fix i hi :: u32
  assume "i < hi"
  then have "unat i < unat hi" "unat (i + 1) = Suc (unat i)"
    using word_succ_unat by (simp_all add: word_less_nat_alt)
  then show "((i + 1, hi), i, hi) \<in> measure (\<lambda>(i, hi). unat hi - unat i)" by simp
qed simp

declare poolLoop.simps [simp del]

definition NewManager :: "u32 \<Rightarrow> u32 \<Rightarrow> Manager" where
  "NewManager maxFwmark base =
     \<lparr>fm_maxFwmark = maxFwmark, fm_base = base, fm_pool = poolLoop base (base + maxFwmark), fm_allocated = []\<rparr>"

definition AllocateFwmark :: "string \<Rightarrow> (Manager, u32) act" where
  "AllocateFwmark address = (\<lambda>m.
     case map_of (fm_allocated m) address of
       Some v \<Rightarrow>
         (Inr (md_fwmark v),
          m\<lparr>fm_allocated := AList.update address (v\<lparr>md_refcount := md_refcount v + 1\<rparr>) (fm_allocated m)\<rparr>)
     | None \<Rightarrow>
         (case fm_pool m of
            [] \<Rightarrow> (fail ''no more unused fwmarks'', m)
          | fwmark # rest \<Rightarrow>
              (Inr fwmark,
               m\<lparr>fm_pool := rest,
                 fm_allocated := AList.update address \<lparr>md_fwmark = fwmark, md_refcount = 1\<rparr> (fm_allocated m)\<rparr>)))"

definition GetAllocatedFwmark :: "Manager \<Rightarrow> string \<Rightarrow> u32 result" where
  "GetAllocatedFwmark m address =
     (case map_of (fm_allocated m) address of
        Some v \<Rightarrow> Inr (md_fwmark v)
      | None \<Rightarrow> fail ''no fwmark allocated for address'')"

definition ReleaseFwmark :: "string \<Rightarrow> (Manager, unit) act" where
  "ReleaseFwmark address = (\<lambda>m.
     case map_of (fm_allocated m) address of
       Some v \<Rightarrow>
         if md_refcount v - 1 = 0
         then (Inr (), m\<lparr>fm_pool := fm_pool m @ [md_fwmark v], fm_allocated := AList.delete address (fm_allocated m)\<rparr>)
         else (Inr (), m\<lparr>fm_allocated := AList.update address (v\<lparr>md_refcount := md_refcount v - 1\<rparr>) (fm_allocated m)\<rparr>)
     | None \<Rightarrow> (fail ''no allocated fwmark for address'', m))"

definition IsFwmarkService :: "IpvsService option \<Rightarrow> bool result" where
  "IsFwmarkService service =
     (case service of
        None \<Rightarrow> nilDeref
      | Some s \<Rightarrow> (case ipvs_Attributes s of Some (FwmarkAttributes _) \<Rightarrow> Inr True | _ \<Rightarrow> Inr False))"

record FwmarkParams =
  fp_Hostname :: string
  fp_IP :: string
  fp_Port :: u32

definition FwmarkParams_String :: "FwmarkParams \<Rightarrow> string" where
  "FwmarkParams_String p = fp_Hostname p @ '':'' @ fp_IP p @ '':'' @ dec (unat (fp_Port p))"

text \<open>The hash function (package murmur3) is a parameter.\<close>

definition fwMarkSeed :: u32 where
  "fwMarkSeed = 18410482"

definition GetFwmark_hash :: "(string \<Rightarrow> u32 \<Rightarrow> u32) \<Rightarrow> FwmarkParams \<Rightarrow> u32" where
  "GetFwmark_hash Hash32 params = Hash32 (FwmarkParams_String params) fwMarkSeed"

subsection \<open>The pool\<close>

lemma poolLoop_nat:
  "unat hi = unat i + n \<Longrightarrow> poolLoop i hi = map (\<lambda>k. of_nat (unat i + k)) [0..<n]"
proof (induction n arbitrary: i)
  case 0
  then show ?case by (simp add: poolLoop.simps word_less_nat_alt)
next
  case (Suc n)
  have lt: "i < hi" using Suc.prems by (simp add: word_less_nat_alt)
  then have s: "unat (i + 1) = Suc (unat i)" by (rule word_succ_unat)
  have "poolLoop (i + 1) hi = map (\<lambda>k. of_nat (unat (i + 1) + k)) [0..<n]"
    using Suc.prems s by (intro Suc.IH) simp
  also have "\<dots> = map (\<lambda>k. of_nat (unat i + k)) (map Suc [0..<n])"
    by (simp add: s)
  finally show ?case
    using lt by (simp add: poolLoop.simps [of i] upt_conv_Cons map_Suc_upt del: upt_Suc)
qed

lemma poolLoop_empty: "hi \<le> i \<Longrightarrow> poolLoop i hi = []"
  by (simp add: poolLoop.simps not_less)

lemma poolLoop_distinct: "distinct (poolLoop i hi)"
proof (cases "unat i \<le> unat hi")
  case True
  then obtain n where n: "unat hi = unat i + n" using le_Suc_ex by blast
  have "unat i + n < 4294967296" using n u32_bound [of hi] by simp
  then have "inj_on (\<lambda>k. of_nat (unat i + k) :: u32) {0..<n}"
    by (auto intro!: inj_onI simp: of_nat_u32_inject simp del: of_nat_add)
  then show ?thesis by (simp add: poolLoop_nat [OF n] distinct_map)
qed (simp add: poolLoop_empty word_le_nat_alt)

subsection \<open>Invariant and references\<close>

definition marks :: "Manager \<Rightarrow> u32 list" where
  "marks m = map (\<lambda>e. md_fwmark (snd e)) (fm_allocated m)"

definition all_marks :: "Manager \<Rightarrow> u32 list" where
  "all_marks m = poolLoop (fm_base m) (fm_base m + fm_maxFwmark m)"

text \<open>No mark is lost or handed out twice: free and allocated marks together are the initial pool.\<close>

definition fm_inv :: "Manager \<Rightarrow> bool" where
  "fm_inv m \<longleftrightarrow> wf_map (fm_allocated m) \<and> mset (fm_pool m @ marks m) = mset (all_marks m)"

definition refs :: "Manager \<Rightarrow> string \<Rightarrow> nat" where
  "refs m a = (case map_of (fm_allocated m) a of None \<Rightarrow> 0 | Some v \<Rightarrow> unat (md_refcount v))"

text \<open>An entry that is allocated has a reference: it would be lost after \<open>2 ^ 32\<close> allocations of one address.\<close>

definition fm_live :: "Manager \<Rightarrow> bool" where
  "fm_live m \<longleftrightarrow> (\<forall>e\<in>set (fm_allocated m). md_refcount (snd e) \<noteq> 0)"

definition max_refs :: nat where
  "max_refs = 4294967295"

lemmas fm_ops = AllocateFwmark_def ReleaseFwmark_def GetAllocatedFwmark_def

lemma fm_inv_distinct: "fm_inv m \<Longrightarrow> distinct (fm_pool m @ marks m)"
  using poolLoop_distinct mset_eq_imp_distinct_iff unfolding fm_inv_def all_marks_def by blast

lemma NewManager_inv [simp]: "fm_inv (NewManager n b)" "fm_live (NewManager n b)" "refs (NewManager n b) a = 0"
  by (simp_all add: fm_inv_def fm_live_def refs_def NewManager_def marks_def all_marks_def)

lemma AllocateFwmark_inv: "fm_inv m \<Longrightarrow> fm_inv (snd (AllocateFwmark a m))"
proof (cases "map_of (fm_allocated m) a")
  case None
  assume inv: "fm_inv m"
  have "a \<notin> fst ` set (fm_allocated m)" using None by (simp add: map_of_eq_None_iff)
  with None inv show ?thesis
    by (cases "fm_pool m") (simp_all add: AllocateFwmark_def fm_inv_def marks_def all_marks_def update_fresh)
next
  case (Some v)
  assume "fm_inv m"
  with Some map_snd_update [where f = md_fwmark, OF Some, of "v\<lparr>md_refcount := md_refcount v + 1\<rparr>"] show ?thesis
    by (simp add: AllocateFwmark_def fm_inv_def marks_def all_marks_def)
qed

lemma ReleaseFwmark_inv: "fm_inv m \<Longrightarrow> fm_inv (snd (ReleaseFwmark a m))"
proof (cases "map_of (fm_allocated m) a")
  case None
  assume "fm_inv m"
  with None show ?thesis by (simp add: ReleaseFwmark_def)
next
  case (Some v)
  assume inv: "fm_inv m"
  then have wf: "wf_map (fm_allocated m)" by (simp add: fm_inv_def)
  have upd: "mset (map (\<lambda>e. md_fwmark (snd e)) (AList.update a (v\<lparr>md_refcount := md_refcount v - 1\<rparr>) (fm_allocated m)))
      = mset (map (\<lambda>e. md_fwmark (snd e)) (fm_allocated m))"
    by (subst map_snd_update [OF Some]) simp_all
  have del: "mset (map (\<lambda>e. md_fwmark (snd e)) (fm_allocated m)) =
      add_mset (md_fwmark v) (mset (map (\<lambda>e. md_fwmark (snd e)) (AList.delete a (fm_allocated m))))"
    by (simp add: mset_delete [OF wf Some])
  from inv Some show ?thesis
    by (simp add: ReleaseFwmark_def fm_inv_def marks_def all_marks_def upd del del: mset_map)
qed

lemma live_lookup: "fm_live m \<Longrightarrow> map_of (fm_allocated m) a = Some v \<Longrightarrow> md_refcount v \<noteq> 0"
  by (metis fm_live_def map_of_SomeD snd_conv)

lemma live_iff: "fm_inv m \<Longrightarrow> fm_live m \<longleftrightarrow> (\<forall>a v. map_of (fm_allocated m) a = Some v \<longrightarrow> md_refcount v \<noteq> 0)"
  by (metis fm_inv_def fm_live_def live_lookup prod.collapse wf_map_lookup)

lemma refs_0: "fm_live m \<Longrightarrow> refs m a = 0 \<longleftrightarrow> map_of (fm_allocated m) a = None"
  using live_lookup by (auto simp: refs_def unat_eq_0 split: option.splits)

lemma used_count: "fm_inv m \<Longrightarrow> fm_live m \<Longrightarrow> card {a. refs m a \<noteq> 0} = length (fm_allocated m)"
proof -
  assume inv: "fm_inv m" and live: "fm_live m"
  have "{a. refs m a \<noteq> 0} = set (map fst (fm_allocated m))"
    using refs_0 [OF live] by (auto simp: map_of_eq_None_iff)
  with inv show ?thesis by (metis distinct_card fm_inv_def length_map)
qed

lemma refcount_plus:
  assumes "unat r < max_refs" shows "unat (r + 1 :: u32) = Suc (unat r)"
proof -
  have "r < 4294967295" using assms by (simp add: word_less_nat_alt max_refs_def)
  then show ?thesis by (rule word_succ_unat)
qed

lemma refcount_minus: "(r :: u32) \<noteq> 0 \<Longrightarrow> unat (r - 1) = unat r - 1"
  by (metis unat_minus_one)

text \<open>The manager refines an allocator that counts references and has a capacity.\<close>

lemma AllocateFwmark_refines:
  assumes inv: "fm_inv m" and live: "fm_live m" and bound: "refs m a < max_refs"
  shows "is_ok (fst (AllocateFwmark a m)) \<longleftrightarrow> refs m a \<noteq> 0 \<or> card {x. refs m x \<noteq> 0} < length (all_marks m)"
    and "is_ok (fst (AllocateFwmark a m)) \<Longrightarrow> refs (snd (AllocateFwmark a m)) = (refs m)(a := Suc (refs m a))"
    and "\<not> is_ok (fst (AllocateFwmark a m)) \<Longrightarrow> snd (AllocateFwmark a m) = m"
proof -
  have "length (fm_pool m) + length (fm_allocated m) = length (all_marks m)"
    using inv unfolding fm_inv_def marks_def by (metis length_append length_map size_mset)
  then show "is_ok (fst (AllocateFwmark a m)) \<longleftrightarrow> refs m a \<noteq> 0 \<or> card {x. refs m x \<noteq> 0} < length (all_marks m)"
    unfolding used_count [OF inv live] using refs_0 [OF live, of a]
    by (auto simp: AllocateFwmark_def split: option.splits list.splits)
  show "is_ok (fst (AllocateFwmark a m)) \<Longrightarrow> refs (snd (AllocateFwmark a m)) = (refs m)(a := Suc (refs m a))"
    using bound refcount_plus
    by (auto simp: AllocateFwmark_def refs_def fun_eq_iff split: option.splits list.splits)
  show "\<not> is_ok (fst (AllocateFwmark a m)) \<Longrightarrow> snd (AllocateFwmark a m) = m"
    by (auto simp: AllocateFwmark_def split: option.splits list.splits)
qed

lemma ReleaseFwmark_refines:
  assumes live: "fm_live m"
  shows "is_ok (fst (ReleaseFwmark a m)) \<longleftrightarrow> refs m a \<noteq> 0"
    and "refs (snd (ReleaseFwmark a m)) = (refs m)(a := refs m a - 1)"
proof -
  show "is_ok (fst (ReleaseFwmark a m)) \<longleftrightarrow> refs m a \<noteq> 0"
    using refs_0 [OF live] by (auto simp: ReleaseFwmark_def split: option.splits)
  have "unat r - 1 = 0" if "r - 1 = 0" for r :: u32
    using that by (metis diff_self_eq_0 eq_iff_diff_eq_0 unat_1)
  then show "refs (snd (ReleaseFwmark a m)) = (refs m)(a := refs m a - 1)"
    using refcount_minus live_lookup [OF live]
    by (auto simp: ReleaseFwmark_def refs_def fun_eq_iff split: option.splits)
qed

lemma AllocateFwmark_live: "fm_inv m \<Longrightarrow> fm_live m \<Longrightarrow> refs m a < max_refs \<Longrightarrow> fm_live (snd (AllocateFwmark a m))"
  using refcount_plus [of "md_refcount (the (map_of (fm_allocated m) a))"] unfolding live_iff live_iff [OF AllocateFwmark_inv]
  by (auto simp: AllocateFwmark_def refs_def split: option.splits list.splits if_splits)

lemma ReleaseFwmark_live: "fm_inv m \<Longrightarrow> fm_live m \<Longrightarrow> fm_live (snd (ReleaseFwmark a m))"
  unfolding live_iff live_iff [OF ReleaseFwmark_inv]
  by (auto simp: ReleaseFwmark_def split: option.splits if_splits)

subsection \<open>The contract of the manager\<close>

text \<open>
  What the balancers rely on. \<open>refs\<close> counts the references of an address, at most \<open>bound\<close> of them;
  \<open>capacity\<close> is the number of addresses that can hold a mark at the same time.
\<close>

locale mark_allocator =
  fixes inv :: "'s \<Rightarrow> bool" and refs :: "'s \<Rightarrow> string \<Rightarrow> nat" and capacity :: "'s \<Rightarrow> nat" and bound :: nat
    and alloc :: "string \<Rightarrow> ('s, u32) act" and release :: "string \<Rightarrow> ('s, unit) act"
    and get :: "'s \<Rightarrow> string \<Rightarrow> u32 result"
  assumes alloc_ok: "inv s \<Longrightarrow> refs s a < bound \<Longrightarrow> refs s a \<noteq> 0 \<or> card {x. refs s x \<noteq> 0} < capacity s \<Longrightarrow>
      \<exists>w t. alloc a s = (Inr w, t) \<and> inv t \<and> refs t = (refs s)(a := Suc (refs s a)) \<and> get t a = Inr w \<and>
        capacity t = capacity s \<and> (\<forall>b. refs s b \<noteq> 0 \<longrightarrow> get t b = get s b)"
    and alloc_full: "inv s \<Longrightarrow> refs s a < bound \<Longrightarrow> refs s a = 0 \<Longrightarrow> card {x. refs s x \<noteq> 0} \<ge> capacity s \<Longrightarrow>
      \<exists>e. alloc a s = (Inl e, s)"
    and release_ok: "inv s \<Longrightarrow> refs s a \<noteq> 0 \<Longrightarrow>
      \<exists>t. release a s = (Inr (), t) \<and> inv t \<and> refs t = (refs s)(a := refs s a - 1) \<and>
        capacity t = capacity s \<and> (\<forall>b. refs t b \<noteq> 0 \<longrightarrow> get t b = get s b)"
    and release_unused: "inv s \<Longrightarrow> refs s a = 0 \<Longrightarrow> \<exists>e. release a s = (Inl e, s)"
    and get_ok: "inv s \<Longrightarrow> is_ok (get s a) \<longleftrightarrow> refs s a \<noteq> 0"
    and get_inj: "inv s \<Longrightarrow> get s a = Inr w \<Longrightarrow> get s b = Inr w \<Longrightarrow> a = b"
    and used_finite: "inv s \<Longrightarrow> finite {x. refs s x \<noteq> 0}"
begin

text \<open>Allocating and releasing an address leaves every other client's references alone.\<close>

lemma alloc_release:
  assumes "inv s" "refs s a < bound" "refs s a \<noteq> 0 \<or> card {x. refs s x \<noteq> 0} < capacity s"
  shows "\<exists>t. snd (release a (snd (alloc a s))) = t \<and> inv t \<and> refs t = refs s"
proof -
  from alloc_ok [OF assms] obtain w t where t: "alloc a s = (Inr w, t)" "inv t" "refs t = (refs s)(a := Suc (refs s a))"
    by blast
  then have "refs t a \<noteq> 0" by simp
  from release_ok [OF t(2) this] t show ?thesis by (auto simp: fun_eq_iff)
qed

lemma alloc_room:
  assumes "inv s" "a \<in> A" "finite A" "card ({x. refs s x \<noteq> 0} \<union> A) \<le> capacity s"
  shows "refs s a \<noteq> 0 \<or> card {x. refs s x \<noteq> 0} < capacity s"
proof (cases "refs s a = 0")
  case True
  then have "{x. refs s x \<noteq> 0} \<subset> {x. refs s x \<noteq> 0} \<union> A" using assms(2) by blast
  then have "card {x. refs s x \<noteq> 0} < card ({x. refs s x \<noteq> 0} \<union> A)"
    using assms(3) used_finite [OF assms(1)] by (intro psubset_card_mono) simp_all
  with assms(4) show ?thesis by linarith
qed simp

text \<open>Allocating a set of addresses with enough free marks: each gets exactly one more reference.\<close>

lemma alloc_all:
  assumes "inv s" "distinct as" "\<forall>a\<in>set as. refs s a < bound" "card ({x. refs s x \<noteq> 0} \<union> set as) \<le> capacity s"
  shows "let t = fold (\<lambda>a s. snd (alloc a s)) as s in
    inv t \<and> capacity t = capacity s \<and> refs t = (\<lambda>a. refs s a + (if a \<in> set as then 1 else 0)) \<and>
    (\<forall>b. refs s b \<noteq> 0 \<longrightarrow> get t b = get s b)"
  using assms
proof (induction as arbitrary: s)
  case Nil
  then show ?case by simp
next
  case (Cons a as)
  have "refs s a \<noteq> 0 \<or> card {x. refs s x \<noteq> 0} < capacity s"
    using Cons.prems by (intro alloc_room [of s a "set (a # as)"]) auto
  with alloc_ok [of s a] Cons.prems obtain w t where t: "alloc a s = (Inr w, t)" "inv t"
    "refs t = (refs s)(a := Suc (refs s a))" "capacity t = capacity s" "\<forall>b. refs s b \<noteq> 0 \<longrightarrow> get t b = get s b" by auto
  have used: "{x. refs t x \<noteq> 0} \<union> set as = {x. refs s x \<noteq> 0} \<union> set (a # as)"
    using t(3) by (auto split: if_splits)
  have "let u = fold (\<lambda>a s. snd (alloc a s)) as t in
      inv u \<and> capacity u = capacity t \<and> refs u = (\<lambda>a. refs t a + (if a \<in> set as then 1 else 0)) \<and>
      (\<forall>b. refs t b \<noteq> 0 \<longrightarrow> get u b = get t b)"
    using Cons.prems t used by (intro Cons.IH) auto
  with t Cons.prems(2) show ?case
    by (auto simp: Let_def fun_eq_iff)
qed

lemma release_all:
  assumes "inv s" "distinct as" "\<forall>a\<in>set as. refs s a \<noteq> 0"
  shows "let t = fold (\<lambda>a s. snd (release a s)) as s in
    inv t \<and> capacity t = capacity s \<and> refs t = (\<lambda>a. refs s a - (if a \<in> set as then 1 else 0)) \<and>
    (\<forall>b. refs t b \<noteq> 0 \<longrightarrow> get t b = get s b)"
  using assms
proof (induction as arbitrary: s)
  case Nil
  then show ?case by simp
next
  case (Cons a as)
  with release_ok [of s a] obtain t where t: "release a s = (Inr (), t)" "inv t"
    "refs t = (refs s)(a := refs s a - 1)" "capacity t = capacity s" "\<forall>b. refs t b \<noteq> 0 \<longrightarrow> get t b = get s b" by auto
  have "let u = fold (\<lambda>a s. snd (release a s)) as t in
      inv u \<and> capacity u = capacity t \<and> refs u = (\<lambda>a. refs t a - (if a \<in> set as then 1 else 0)) \<and>
      (\<forall>b. refs u b \<noteq> 0 \<longrightarrow> get u b = get t b)"
    using Cons.prems t by (intro Cons.IH) auto
  with t Cons.prems(2) show ?case
    by (auto simp: Let_def fun_eq_iff split: if_splits)
qed

end

lemma GetAllocatedFwmark_ok: "GetAllocatedFwmark m a = Inr w \<longleftrightarrow> (\<exists>v. map_of (fm_allocated m) a = Some v \<and> md_fwmark v = w)"
  by (auto simp: GetAllocatedFwmark_def split: option.splits)

lemma GetAllocatedFwmark_inj:
  assumes "fm_inv m" and "GetAllocatedFwmark m a = Inr w" and "GetAllocatedFwmark m b = Inr w"
  shows "a = b"
proof -
  from assms(2,3) obtain v v' where v: "(a, v) \<in> set (fm_allocated m)" "(b, v') \<in> set (fm_allocated m)"
    "md_fwmark v = md_fwmark v'"
    unfolding GetAllocatedFwmark_ok by (metis map_of_SomeD)
  have "distinct (marks m)" using fm_inv_distinct [OF assms(1)] by simp
  then have "inj_on (\<lambda>e. md_fwmark (snd e)) (set (fm_allocated m))" by (simp add: marks_def distinct_map)
  from inj_onD [OF this _ v(1,2)] v(3) show ?thesis by simp
qed

lemma all_marks_alloc [simp]: "all_marks (snd (AllocateFwmark a m)) = all_marks m"
  by (auto simp: AllocateFwmark_def all_marks_def split: option.splits list.splits)

lemma all_marks_release [simp]: "all_marks (snd (ReleaseFwmark a m)) = all_marks m"
  by (auto simp: ReleaseFwmark_def all_marks_def split: option.splits)

lemma AllocateFwmark_get:
  "AllocateFwmark a m = (Inr w, t) \<Longrightarrow> GetAllocatedFwmark t a = Inr w \<and>
     (\<forall>b. map_of (fm_allocated m) b \<noteq> None \<longrightarrow> GetAllocatedFwmark t b = GetAllocatedFwmark m b)"
  by (auto simp: AllocateFwmark_def GetAllocatedFwmark_def split: option.splits list.splits if_splits)

lemma ReleaseFwmark_get:
  "map_of (fm_allocated (snd (ReleaseFwmark a m))) b \<noteq> None \<Longrightarrow>
     GetAllocatedFwmark (snd (ReleaseFwmark a m)) b = GetAllocatedFwmark m b"
  by (auto simp: ReleaseFwmark_def GetAllocatedFwmark_def split: option.splits)

definition fm_ok :: "Manager \<Rightarrow> bool" where
  "fm_ok m \<longleftrightarrow> fm_inv m \<and> fm_live m"

interpretation fwm: mark_allocator fm_ok refs "\<lambda>m. length (all_marks m)" max_refs
  AllocateFwmark ReleaseFwmark GetAllocatedFwmark
proof
  fix m :: Manager and a b w
  assume ok: "fm_ok m"
  then have inv: "fm_inv m" and live: "fm_live m" by (simp_all add: fm_ok_def)
  show "is_ok (GetAllocatedFwmark m a) = (refs m a \<noteq> 0)"
    using refs_0 [OF live, of a] by (auto simp: GetAllocatedFwmark_def split: option.splits)
  show "finite {x. refs m x \<noteq> 0}"
    using refs_0 [OF live] by (simp add: map_of_eq_None_iff)
  show "GetAllocatedFwmark m a = Inr w \<Longrightarrow> GetAllocatedFwmark m b = Inr w \<Longrightarrow> a = b"
    by (rule GetAllocatedFwmark_inj [OF inv])
  show "refs m a = 0 \<Longrightarrow> \<exists>e. ReleaseFwmark a m = (Inl e, m)"
    using refs_0 [OF live, of a] by (simp add: ReleaseFwmark_def fail_def)
  obtain r t where rel: "ReleaseFwmark a m = (r, t)" by fastforce
  have "\<forall>b. refs t b \<noteq> 0 \<longrightarrow> GetAllocatedFwmark t b = GetAllocatedFwmark m b"
    using ReleaseFwmark_get [of a m] refs_0 [OF ReleaseFwmark_live [OF inv live, of a]] unfolding rel snd_conv by metis
  then show "refs m a \<noteq> 0 \<Longrightarrow> \<exists>t. ReleaseFwmark a m = (Inr (), t) \<and> fm_ok t \<and> refs t = (refs m)(a := refs m a - 1) \<and>
      length (all_marks t) = length (all_marks m) \<and> (\<forall>b. refs t b \<noteq> 0 \<longrightarrow> GetAllocatedFwmark t b = GetAllocatedFwmark m b)"
    using ReleaseFwmark_refines [OF live, of a] ReleaseFwmark_inv [OF inv, of a] ReleaseFwmark_live [OF inv live, of a]
      all_marks_release [of a m]
    unfolding rel by (simp add: fm_ok_def is_ok_unit)
  obtain r' t' where alc: "AllocateFwmark a m = (r', t')" by fastforce
  assume bound: "refs m a < max_refs"
  note facts = AllocateFwmark_refines [OF inv live bound] AllocateFwmark_inv [OF inv, of a]
    AllocateFwmark_live [OF inv live bound] all_marks_alloc [of a m]
  show "refs m a \<noteq> 0 \<or> card {x. refs m x \<noteq> 0} < length (all_marks m) \<Longrightarrow>
      \<exists>w t. AllocateFwmark a m = (Inr w, t) \<and> fm_ok t \<and> refs t = (refs m)(a := Suc (refs m a)) \<and>
        GetAllocatedFwmark t a = Inr w \<and> length (all_marks t) = length (all_marks m) \<and>
        (\<forall>b. refs m b \<noteq> 0 \<longrightarrow> GetAllocatedFwmark t b = GetAllocatedFwmark m b)"
    using facts AllocateFwmark_get [of a m] refs_0 [OF live] unfolding alc by (auto simp: fm_ok_def is_ok_iff)
  show "refs m a = 0 \<Longrightarrow> length (all_marks m) \<le> card {x. refs m x \<noteq> 0} \<Longrightarrow> \<exists>e. AllocateFwmark a m = (Inl e, m)"
    using facts(1,3) unfolding alc by (cases r') auto
qed

subsection \<open>Properties\<close>

text \<open>Any history of calls, in any order the clients' goroutines make them.\<close>

datatype fm_call = CallAllocate string | CallRelease string

fun fm_exec :: "fm_call \<Rightarrow> Manager \<Rightarrow> Manager" where
  "fm_exec (CallAllocate a) m = snd (AllocateFwmark a m)"
| "fm_exec (CallRelease a) m = snd (ReleaseFwmark a m)"

lemma fm_exec_inv: "fm_inv m \<Longrightarrow> fm_inv (fm_exec c m) \<and> all_marks (fm_exec c m) = all_marks m"
  by (cases c) (simp_all add: AllocateFwmark_inv ReleaseFwmark_inv)

lemma fm_history_inv: "fm_inv m \<Longrightarrow> fm_inv (fold fm_exec calls m) \<and> all_marks (fold fm_exec calls m) = all_marks m"
  by (induction calls arbitrary: m) (simp_all add: fm_exec_inv)

text \<open>
  C16: Whatever calls are made on a new manager, in whatever order, the marks in the pool and the
  marks of the allocated addresses together are exactly the marks it started with, each once, and
  two addresses never hold the same mark.
\<close>

theorem fwmarks_conserved:
  assumes "m = fold fm_exec calls (NewManager maxFwmark base)"
  shows "mset (fm_pool m) + mset (marks m) = mset (fm_pool (NewManager maxFwmark base)) \<and>
    distinct (fm_pool m @ marks m) \<and>
    (GetAllocatedFwmark m a = Inr w \<longrightarrow> GetAllocatedFwmark m b = Inr w \<longrightarrow> a = b)"
proof -
  have "all_marks (NewManager maxFwmark base) = fm_pool (NewManager maxFwmark base)"
    by (simp add: NewManager_def all_marks_def)
  then have hist: "fm_inv m" "all_marks m = fm_pool (NewManager maxFwmark base)"
    using fm_history_inv [of "NewManager maxFwmark base" calls] by (simp_all add: assms)
  moreover have "mset (fm_pool m) + mset (marks m) = mset (all_marks m)" using hist(1) by (simp add: fm_inv_def)
  ultimately show ?thesis using fm_inv_distinct GetAllocatedFwmark_inj by metis
qed

theorem fwmarks_conserved_witness:
  "let m = fold fm_exec [CallAllocate ''a'', CallAllocate ''b'', CallRelease ''a''] (NewManager 3 100)
   in mset (fm_pool m) + mset (marks m) = mset (fm_pool (NewManager 3 100)) \<and> fm_pool m = [102, 100] \<and> marks m = [101]"
proof -
  have "mset (fm_pool m) + mset (marks m) = mset (fm_pool (NewManager 3 100))"
    if "m = fold fm_exec [CallAllocate ''a'', CallAllocate ''b'', CallRelease ''a''] (NewManager 3 100)" for m
    using fwmarks_conserved [OF that] by blast
  then show ?thesis
    by (simp add: Let_def NewManager_def poolLoop.simps fm_ops marks_def)
qed

text \<open>
  C17: The manager implements a counting allocator: an allocation succeeds exactly when the address
  already holds a mark or a mark is free, and then adds one reference; a failed one changes nothing;
  a release succeeds exactly when the address holds a reference, and takes one away.
\<close>

theorem fwmark_refcounts:
  assumes "fm_ok m" and "refs m a < max_refs"
  shows "(is_ok (fst (AllocateFwmark a m)) \<longleftrightarrow> refs m a \<noteq> 0 \<or> card {x. refs m x \<noteq> 0} < length (all_marks m)) \<and>
    (if is_ok (fst (AllocateFwmark a m))
     then refs (snd (AllocateFwmark a m)) = (refs m)(a := refs m a + 1)
     else snd (AllocateFwmark a m) = m) \<and>
    (is_ok (fst (ReleaseFwmark a m)) \<longleftrightarrow> refs m a \<noteq> 0) \<and>
    refs (snd (ReleaseFwmark a m)) = (refs m)(a := refs m a - 1)"
  using assms AllocateFwmark_refines ReleaseFwmark_refines by (simp add: fm_ok_def)

theorem fwmark_refcounts_witness:
  "is_ok (fst (AllocateFwmark ''a'' (NewManager 1 7))) \<and>
   refs (snd (AllocateFwmark ''a'' (NewManager 1 7))) ''a'' = 1"
proof -
  have "fm_ok (NewManager 1 7)" "refs (NewManager 1 7) ''a'' < max_refs" "length (all_marks (NewManager 1 7)) = 1"
    by (simp_all add: fm_ok_def max_refs_def) (simp add: NewManager_def all_marks_def poolLoop.simps)
  with fwmark_refcounts [OF this(1,2)] show ?thesis by (simp split: if_splits)
qed

text \<open>
  \<open>NewManager\<close> fills the pool with the \<open>maxFwmark\<close> consecutive marks from \<open>base\<close> on, as long
  as they stay below \<open>2 ^ 32\<close>; otherwise the loop's limit wraps around and the pool stays empty, so
  that no mark can ever be allocated.
\<close>

theorem new_manager_pool:
  "fm_pool (NewManager maxFwmark base) =
     (if unat base + unat maxFwmark < 2 ^ 32
      then map (\<lambda>k. of_nat (unat base + k)) [0..<unat maxFwmark]
      else [])"
proof (cases "unat base + unat maxFwmark < 2 ^ 32")
  case True
  then have "unat (base + maxFwmark) = unat base + unat maxFwmark"
    by (simp add: unat_word_ariths)
  with True show ?thesis by (simp add: NewManager_def poolLoop_nat)
next
  case False
  have "unat (base + maxFwmark) = unat base + unat maxFwmark - 2 ^ 32"
    using False u32_bound [of base] u32_bound [of maxFwmark]
    by (simp add: unat_word_ariths mod_if [of "unat base + unat maxFwmark"])
  also have "\<dots> \<le> unat base" using u32_bound [of maxFwmark] by simp
  finally show ?thesis using False by (simp add: NewManager_def poolLoop_empty word_le_nat_alt)
qed

end
