(* ===== verification/Checker_Factory.thy ===== *)
theory Checker_Factory
  imports Data_Types
begin

section \<open>Construction of health checkers\<close>

text \<open>
  \<open>NewHealthChecker\<close> of kglb/utils/health\_checker with the constructors it calls, and
  \<open>control_plane/health_checker_factory.go\<close> up to the connections themselves. A checker is
  represented by what \<open>GetConfiguration\<close> returns; the network traffic of \<open>Check\<close> is an input of the
  health manager. Whether a custom dial function is given is all the constructors look at.
  \<open>os.Hostname\<close> is the parameter \<open>Hostname\<close>.
\<close>

definition NewDummyChecker :: "unit option \<Rightarrow> HealthCheckerAttributes result" where
  "NewDummyChecker params = Inr \<lparr>hc_Attributes = Some (HcDummy params)\<rparr>"

definition NewTcpChecker :: "u32 option \<Rightarrow> bool \<Rightarrow> HealthCheckerAttributes result" where
  "NewTcpChecker params dialContext = Inr \<lparr>hc_Attributes = Some (HcTcp params)\<rparr>"

definition NewHttpChecker :: "HttpCheckerAttributes option \<Rightarrow> bool \<Rightarrow> HealthCheckerAttributes result" where
  "NewHttpChecker params dialContext = Inr \<lparr>hc_Attributes = Some (HcHttp params)\<rparr>"

definition NewSyslogChecker ::
  "string result \<Rightarrow> SyslogCheckerAttributes option \<Rightarrow> bool \<Rightarrow> HealthCheckerAttributes result" where
  "NewSyslogChecker Hostname params dialContext =
     (if dialContext then fail ''custom dial context is not supported in SyslogChecker''
      else bind_r Hostname (\<lambda>_. Inr \<lparr>hc_Attributes = Some (HcSyslog params)\<rparr>))"

definition queryTypes :: "DNSQueryType set" where
  "queryTypes = {Q_A, Q_AAAA, Q_NS, Q_MX}"

definition NewDnsChecker :: "DnsCheckerAttributes option \<Rightarrow> bool \<Rightarrow> HealthCheckerAttributes result" where
  "NewDnsChecker params dialContext =
     (if (case params of None \<Rightarrow> [] | Some d \<Rightarrow> dns_QueryString d) = [] then fail ''QueryString is required''
      else if (case params of None \<Rightarrow> Q_A | Some d \<Rightarrow> dns_QueryType d) \<notin> queryTypes then fail ''Unknown QueryType''
      else Inr \<lparr>hc_Attributes = Some (HcDns params)\<rparr>)"

definition NewHealthChecker :: "string result \<Rightarrow> UpstreamChecker option \<Rightarrow> bool \<Rightarrow> HealthCheckerAttributes result" where
  "NewHealthChecker Hostname checker dialContext =
     (case Option.bind (Option.bind checker uc_Checker) hc_Attributes of
        Some (HcDummy d) \<Rightarrow> NewDummyChecker d
      | Some (HcHttp h) \<Rightarrow> NewHttpChecker h dialContext
      | Some (HcSyslog s) \<Rightarrow> NewSyslogChecker Hostname s dialContext
      | Some (HcDns d) \<Rightarrow> NewDnsChecker d dialContext
      | Some (HcTcp t) \<Rightarrow> NewTcpChecker t dialContext
      | None \<Rightarrow> fail ''Unknown Health Checker type'')"

definition timeoutMsToDuration :: "u32 \<Rightarrow> nat" where
  "timeoutMsToDuration timeoutMs = (if timeoutMs = 0 then 5000 else unat timeoutMs)"

text \<open>The dial function of a fwmark balancer: the source address it binds and the VIP it connects to.\<close>

record FwmarkDial =
  fd_vip :: string
  fd_vport :: nat
  fd_localIp :: net_ip

definition fwMarkDialContext :: "net_ip \<Rightarrow> net_ip \<Rightarrow> LoadBalancerService option \<Rightarrow> FwmarkDial result" where
  "fwMarkDialContext SourceIPv4 SourceIPv6 lb =
     bind_r (wrap_r ''fails to extract vip from lb_service'' (GetVipFromLbService lb)) (\<lambda>(vip, vport).
       let localIp = (if To4 (ParseIP vip) = None then SourceIPv6 else SourceIPv4)
       in if localIp = [] then fail ''Cannot determine local ip for healthcheck''
          else Inr \<lparr>fd_vip = vip, fd_vport = vport, fd_localIp = localIp\<rparr>)"

definition Checker ::
  "string result \<Rightarrow> net_ip \<Rightarrow> net_ip \<Rightarrow> BalancerConfig \<Rightarrow> HealthCheckerAttributes result" where
  "Checker Hostname SourceIPv4 SourceIPv6 conf =
     (if bc_EnableFwmarks conf then
        bind_r (wrap_r ''failed to create fwMarkDialContext'' (fwMarkDialContext SourceIPv4 SourceIPv6 (bc_LbService conf)))
          (\<lambda>_. NewHealthChecker Hostname (bc_UpstreamChecker conf) True)
      else NewHealthChecker Hostname (bc_UpstreamChecker conf) False)"

text \<open>\<open>tlsSessionCache\<close>: the counter that forces a full handshake; the cache itself is crypto/tls.\<close>

definition maxReuseCounter :: nat where
  "maxReuseCounter = 10"

definition tlsSessionCache_Get :: "(string \<Rightarrow> 'session option) \<Rightarrow> string \<Rightarrow> nat \<Rightarrow> 'session option \<times> nat" where
  "tlsSessionCache_Get cache sessionKey counter =
     (let counter = counter + 1 in
      if counter \<le> maxReuseCounter then (cache sessionKey, counter) else (None, 0))"

subsection \<open>Lemmas\<close>

lemma NewHealthChecker_config:
  "NewHealthChecker Hostname checker dial = Inr c \<Longrightarrow> Option.bind checker uc_Checker = Some c"
  by (auto simp: NewHealthChecker_def NewDummyChecker_def NewHttpChecker_def NewSyslogChecker_def NewDnsChecker_def
      NewTcpChecker_def bind_eq_Some_conv split: option.splits HealthCheckerAttributes_Attributes.splits if_splits)

lemma Checker_config:
  "Checker Hostname v4 v6 conf = Inr c \<Longrightarrow> Option.bind (bc_UpstreamChecker conf) uc_Checker = Some c"
  by (auto simp: Checker_def split: if_splits dest: NewHealthChecker_config)

lemma tls_counter_bound: "counter \<le> maxReuseCounter \<Longrightarrow> snd (tlsSessionCache_Get cache k counter) \<le> maxReuseCounter"
  by (simp add: tlsSessionCache_Get_def Let_def)

text \<open>Of every eleven lookups in a row, the last one forces a full handshake.\<close>

lemma tls_eleventh:
  "fst (tlsSessionCache_Get cache k (((\<lambda>c. snd (tlsSessionCache_Get cache k c)) ^^ 10) 0)) = None"
proof -
  have "((\<lambda>c. snd (tlsSessionCache_Get cache k c)) ^^ n) 0 = n" if "n \<le> 10" for n
    using that by (induction n) (simp_all add: tlsSessionCache_Get_def Let_def maxReuseCounter_def)
  then show ?thesis by (simp add: tlsSessionCache_Get_def maxReuseCounter_def)
qed

end
