(* ===== verification/Validate.thy ===== *)
theory Validate
  imports Data_Types
begin

section \<open>kglb/common: validate.go\<close>

text \<open>
  The checks every configuration and every generated state pass before they are used, in the order
  of the code, with the panics of the dereferences the code does not guard. The text of an address
  (\<open>String()\<close> of the generated message), which \<open>ValidateLinkAddresses\<close> uses as a map key, is the
  parameter \<open>ip_text\<close>. The lemmas characterise what an accepted configuration satisfies.
\<close>

subsection \<open>States\<close>

definition ValidateIP :: "IP option \<Rightarrow> unit result" where
  "ValidateIP m =
     (case m of
        None \<Rightarrow> fail ''Message is empty''
      | Some ip \<Rightarrow>
          (case IP_address ip of
             None \<Rightarrow> fail ''IP.Address cannot be empty''
           | Some (IP_Ipv4 a) \<Rightarrow>
               (if To4 (ParseIP a) = None then fail ''IP.Address.Ipv4 is not a valid ipv4 address'' else Inr ())
           | Some (IP_Ipv6 a) \<Rightarrow>
               (if To16 (ParseIP a) = None then fail ''IP.Address.Ipv6 is not a valid ipv6 address'' else Inr ())))"

definition ValidateUpstreamState :: "UpstreamState \<Rightarrow> unit result" where
  "ValidateUpstreamState s =
     (if length (us_Hostname s) = 0 then fail ''UpstreamState.Hostname cannot be empty''
      else if us_Port s = 0 \<and> us_ForwardMethod s \<noteq> TUNNEL then fail ''UpstreamState.Port cannot be equal 0''
      else wrap_r ''Invalid UpstreamState.Address'' (ValidateIP (us_Address s)))"

definition ValidateBalancerState :: "BalancerState \<Rightarrow> unit result" where
  "ValidateBalancerState s =
     (if length (bs_Name s) = 0 then fail ''BalancerState.Name cannot be empty''
      else each_r (\<lambda>u. wrap_r ''Invalid UpstreamState'' (ValidateUpstreamState u)) (bs_Upstreams s))"

text \<open>
  \<open>strings.TrimSpace(s) == ""\<close>: every rune of the UTF-8 string is white space (the ASCII ones,
  U+0085, U+00A0, U+1680, U+2000 to U+200A, U+2028, U+2029, U+202F, U+205F, U+3000).
\<close>

fun all_space :: "nat list \<Rightarrow> bool" where
  "all_space [] = True"
| "all_space (b # bs) =
     (if b \<in> {9, 10, 11, 12, 13, 32} then all_space bs
      else case bs of
        [] \<Rightarrow> False
      | c # cs \<Rightarrow>
          if b = 194 \<and> (c = 133 \<or> c = 160) then all_space cs
          else case cs of
            [] \<Rightarrow> False
          | d # ds \<Rightarrow>
              if (b = 225 \<and> c = 154 \<and> d = 128)
                \<or> (b = 226 \<and> c = 128 \<and> (128 \<le> d \<and> d \<le> 138 \<or> d = 168 \<or> d = 169 \<or> d = 175))
                \<or> (b = 226 \<and> c = 129 \<and> d = 159) \<or> (b = 227 \<and> c = 128 \<and> d = 128)
              then all_space ds else False)"

definition blank :: "string \<Rightarrow> bool" where
  "blank s = all_space (map of_char s)"

fun linkAddressLoop ::
  "(IP option \<Rightarrow> string) \<Rightarrow> LinkAddress list \<Rightarrow> (string, IP option) gomap \<Rightarrow> (string, IP option) gomap result" where
  "linkAddressLoop ip_text [] addrMap = Inr addrMap"
| "linkAddressLoop ip_text (addr # addrs) addrMap =
     (if blank (la_LinkName addr) then fail ''missed link_name''
      else if \<not> is_ok (ValidateIP (la_Address addr)) then fail ''incorrect ip address''
      else if map_of addrMap (ip_text (la_Address addr)) \<noteq> None then fail ''duplicate link address''
      else linkAddressLoop ip_text addrs (AList.update (ip_text (la_Address addr)) (la_Address addr) addrMap))"

definition ValidateLinkAddresses ::
  "(IP option \<Rightarrow> string) \<Rightarrow> LinkAddress list \<Rightarrow> (string, IP option) gomap result" where
  "ValidateLinkAddresses ip_text addrs = linkAddressLoop ip_text addrs []"

definition ValidateDataPlaneState :: "(IP option \<Rightarrow> string) \<Rightarrow> DataPlaneState \<Rightarrow> unit result" where
  "ValidateDataPlaneState ip_text s =
     bind_r (each_r (\<lambda>b. wrap_r ''Invalid BalancerState'' (ValidateBalancerState b)) (dp_Balancers s)) (\<lambda>_.
     bind_r (wrap_r ''Invalid LinkAddresses in BalancerState'' (ValidateLinkAddresses ip_text (dp_LinkAddresses s)))
       (\<lambda>_. Inr ()))"

subsection \<open>Configurations\<close>

definition ValidateIpvsService :: "IpvsService option \<Rightarrow> unit result" where
  "ValidateIpvsService m =
     (case m of
        None \<Rightarrow> fail ''Message is empty''
      | Some s \<Rightarrow>
          (case ipvs_Attributes s of
             None \<Rightarrow> fail ''Attributes cannot be empty''
           | Some (TcpAttributes attr) \<Rightarrow>
               (case attr of
                  None \<Rightarrow> fail ''TcpAttributes cannot be empty''
                | Some a \<Rightarrow>
                    if tcp_Port a = 0 then fail ''TcpAttributes.Port cannot be 0''
                    else if tcp_Address a = None then fail ''IpvsTcp.Address cannot be empty''
                    else Inr ())
           | Some (UdpAttributes attr) \<Rightarrow>
               (case attr of
                  None \<Rightarrow> fail ''UdpAttributes cannot be empty''
                | Some a \<Rightarrow>
                    if udp_Port a = 0 then fail ''UdpAttributes.Port cannot be 0''
                    else if udp_Address a = None then fail ''UdpAttributes.Address cannot be empty''
                    else Inr ())
           | Some (FwmarkAttributes attr) \<Rightarrow>
               (case attr of
                  None \<Rightarrow> fail ''IpvsFwmark cannot be empty''
                | Some a \<Rightarrow> if fw_Fwmark a = 0 then fail ''IpvsFwmark.Fwmark cannot be 0'' else Inr ())))"

definition ValidateLbService :: "LoadBalancerService option \<Rightarrow> unit result" where
  "ValidateLbService m =
     (case m of
        None \<Rightarrow> fail ''Message is empty''
      | Some lb \<Rightarrow>
          (case lb_Service lb of
             None \<Rightarrow> fail ''LbService.Service cannot be empty''
           | Some (LbIpvsService s) \<Rightarrow> wrap_r ''Invalid LbService.Service.IpvsService'' (ValidateIpvsService s)))"

definition ValidateUpstreamChecker :: "BalancerConfig \<Rightarrow> unit result" where
  "ValidateUpstreamChecker c =
     (case bc_UpstreamChecker c of
        None \<Rightarrow> fail ''Message is empty''
      | Some m \<Rightarrow>
          (case uc_Checker m of
             None \<Rightarrow> nilDeref
           | Some checker \<Rightarrow>
               (case hc_Attributes checker of
                  None \<Rightarrow> fail ''UpstreamChecker.Attributes cannot be empty''
                | Some (HcDummy dummy) \<Rightarrow> if dummy = None then fail ''Dummy cannot be empty'' else Inr ()
                | Some (HcDns dns) \<Rightarrow>
                    if bc_EnableFwmarks c \<and> (case dns of None \<Rightarrow> HC_TCP | Some d \<Rightarrow> dns_Protocol d) = HC_UDP
                    then fail ''udp dns checker does not support fwmarks.''
                    else if (case dns of None \<Rightarrow> [] | Some d \<Rightarrow> dns_QueryString d) = []
                    then fail ''QueryString cannot be empty''
                    else bind_r (GetIpvsServiceFromLbService (bc_LbService c)) (\<lambda>ipvsService.
                      if ipvs_Attributes ipvsService = None then fail ''Unknown ipvs service type'' else Inr ())
                | Some (HcHttp http) \<Rightarrow> Inr ()
                | Some (HcSyslog syslog) \<Rightarrow>
                    if 65535 < unat (case syslog of None \<Rightarrow> 0 | Some s \<Rightarrow> syslog_Port s)
                    then fail ''syslog port value is out of bound'' else Inr ()
                | Some (HcTcp tcp) \<Rightarrow> Inr ())))"

definition ValidateUpstreamRouting :: "UpstreamRouting option \<Rightarrow> unit result" where
  "ValidateUpstreamRouting m = (if m = None then fail ''UpstreamRouting is required'' else Inr ())"

definition ValidateUpstreamDiscovery :: "UpstreamDiscovery option \<Rightarrow> unit result" where
  "ValidateUpstreamDiscovery m =
     (case m of
        None \<Rightarrow> nilDeref
      | Some d \<Rightarrow>
          (case ud_Attributes d of
             None \<Rightarrow> fail ''Attributes cannot be empty''
           | Some (StaticAttributes attr) \<Rightarrow>
               (case attr of
                  None \<Rightarrow> nilDeref
                | Some hosts \<Rightarrow>
                    if length hosts = 0 then fail ''UpstreamDiscovery.StaticAttributes.Hosts cannot be empty'' else Inr ())
           | Some (MdbAttributes attr) \<Rightarrow>
               (case attr of
                  None \<Rightarrow> nilDeref
                | Some query \<Rightarrow>
                    if length query = 0 then fail ''UpstreamDiscovery.MdbAttributes.Query cannot be empty'' else Inr ())))"

definition ValidateBgpRouteAttributes :: "BgpRouteAttributes option \<Rightarrow> unit result" where
  "ValidateBgpRouteAttributes m =
     (case m of
        None \<Rightarrow> fail ''Message is empty''
      | Some a \<Rightarrow>
          if bgp_LocalAsn a = 0 then fail ''BgpRoutingAttributes.LocalAsn cannot be 0''
          else if bgp_PeerAsn a = 0 then fail ''BgpRoutingAttributes.PeerAsn cannot be 0''
          else if length (bgp_Community a) = 0 then fail ''BgpRoutingAttributes.Community cannot be empty''
          else bind_r (wrap_r ''Invalid BgpRoutingAttributes.Prefix'' (ValidateIP (bgp_Prefix a))) (\<lambda>_.
            if bgp_Prefixlen a = 0 then fail ''BgpRoutingAttributes.Prefixlen cannot be 0'' else Inr ()))"

definition ValidateDynamicRouting :: "DynamicRouting option \<Rightarrow> unit result" where
  "ValidateDynamicRouting m =
     (case m of
        None \<Rightarrow> fail ''Message is empty''
      | Some d \<Rightarrow>
          if f32_less (F32 1) (drt_AnnounceLimitRatio d)
          then fail ''DynamicRouting.AnnounceLimitRatio cannot be gt 1.0''
          else (case drt_Attributes d of
              None \<Rightarrow> Inr ()
            | Some (DynamicRouting_Bgp b) \<Rightarrow>
                wrap_r ''Invalid DynamicRouting.BgpAttributes'' (ValidateBgpRouteAttributes b)))"

definition ValidateBalancer :: "BalancerConfig \<Rightarrow> unit result" where
  "ValidateBalancer c =
     (if length (bc_Name c) = 0 then fail ''Name cannot be empty''
      else if length (bc_SetupName c) = 0 then fail ''SetupName cannot be empty''
      else
        bind_r (wrap_r ''Invalid BalancerConfig.LbService'' (ValidateLbService (bc_LbService c))) (\<lambda>_.
        bind_r (wrap_r ''Invalid BalancerConfig.UpstreamChecker'' (ValidateUpstreamChecker c)) (\<lambda>_.
        bind_r (wrap_r ''Invalid BalancerConfig.UpstreamRouting'' (ValidateUpstreamRouting (bc_UpstreamRouting c))) (\<lambda>_.
        bind_r (wrap_r ''Invalid BalancerConfig.UpstreamDiscovery''
                 (ValidateUpstreamDiscovery (bc_UpstreamDiscovery c))) (\<lambda>_.
        wrap_r ''Invalid BalancerConfig.DynamicRouting'' (ValidateDynamicRouting (bc_DynamicRouting c)))))))"

text \<open>
  The loop of \<open>ValidateControlPlaneConfig\<close> carries the map of vips and the set of keys seen. In the
  branch for inconsistent \<open>enable_fwmarks\<close> the code wraps a nil error; the result is an error
  without a cause.
\<close>

fun controlPlaneLoop :: "BalancerConfig list \<Rightarrow> (string \<rightharpoonup> bool) \<Rightarrow> string set \<Rightarrow> unit result" where
  "controlPlaneLoop [] fwmarkPerVipMap names = Inr ()"
| "controlPlaneLoop (b # bs) fwmarkPerVipMap names =
     bind_r (wrap_r ''Invalid BalancerConfig'' (ValidateBalancer b)) (\<lambda>_.
     bind_r (wrap_r ''fails to extract vip:vport from balancer'' (GetKeyFromLbService (bc_LbService b))) (\<lambda>key.
     if key \<in> names then fail ''duplicate lb_service''
     else
       bind_r (wrap_r ''fails to extract vip from balancer'' (GetVipFromLbService (bc_LbService b))) (\<lambda>(vip, _).
       case fwmarkPerVipMap vip of
         Some val \<Rightarrow>
           if bc_EnableFwmarks b \<noteq> val then fail ''inconsistent value of enable_fwmarks''
           else controlPlaneLoop bs fwmarkPerVipMap (insert key names)
       | None \<Rightarrow> controlPlaneLoop bs (fwmarkPerVipMap(vip \<mapsto> bc_EnableFwmarks b)) (insert key names))))"

definition ValidateControlPlaneConfig :: "ControlPlaneConfig \<Rightarrow> unit result" where
  "ValidateControlPlaneConfig c = controlPlaneLoop (cp_Balancers c) Map.empty {}"

subsection \<open>What the checks accept\<close>

lemma ValidateIP_ok:
  "ValidateIP m = Inr () \<longleftrightarrow>
     (\<exists>a. m = Some (IP (Some (IP_Ipv4 a))) \<and> To4 (ParseIP a) \<noteq> None) \<or>
     (\<exists>a. m = Some (IP (Some (IP_Ipv6 a))) \<and> To16 (ParseIP a) \<noteq> None)"
  by (cases m rule: option.exhaust; cases "the m")
     (auto simp: ValidateIP_def split: option.splits IP_Address.splits)

lemma ValidateIP_address: "ValidateIP m = Inr () \<Longrightarrow> KglbAddrToNetIp m \<noteq> []"
  by (auto simp: ValidateIP_ok KglbAddrToNetIp_def To16_def)

lemma ValidateIP_not_panic [simp]: "\<not> is_panic (ValidateIP m)"
  by (auto simp: ValidateIP_def split: option.splits IP_Address.splits)

lemma ValidateUpstreamState_ok:
  "ValidateUpstreamState s = Inr () \<longleftrightarrow>
     us_Hostname s \<noteq> [] \<and> (us_Port s = 0 \<longrightarrow> us_ForwardMethod s = TUNNEL) \<and> ValidateIP (us_Address s) = Inr ()"
  by (auto simp: ValidateUpstreamState_def)

lemma ValidateBalancerState_ok:
  "ValidateBalancerState s = Inr () \<longleftrightarrow>
     bs_Name s \<noteq> [] \<and> (\<forall>u\<in>set (bs_Upstreams s). ValidateUpstreamState u = Inr ())"
  by (auto simp: ValidateBalancerState_def)

lemma ValidateIP_is_ok: "is_ok (ValidateIP m) \<longleftrightarrow> ValidateIP m = Inr ()"
  by (rule is_ok_unit)

lemma linkAddressLoop_ok:
  "is_ok (linkAddressLoop ip_text addrs m) \<longleftrightarrow>
     (\<forall>a\<in>set addrs. \<not> blank (la_LinkName a) \<and> ValidateIP (la_Address a) = Inr () \<and> map_of m (ip_text (la_Address a)) = None) \<and>
     distinct (map (\<lambda>a. ip_text (la_Address a)) addrs)"
  by (induction addrs arbitrary: m) (auto simp: ValidateIP_is_ok split: if_splits, metis image_eqI)

lemma ValidateDataPlaneState_ok:
  "ValidateDataPlaneState ip_text s = Inr () \<longleftrightarrow>
     (\<forall>b\<in>set (dp_Balancers s). ValidateBalancerState b = Inr ()) \<and>
     (\<forall>a\<in>set (dp_LinkAddresses s). \<not> blank (la_LinkName a) \<and> ValidateIP (la_Address a) = Inr ()) \<and>
     distinct (map (\<lambda>a. ip_text (la_Address a)) (dp_LinkAddresses s))"
  using linkAddressLoop_ok [of ip_text "dp_LinkAddresses s" "[]"]
  by (auto simp: ValidateDataPlaneState_def ValidateLinkAddresses_def is_ok_iff)

lemma ValidateIpvsService_ident:
  "ValidateIpvsService m = Inr () \<Longrightarrow> \<exists>s i. m = Some s \<and> lb_ident s = Some i"
  by (cases m; cases "ipvs_Attributes (the m)" rule: attrs_cases)
     (auto simp: ValidateIpvsService_def attr_ident_def)

lemma ValidateLbService_ident:
  "ValidateLbService m = Inr () \<Longrightarrow> \<exists>s i. m = Some (mk_lb s) \<and> lb_ident s = Some i"
  using ValidateIpvsService_ident
  by (auto simp: ValidateLbService_def mk_lb_def split: option.splits LoadBalancerService_Service.splits)
     (metis (full_types) LoadBalancerService.surjective old.unit.exhaust)+

lemma ValidateBalancer_ok:
  "ValidateBalancer c = Inr () \<longleftrightarrow>
     bc_Name c \<noteq> [] \<and> bc_SetupName c \<noteq> [] \<and> ValidateLbService (bc_LbService c) = Inr () \<and>
     ValidateUpstreamChecker c = Inr () \<and> ValidateUpstreamRouting (bc_UpstreamRouting c) = Inr () \<and>
     ValidateUpstreamDiscovery (bc_UpstreamDiscovery c) = Inr () \<and> ValidateDynamicRouting (bc_DynamicRouting c) = Inr ()"
  by (simp add: ValidateBalancer_def)

text \<open>The identity and the VIP of a valid balancer.\<close>

fun ident_vip :: "lb_id \<Rightarrow> string" where
  "ident_vip (TcpId a n) = a"
| "ident_vip (UdpId a n) = a"
| "ident_vip (MarkId n t) = ''fwmark''"

definition cfg_ident :: "BalancerConfig \<Rightarrow> lb_id option" where
  "cfg_ident b = Option.bind (GetIpvsService (bc_LbService b)) lb_ident"

lemma cfg_ident_mk_lb: "bc_LbService b = Some (mk_lb s) \<Longrightarrow> cfg_ident b = lb_ident s"
  by (simp add: cfg_ident_def)

lemma GetVipFromLbService_ident:
  "lb_ident s = Some i \<Longrightarrow> \<exists>port. GetVipFromLbService (Some (mk_lb s)) = Inr (ident_vip i, port)"
  by (cases "ipvs_Attributes s" rule: attrs_cases) (auto simp: GetVipFromLbService_def attr_ident_def)

lemma ValidateBalancer_ident:
  assumes "ValidateBalancer b = Inr ()"
  obtains i port where "cfg_ident b = Some i" and "GetKeyFromLbService (bc_LbService b) = Inr (ident_key i)"
    and "GetVipFromLbService (bc_LbService b) = Inr (ident_vip i, port)"
proof -
  from assms obtain s i where s: "bc_LbService b = Some (mk_lb s)" "lb_ident s = Some i"
    using ValidateLbService_ident ValidateBalancer_ok by metis
  moreover have "GetKeyFromLbService (Some (mk_lb s)) = Inr (ident_key i)"
    using s(2) by (simp add: GetKeyFromLbService_mk_lb)
  ultimately show ?thesis
    using that GetVipFromLbService_ident [OF s(2)] cfg_ident_mk_lb by metis
qed

text \<open>
  The specification of an accepted configuration: every balancer is valid, no two balancers have
  the same protocol, VIP and port (or mark and family), and balancers of one VIP agree on fwmarks.
\<close>

definition config_vip :: "BalancerConfig \<Rightarrow> string" where
  "config_vip b = ident_vip (the (cfg_ident b))"

definition config_ok :: "BalancerConfig list \<Rightarrow> bool" where
  "config_ok bs \<longleftrightarrow>
     (\<forall>b\<in>set bs. ValidateBalancer b = Inr ()) \<and> distinct (map cfg_ident bs) \<and>
     (\<forall>b\<in>set bs. \<forall>b'\<in>set bs. config_vip b = config_vip b' \<longrightarrow> bc_EnableFwmarks b = bc_EnableFwmarks b')"

lemma cfg_ident_attr: "cfg_ident b = Some i \<Longrightarrow> \<exists>x. attr_ident x = Some i"
  by (auto simp: cfg_ident_def bind_eq_Some_conv)

lemma cfg_key_inject: "cfg_ident b = Some i \<Longrightarrow> cfg_ident b' = Some j \<Longrightarrow> ident_key i = ident_key j \<longleftrightarrow> i = j"
  using cfg_ident_attr ident_key_inject by metis

lemma agree_insert:
  "(\<forall>x\<in>insert b S. \<forall>y\<in>insert b S. f x = f y \<longrightarrow> g x = g y) \<longleftrightarrow>
     (\<forall>x\<in>S. \<forall>y\<in>S. f x = f y \<longrightarrow> g x = g y) \<and> (\<forall>x\<in>S. f x = f b \<longrightarrow> g x = g b)"
  by (metis insert_iff)

lemma config_ok_Cons:
  "config_ok (b # bs) \<longleftrightarrow> ValidateBalancer b = Inr () \<and> config_ok bs \<and>
     (\<forall>b'\<in>set bs. cfg_ident b' \<noteq> cfg_ident b \<and>
        (config_vip b' = config_vip b \<longrightarrow> bc_EnableFwmarks b' = bc_EnableFwmarks b))"
proof -
  have "cfg_ident b \<notin> set (map cfg_ident bs) \<longleftrightarrow> (\<forall>b'\<in>set bs. cfg_ident b' \<noteq> cfg_ident b)"
    unfolding set_map image_iff by metis
  then show ?thesis
    unfolding config_ok_def list.map list.set distinct.simps agree_insert unfolding ball_simps ball_conj_distrib
    by argo
qed

lemma config_ok_valid: "config_ok bs \<Longrightarrow> b \<in> set bs \<Longrightarrow> ValidateBalancer b = Inr ()"
  by (simp add: config_ok_def)

lemma controlPlaneLoop_Cons:
  assumes "cfg_ident b = Some i" and "ValidateBalancer b = Inr ()"
  shows "controlPlaneLoop (b # bs) m names = Inr () \<longleftrightarrow>
    ident_key i \<notin> names \<and> m (ident_vip i) \<in> {None, Some (bc_EnableFwmarks b)} \<and>
    controlPlaneLoop bs (m(ident_vip i \<mapsto> bc_EnableFwmarks b)) (insert (ident_key i) names) = Inr ()"
proof -
  from assms(2) obtain j port where "cfg_ident b = Some j" "GetKeyFromLbService (bc_LbService b) = Inr (ident_key j)"
    "GetVipFromLbService (bc_LbService b) = Inr (ident_vip j, port)" by (rule ValidateBalancer_ident)
  with assms show ?thesis
    by (auto split: option.splits simp: fun_upd_idem)
qed

lemma controlPlaneLoop_ok:
  "controlPlaneLoop bs m names = Inr () \<longleftrightarrow>
     config_ok bs \<and> (\<forall>b\<in>set bs. ident_key (the (cfg_ident b)) \<notin> names \<and>
       m (config_vip b) \<in> {None, Some (bc_EnableFwmarks b)})"
proof (induction bs arbitrary: m names)
  case Nil
  then show ?case by (simp add: config_ok_def)
next
  case (Cons b bs)
  show ?case
  proof (cases "ValidateBalancer b = Inr ()")
    case False
    then have "\<not> config_ok (b # bs)" by (auto simp: config_ok_def)
    moreover have "controlPlaneLoop (b # bs) m names \<noteq> Inr ()"
      using False by (cases "ValidateBalancer b") auto
    ultimately show ?thesis by blast
  next
    case True
    then obtain i where i: "cfg_ident b = Some i" by (rule ValidateBalancer_ident)
    let ?m = "m(ident_vip i \<mapsto> bc_EnableFwmarks b)"
    have key: "ident_key (the (cfg_ident b')) = ident_key i \<longleftrightarrow> cfg_ident b' = Some i"
      if "config_ok bs" "b' \<in> set bs" for b'
      using config_ok_valid [OF that] cfg_key_inject i by (metis ValidateBalancer_ident option.inject option.sel)
    have vip: "config_vip b = ident_vip i" by (simp add: config_vip_def i)
    have elem: "ident_key (the (cfg_ident b')) \<notin> insert (ident_key i) names \<and> ?m (config_vip b') \<in> {None, Some (bc_EnableFwmarks b')}
      \<longleftrightarrow> (cfg_ident b' \<noteq> cfg_ident b \<and> (config_vip b' = config_vip b \<longrightarrow> bc_EnableFwmarks b' = bc_EnableFwmarks b)) \<and>
          (ident_key (the (cfg_ident b')) \<notin> names \<and> m (config_vip b') \<in> {None, Some (bc_EnableFwmarks b')})"
      if "config_ok bs" "b' \<in> set bs" "m (ident_vip i) \<in> {None, Some (bc_EnableFwmarks b)}" for b'
      using key [OF that(1,2)] that(3) i vip by auto
    have "config_ok bs \<and> m (ident_vip i) \<in> {None, Some (bc_EnableFwmarks b)} \<Longrightarrow>
      (\<forall>b'\<in>set bs. ident_key (the (cfg_ident b')) \<notin> insert (ident_key i) names \<and>
          ?m (config_vip b') \<in> {None, Some (bc_EnableFwmarks b')}) \<longleftrightarrow>
      (\<forall>b'\<in>set bs. cfg_ident b' \<noteq> cfg_ident b \<and>
          (config_vip b' = config_vip b \<longrightarrow> bc_EnableFwmarks b' = bc_EnableFwmarks b)) \<and>
      (\<forall>b'\<in>set bs. ident_key (the (cfg_ident b')) \<notin> names \<and>
          m (config_vip b') \<in> {None, Some (bc_EnableFwmarks b')})"
      unfolding ball_conj_distrib [symmetric] by (rule ball_cong [OF refl]) (rule elem; simp)
    then show ?thesis
      unfolding controlPlaneLoop_Cons [OF i True] Cons.IH config_ok_Cons list.set ball_simps i option.sel vip
      using True by argo
  qed
qed

lemma ValidateControlPlaneConfig_ok: "ValidateControlPlaneConfig c = Inr () \<longleftrightarrow> config_ok (cp_Balancers c)"
  by (simp add: ValidateControlPlaneConfig_def controlPlaneLoop_ok)

subsection \<open>Properties\<close>

text \<open>A configuration with a tcp and a udp balancer on one VIP, for the witnesses.\<close>

definition sample_balancer :: "string \<Rightarrow> IpvsService_Attributes \<Rightarrow> BalancerConfig" where
  "sample_balancer name attr =
     \<lparr>bc_Name = name, bc_SetupName = ''setup'',
      bc_LbService = Some (mk_lb \<lparr>ipvs_Attributes = Some attr, ipvs_Scheduler = RR, ipvs_Flags = []\<rparr>),
      bc_UpstreamRouting = Some \<lparr>ur_ForwardMethod = TUNNEL\<rparr>,
      bc_UpstreamDiscovery = Some \<lparr>ud_Port = 80, ud_ResolveFamily = AF_INET, ud_Attributes = Some (StaticAttributes (Some [''h1'']))\<rparr>,
      bc_UpstreamChecker = Some \<lparr>uc_IntervalMs = 1000, uc_RiseCount = 2, uc_FallCount = 3,
        uc_Checker = Some \<lparr>hc_Attributes = Some (HcDummy (Some ()))\<rparr>, uc_ConcurrencyLimit = 1\<rparr>,
      bc_EnableFwmarks = False,
      bc_DynamicRouting = Some \<lparr>drt_AnnounceLimitRatio = F32 (1 / 2), drt_Attributes = None\<rparr>,
      bc_WeightUp = 1\<rparr>"

definition sample_tcp :: BalancerConfig where
  "sample_tcp = sample_balancer ''web''
     (TcpAttributes (Some \<lparr>tcp_Address = Some (IP (Some (IP_Ipv4 (dotted [10, 0, 0, 1])))), tcp_Port = 80\<rparr>))"

definition sample_udp :: BalancerConfig where
  "sample_udp = sample_balancer ''dns''
     (UdpAttributes (Some \<lparr>udp_Address = Some (IP (Some (IP_Ipv4 (dotted [10, 0, 0, 1])))), udp_Port = 53\<rparr>))"

lemmas sample_defs = sample_tcp_def sample_udp_def sample_balancer_def

lemma sample_valid [simp]: "ValidateBalancer sample_tcp = Inr ()" "ValidateBalancer sample_udp = Inr ()"
  by (simp_all add: sample_defs ValidateBalancer_def ValidateLbService_def ValidateIpvsService_def mk_lb_def
      ValidateUpstreamChecker_def ValidateUpstreamRouting_def ValidateUpstreamDiscovery_def ValidateDynamicRouting_def)

lemma sample_ident [simp]:
  "cfg_ident sample_tcp = Some (TcpId (dotted [10, 0, 0, 1]) 80)"
  "cfg_ident sample_udp = Some (UdpId (dotted [10, 0, 0, 1]) 53)"
  by (simp_all add: sample_defs cfg_ident_def attr_ident_def KglbAddrToNetIp_def ParseIP_dotted IP_String_def)

lemma sample_fwmarks [simp]: "\<not> bc_EnableFwmarks sample_tcp" "\<not> bc_EnableFwmarks sample_udp"
  by (simp_all add: sample_defs)

text \<open>
  C20: The control plane accepts a configuration exactly when every balancer passes its own checks,
  no two balancers share protocol, VIP and port (or mark and address family), and all balancers of
  one VIP agree on \<open>enable_fwmarks\<close>.
\<close>

theorem accepted_config:
  "ValidateControlPlaneConfig c = Inr () \<longleftrightarrow>
     (\<forall>b\<in>set (cp_Balancers c). ValidateBalancer b = Inr ()) \<and>
     distinct (map cfg_ident (cp_Balancers c)) \<and>
     (\<forall>b\<in>set (cp_Balancers c). \<forall>b'\<in>set (cp_Balancers c).
        config_vip b = config_vip b' \<longrightarrow> bc_EnableFwmarks b = bc_EnableFwmarks b')"
  by (simp only: ValidateControlPlaneConfig_ok config_ok_def)

theorem accepted_config_witness:
  "ValidateControlPlaneConfig \<lparr>cp_Balancers = [sample_tcp, sample_udp]\<rparr> = Inr () \<and>
   ValidateControlPlaneConfig \<lparr>cp_Balancers = [sample_tcp, sample_udp\<lparr>bc_EnableFwmarks := True\<rparr>]\<rparr> \<noteq> Inr ()"
proof
  show "ValidateControlPlaneConfig \<lparr>cp_Balancers = [sample_tcp, sample_udp]\<rparr> = Inr ()"
    unfolding accepted_config by simp
  have "cfg_ident (sample_udp\<lparr>bc_EnableFwmarks := True\<rparr>) = cfg_ident sample_udp"
    by (simp add: cfg_ident_def)
  then show "ValidateControlPlaneConfig \<lparr>cp_Balancers = [sample_tcp, sample_udp\<lparr>bc_EnableFwmarks := True\<rparr>]\<rparr> \<noteq> Inr ()"
    unfolding accepted_config by (simp add: config_vip_def)
qed

text \<open>
  Validation itself crashes on a balancer without \<open>upstream_discovery\<close> whose earlier fields are
  valid: \<open>ValidateUpstreamDiscovery\<close> dereferences the message it should reject.
\<close>

theorem missing_discovery_panics:
  assumes "ValidateBalancer b = Inr ()"
  shows "is_panic (ValidateControlPlaneConfig \<lparr>cp_Balancers = b\<lparr>bc_UpstreamDiscovery := None\<rparr> # rest\<rparr>)"
proof -
  have "ValidateUpstreamChecker (b\<lparr>bc_UpstreamDiscovery := None\<rparr>) = ValidateUpstreamChecker b"
    by (simp add: ValidateUpstreamChecker_def split: option.split HealthCheckerAttributes_Attributes.split)
  then show ?thesis
    using assms unfolding ValidateBalancer_ok
    by (simp add: ValidateControlPlaneConfig_def ValidateBalancer_def ValidateUpstreamDiscovery_def)
qed

theorem missing_discovery_panics_witness:
  "is_panic (ValidateControlPlaneConfig \<lparr>cp_Balancers = [sample_tcp\<lparr>bc_UpstreamDiscovery := None\<rparr>]\<rparr>)"
  using missing_discovery_panics [OF sample_valid(1)] by simp

end
