(* ===== verification/Balancer.thy ===== *)
theory Balancer
  imports Health_Manager Fwmark Checker_Factory Validate
begin

section \<open>kglb/control\_plane: balancer.go, balancer\_state.go\<close>

text \<open>
  A balancer turns the states its health manager publishes into load balancer states: it resolves
  the hosts, gives them weights, keeps at least one upstream in service (failsafe), and allocates
  the firewall marks of tunnelled health checks from the manager all balancers share. That manager
  is passed explicitly. \<open>Balancer.resolver\<close> and the resolver of the health manager are one object,
  the field \<open>hm_resolver\<close>. The channel to the servicer is a flag of the servicer: the operations
  return whether they send. DNS answers are parameters of the call; gauges are left out.
\<close>

subsection \<open>State\<close>

record CpBalancerState =
  cb_States :: "BalancerState list"
  cb_AliveRatio :: rat
  cb_InitialState :: bool

record Balancer =
  ba_name :: string
  ba_vip :: string
  ba_healthMng :: HealthManager
  ba_updatesConf :: bool
  ba_config :: BalancerConfig
  ba_state :: CpBalancerState
  ba_initialState :: bool
  ba_weightUp :: u32
  ba_retryTimer :: bool
  ba_closed :: bool

definition DefaultWeightUp :: u32 where
  "DefaultWeightUp = 1000"

definition DefaultWeightDown :: u32 where
  "DefaultWeightDown = 0"

definition getAddressFamilyFromVip :: "string \<Rightarrow> AddressFamily" where
  "getAddressFamilyFromVip vip =
     (let ip = ParseIP vip in
      if ip = [] then AddressFamily_num (- 1)
      else if To4 ip \<noteq> None then AF_INET
      else AF_INET6)"

definition newBalancer :: "(BalancerConfig \<Rightarrow> HealthCheckerAttributes result) \<Rightarrow> BalancerConfig \<Rightarrow> Balancer result" where
  "newBalancer CheckerFactory conf =
     (let weightUp = (if bc_WeightUp conf = 0 then DefaultWeightUp else bc_WeightUp conf) in
      bind_r (wrap_r ''fails to extract vip'' (GetVipFromLbService (bc_LbService conf))) (\<lambda>(vip, _).
      bind_r (wrap_r ''fails to create resolver'' (Factory_Resolver (bc_Name conf) (bc_UpstreamDiscovery conf))) (\<lambda>resolver.
      bind_r (wrap_r ''fails to create checker'' (CheckerFactory conf)) (\<lambda>healthchecker.
      bind_r (wrap_r ''fails to create health manager''
               (NewHealthManager (Some resolver) (Some (Some healthchecker)) (bc_UpstreamChecker conf)
                 (getAddressFamilyFromVip vip) False)) (\<lambda>healthMng.
      Inr \<lparr>ba_name = bc_Name conf, ba_vip = vip, ba_healthMng = healthMng, ba_updatesConf = False,
           ba_config = conf, ba_state = \<lparr>cb_States = [], cb_AliveRatio = 0, cb_InitialState = True\<rparr>,
           ba_initialState = True, ba_weightUp = weightUp, ba_retryTimer = False, ba_closed = False\<rparr>)))))"

definition Balancer_GetState :: "Balancer \<Rightarrow> CpBalancerState" where
  "Balancer_GetState u = ba_state u"

definition Balancer_GetConfig :: "Balancer \<Rightarrow> BalancerConfig" where
  "Balancer_GetConfig u = ba_config u"

subsection \<open>Update and Close\<close>

text \<open>The steps of \<open>Update\<close>, in order: the resolver, the checker, the thresholds, the configuration.\<close>

definition updateDiscovery :: "BalancerConfig \<Rightarrow> (Balancer, unit) act" where
  "updateDiscovery conf = (\<lambda>u.
     let discoveryConf = bc_UpstreamDiscovery conf;
         (err, resolver1) = Factory_Update discoveryConf (hm_resolver (ba_healthMng u));
         u1 = u\<lparr>ba_healthMng := (ba_healthMng u)\<lparr>hm_resolver := resolver1\<rparr>\<rparr>
     in if err = Inl ErrResolverIncompatibleType then
          (case wrap_r ''fails to create resolver'' (Factory_Resolver (ba_name u) discoveryConf) of
             Inl e \<Rightarrow> (Inl e, u1)
           | Inr resolver \<Rightarrow> (Inr (), u1\<lparr>ba_healthMng := UpdateResolver resolver (ba_healthMng u1)\<rparr>))
        else (wrap_r ''fails to update resolver'' err, u1))"

definition updateChecker ::
  "(BalancerConfig \<Rightarrow> HealthCheckerAttributes result) \<Rightarrow> BalancerConfig \<Rightarrow> (Balancer, unit) act" where
  "updateChecker CheckerFactory conf = (\<lambda>u.
     if GetCheckerConfiguration (ba_healthMng u) \<noteq> Option.bind (bc_UpstreamChecker conf) uc_Checker then
       (case wrap_r ''fails to create health checker'' (CheckerFactory conf) of
          Inl e \<Rightarrow> (Inl e, u)
        | Inr c \<Rightarrow> (Inr (), u\<lparr>ba_healthMng := UpdateHealthChecker (Some c) (ba_healthMng u)\<rparr>))
     else (Inr (), u))"

definition updateThresholds :: "BalancerConfig \<Rightarrow> (Balancer, unit) act" where
  "updateThresholds conf = (\<lambda>u.
     let (r, hm) = HealthManager_Update (bc_UpstreamChecker conf) (ba_healthMng u)
     in (wrap_r ''failed to update health manager'' r, u\<lparr>ba_healthMng := hm\<rparr>))"

definition storeConfig :: "BalancerConfig \<Rightarrow> Balancer \<Rightarrow> Balancer" where
  "storeConfig conf u =
     (let newWeightUp = (if bc_WeightUp conf = 0 then DefaultWeightUp else bc_WeightUp conf);
          u1 = u\<lparr>ba_config := conf\<rparr>
      in if ba_weightUp u1 \<noteq> newWeightUp
         then u1\<lparr>ba_weightUp := newWeightUp, ba_updatesConf := True\<rparr>
         else u1)"

definition Balancer_Update ::
  "(BalancerConfig \<Rightarrow> HealthCheckerAttributes result) \<Rightarrow> BalancerConfig \<Rightarrow> (Balancer, unit) act" where
  "Balancer_Update CheckerFactory conf = (\<lambda>u.
     if ba_name u \<noteq> bc_Name conf then (fail ''Updating balancer name is not allowed'', u)
     else if bc_SetupName (ba_config u) \<noteq> bc_SetupName conf then (fail ''Updating balancer setup name is not allowed'', u)
     else case wrap_r ''fails to extract vip'' (GetVipFromLbService (bc_LbService conf)) of
       Inl e \<Rightarrow> (Inl e, u)
     | Inr (vip, _) \<Rightarrow>
         if ba_vip u \<noteq> vip then (fail ''Updating vip is not allowed'', u)
         else
           bind_a (updateDiscovery conf) (\<lambda>_.
           bind_a (updateChecker CheckerFactory conf) (\<lambda>_.
           bind_a (updateThresholds conf) (\<lambda>_.
           (\<lambda>u. (Inr (), storeConfig conf u))))) u)"

text \<open>\<open>Close\<close> cancels the context, which ends the health manager's loop, and closes the resolver.\<close>

definition closeResolver :: "DiscoveryResolver \<Rightarrow> DiscoveryResolver" where
  "closeResolver resolver = (case resolver of RStatic r \<Rightarrow> RStatic (StaticResolver_Close r) | OtherResolver \<Rightarrow> OtherResolver)"

definition Balancer_Close :: "Balancer \<Rightarrow> Balancer" where
  "Balancer_Close u =
     (let hm = closeLoop (ba_healthMng u)
      in u\<lparr>ba_closed := True, ba_healthMng := hm\<lparr>hm_resolver := closeResolver (hm_resolver hm)\<rparr>\<rparr>)"

subsection \<open>Firewall marks\<close>

definition getAddressString :: "UpstreamState \<Rightarrow> string" where
  "getAddressString state =
     (case GetAddress (us_Address state) of
        Some (IP_Ipv4 a) \<Rightarrow> a
      | Some (IP_Ipv6 a) \<Rightarrow> a
      | None \<Rightarrow> [])"

text \<open>The upstreams of the previous main state, \<open>balancerStates.States[0].Upstreams\<close>.\<close>

definition oldUpstreams :: "CpBalancerState \<Rightarrow> UpstreamState list" where
  "oldUpstreams st = (case cb_States st of [] \<Rightarrow> [] | s # _ \<Rightarrow> bs_Upstreams s)"

definition manageFwmarkAllocations :: "Balancer \<Rightarrow> UpstreamState list \<Rightarrow> Manager \<Rightarrow> Manager" where
  "manageFwmarkAllocations u upstreamStates m =
     (let old = oldUpstreams (Balancer_GetState u);
          m1 = fold (\<lambda>state m.
                 let addr = getAddressString state;
                     found = list_ex (\<lambda>oldState. addr = getAddressString oldState) old
                 in if \<not> found then snd (AllocateFwmark addr m) else m) upstreamStates m
      in fold (\<lambda>oldState m.
           let addr = getAddressString oldState;
               found = list_ex (\<lambda>state. addr = getAddressString state) upstreamStates
           in if \<not> found then snd (ReleaseFwmark addr m) else m) old m1)"

definition generateFwmarkService :: "Balancer \<Rightarrow> Manager \<Rightarrow> UpstreamState \<Rightarrow> BalancerState option" where
  "generateFwmarkService u m upstreamState =
     (case GetAllocatedFwmark m (getAddressString upstreamState) of
        Inl _ \<Rightarrow> None
      | Inr fwmarkVal \<Rightarrow> Some
          \<lparr>bs_Name = ''fwmark'' @ dec (unat fwmarkVal),
           bs_LbService = Some (mk_lb
             \<lparr>ipvs_Attributes = Some (FwmarkAttributes (Some
                \<lparr>fw_AddressFamily = KglbAddrToFamily (us_Address upstreamState), fw_Fwmark = fwmarkVal\<rparr>)),
              ipvs_Scheduler = RR, ipvs_Flags = []\<rparr>),
           bs_Upstreams =
             [\<lparr>us_Address = us_Address upstreamState, us_Port = 0, us_Hostname = us_Hostname upstreamState,
               us_Weight = ba_weightUp u, us_ForwardMethod = us_ForwardMethod upstreamState\<rparr>]\<rparr>)"

subsection \<open>updateState\<close>

definition resolveFamily :: "BalancerConfig \<Rightarrow> AddressFamily" where
  "resolveFamily conf = (case bc_UpstreamDiscovery conf of None \<Rightarrow> AF_INET | Some d \<Rightarrow> ud_ResolveFamily d)"

definition forwardMethod :: "BalancerConfig \<Rightarrow> ForwardMethods" where
  "forwardMethod conf = (case bc_UpstreamRouting conf of None \<Rightarrow> TUNNEL | Some r \<Rightarrow> ur_ForwardMethod r)"

text \<open>The loop over the published entries; \<open>None\<close> is the early return after a failed resolution.\<close>

fun upstreamLoop ::
  "(string \<Rightarrow> AddressFamily \<Rightarrow> IP option result) \<Rightarrow> Balancer \<Rightarrow> healthStatusEntry HealthManagerState
    \<Rightarrow> UpstreamState list option" where
  "upstreamLoop ResolveHost u [] = Some []"
| "upstreamLoop ResolveHost u (entry # state) =
     (if \<not> hp_Enabled (he_HostPort entry) then upstreamLoop ResolveHost u state
      else case ResolveHost (hp_Host (he_HostPort entry)) (resolveFamily (ba_config u)) of
        Inl _ \<Rightarrow> None
      | Inr ip \<Rightarrow>
          map_option (Cons
            \<lparr>us_Address = ip, us_Port = of_int (hp_Port (he_HostPort entry)), us_Hostname = hp_Host (he_HostPort entry),
             us_Weight = (if hs_isHealthy (he_Status entry) then ba_weightUp u else DefaultWeightDown),
             us_ForwardMethod = forwardMethod (ba_config u)\<rparr>)
            (upstreamLoop ResolveHost u state))"

definition updateState ::
  "(string \<Rightarrow> AddressFamily \<Rightarrow> IP option result) \<Rightarrow> healthStatusEntry HealthManagerState \<Rightarrow> Balancer \<times> Manager
    \<Rightarrow> bool \<times> Balancer \<times> Manager" where
  "updateState ResolveHost state um = (case um of (u, m) \<Rightarrow>
     case upstreamLoop ResolveHost u state of
       None \<Rightarrow> (False, u\<lparr>ba_retryTimer := True\<rparr>, m)
     | Some upstreams \<Rightarrow>
         let aliveRatio = AliveUpstreamsRatio upstreams;
             initialState = (if ba_initialState u \<and> aliveRatio > 0 then False else ba_initialState u);
             u1 = u\<lparr>ba_initialState := initialState\<rparr>;
             (upstreamStates, aliveRatio) =
               (if \<not> initialState \<and> aliveRatio = 0 \<and> length upstreams > 0 then
                  (let ups = map (\<lambda>s. s\<lparr>us_Weight := ba_weightUp u1\<rparr>) upstreams in (ups, AliveUpstreamsRatio ups))
                else (upstreams, aliveRatio));
             mainState = \<lparr>bs_Name = ba_name u1, bs_LbService = bc_LbService (ba_config u1), bs_Upstreams = upstreamStates\<rparr>;
             (fwmarkStates, m1) =
               (if bc_EnableFwmarks (ba_config u1) then
                  (let m1 = manageFwmarkAllocations u1 upstreamStates m
                   in (List.map_filter (generateFwmarkService u1 m1) upstreamStates, m1))
                else ([], m));
             balancerState = \<lparr>cb_States = mainState # fwmarkStates, cb_AliveRatio = aliveRatio, cb_InitialState = initialState\<rparr>
         in (True, u1\<lparr>ba_state := balancerState\<rparr>, m1))"

subsection \<open>updateLoop\<close>

text \<open>The cases of the select; \<open>RetryTimer\<close> is the \<open>time.AfterFunc\<close> of a failed resolution firing.\<close>

datatype balancer_event = HealthUpdate | ConfSignal | RetryTimer

fun updateLoop_event ::
  "(string \<Rightarrow> AddressFamily \<Rightarrow> IP option result) \<Rightarrow> balancer_event \<Rightarrow> Balancer \<times> Manager \<Rightarrow> bool \<times> Balancer \<times> Manager" where
  "updateLoop_event dns HealthUpdate (u, m) =
     (case hm_updateChan (ba_healthMng u) of
        None \<Rightarrow> (False, u, m)
      | Some _ \<Rightarrow>
          (let u1 = u\<lparr>ba_healthMng := (ba_healthMng u)\<lparr>hm_updateChan := None\<rparr>\<rparr>
           in updateState dns (HealthManager_GetState (ba_healthMng u1)) (u1, m)))"
| "updateLoop_event dns ConfSignal (u, m) =
     (if ba_updatesConf u
      then updateState dns (HealthManager_GetState (ba_healthMng u)) (u\<lparr>ba_updatesConf := False\<rparr>, m)
      else (False, u, m))"
| "updateLoop_event dns RetryTimer (u, m) =
     (if ba_retryTimer u then (False, u\<lparr>ba_retryTimer := False, ba_updatesConf := True\<rparr>, m) else (False, u, m))"

subsection \<open>Weights\<close>

abbreviation enabled_entries :: "healthStatusEntry HealthManagerState \<Rightarrow> healthStatusEntry HealthManagerState" where
  "enabled_entries st \<equiv> filter (\<lambda>e. hp_Enabled (he_HostPort e)) st"

abbreviation any_healthy :: "healthStatusEntry HealthManagerState \<Rightarrow> bool" where
  "any_healthy st \<equiv> \<exists>e\<in>set (enabled_entries st). hs_isHealthy (he_Status e)"

lemma upstreamLoop_None:
  "upstreamLoop dns u st = None \<longleftrightarrow>
     (\<exists>e\<in>set (enabled_entries st). \<not> is_ok (dns (hp_Host (he_HostPort e)) (resolveFamily (ba_config u))))"
  by (induction st) (auto split: sum.splits)

lemma upstreamLoop_Some:
  assumes "upstreamLoop dns u st = Some ups"
  shows "map us_Hostname ups = map (\<lambda>e. hp_Host (he_HostPort e)) (enabled_entries st)"
    and "map us_Weight ups = map (\<lambda>e. if hs_isHealthy (he_Status e) then ba_weightUp u else 0) (enabled_entries st)"
    and "map (\<lambda>up. Inr (us_Address up)) ups =
      map (\<lambda>e. dns (hp_Host (he_HostPort e)) (resolveFamily (ba_config u))) (enabled_entries st)"
  using assms
  by (induction st arbitrary: ups) (auto split: sum.splits if_splits simp: DefaultWeightDown_def)

lemma AliveUpstreamsRatio_Nil [simp]: "AliveUpstreamsRatio [] = 0"
  by (simp add: AliveUpstreamsRatio_0)

lemma alive_weights:
  "(AliveUpstreamsRatio ups > 0) \<longleftrightarrow> (\<exists>w\<in>set (map us_Weight ups). w \<noteq> 0)"
  using AliveUpstreamsRatio_0 [of ups] AliveUpstreamsRatio_nonneg [of ups] by (auto simp: less_le)

lemma loop_alive:
  assumes "upstreamLoop dns u st = Some ups" and "ba_weightUp u \<noteq> 0"
  shows "(AliveUpstreamsRatio ups > 0) \<longleftrightarrow> any_healthy st"
  unfolding alive_weights upstreamLoop_Some(2) [OF assms(1)] using assms(2) by auto

lemma ratio_zero: "\<not> AliveUpstreamsRatio ups > 0 \<longleftrightarrow> AliveUpstreamsRatio ups = 0"
  using AliveUpstreamsRatio_nonneg [of ups] by auto

text \<open>The upstreams \<open>updateState\<close> publishes, after the failsafe.\<close>

definition failsafe_upstreams :: "Balancer \<Rightarrow> UpstreamState list \<Rightarrow> UpstreamState list" where
  "failsafe_upstreams u ups =
     (if \<not> ba_initialState u \<and> AliveUpstreamsRatio ups = 0 then map (\<lambda>s. s\<lparr>us_Weight := ba_weightUp u\<rparr>) ups else ups)"

lemma updateState_Some:
  assumes "upstreamLoop dns u st = Some ups"
  shows "updateState dns st (u, m) =
    (let ini = (ba_initialState u \<and> AliveUpstreamsRatio ups = 0);
         u1 = u\<lparr>ba_initialState := ini\<rparr>;
         final = failsafe_upstreams u ups;
         m1 = (if bc_EnableFwmarks (ba_config u) then manageFwmarkAllocations u1 final m else m)
     in (True,
         u1\<lparr>ba_state := \<lparr>cb_States =
              \<lparr>bs_Name = ba_name u, bs_LbService = bc_LbService (ba_config u), bs_Upstreams = final\<rparr> #
              (if bc_EnableFwmarks (ba_config u) then List.map_filter (generateFwmarkService u1 m1) final else []),
            cb_AliveRatio = AliveUpstreamsRatio final, cb_InitialState = ini\<rparr>\<rparr>, m1))"
proof -
  have pos: "AliveUpstreamsRatio ups > 0 \<longleftrightarrow> AliveUpstreamsRatio ups \<noteq> 0"
    using ratio_zero [of ups] by blast
  show ?thesis
    by (cases "ba_initialState u"; cases "AliveUpstreamsRatio ups = 0"; cases "ups = []"; cases "bc_EnableFwmarks (ba_config u)")
       (simp_all add: updateState_def assms Let_def failsafe_upstreams_def pos)
qed

lemma failsafe_weights:
  assumes "upstreamLoop dns u st = Some ups" and "ba_weightUp u \<noteq> 0"
  shows "map us_Weight (failsafe_upstreams u ups) =
    map (\<lambda>e. if hs_isHealthy (he_Status e) \<or> \<not> ba_initialState u \<and> \<not> any_healthy st then ba_weightUp u else 0) (enabled_entries st)"
proof (cases "\<not> ba_initialState u \<and> AliveUpstreamsRatio ups = 0")
  case True
  then have "\<not> any_healthy st" using loop_alive [OF assms] by simp
  moreover have "length ups = length (enabled_entries st)"
    using upstreamLoop_Some(1) [OF assms(1)] by (metis length_map)
  ultimately show ?thesis using True
    by (simp add: failsafe_upstreams_def comp_def map_replicate_const)
next
  case False
  then have "ba_initialState u \<or> any_healthy st" using loop_alive [OF assms] ratio_zero [of ups] by blast
  with False show ?thesis
    unfolding failsafe_upstreams_def if_not_P [OF False] upstreamLoop_Some(2) [OF assms(1)] by auto
qed

subsection \<open>Invariant of a balancer\<close>

definition ba_inv :: "Balancer \<Rightarrow> bool" where
  "ba_inv u \<longleftrightarrow>
     ba_weightUp u \<noteq> 0 \<and> cb_InitialState (ba_state u) = ba_initialState u \<and>
     cb_AliveRatio (ba_state u) = AliveUpstreamsRatio (oldUpstreams (ba_state u)) \<and>
     (ba_initialState u \<longrightarrow> cb_AliveRatio (ba_state u) = 0) \<and>
     (\<not> ba_initialState u \<and> oldUpstreams (ba_state u) \<noteq> [] \<longrightarrow> cb_AliveRatio (ba_state u) > 0)"

lemma failsafe_alive:
  assumes "ba_weightUp u \<noteq> 0" "\<not> ba_initialState u \<or> AliveUpstreamsRatio ups \<noteq> 0" "failsafe_upstreams u ups \<noteq> []"
  shows "AliveUpstreamsRatio (failsafe_upstreams u ups) > 0"
proof (cases "\<not> ba_initialState u \<and> AliveUpstreamsRatio ups = 0")
  case True
  then have eq: "failsafe_upstreams u ups = map (\<lambda>s. s\<lparr>us_Weight := ba_weightUp u\<rparr>) ups" by (simp add: failsafe_upstreams_def)
  then have "ups \<noteq> []" using assms(3) by auto
  then show ?thesis unfolding alive_weights eq using assms(1) by (cases ups) auto
next
  case False
  with assms(2) show ?thesis using ratio_zero [of ups] by (auto simp: failsafe_upstreams_def)
qed

lemma updateState_inv:
  assumes "ba_inv u" shows "ba_inv (fst (snd (updateState dns st (u, m))))"
proof (cases "upstreamLoop dns u st")
  case None
  with assms show ?thesis by (auto simp: updateState_def ba_inv_def)
next
  case (Some ups)
  have "ba_initialState u \<Longrightarrow> AliveUpstreamsRatio ups = 0 \<Longrightarrow> AliveUpstreamsRatio (failsafe_upstreams u ups) = 0"
    by (simp add: failsafe_upstreams_def)
  with assms failsafe_alive [of u ups] show ?thesis
    unfolding updateState_Some [OF Some] by (auto simp: Let_def ba_inv_def oldUpstreams_def)
qed

lemma newBalancer_inv: "newBalancer C conf = Inr u \<Longrightarrow> ba_inv u"
  by (auto simp: newBalancer_def Let_def ba_inv_def oldUpstreams_def DefaultWeightUp_def split: prod.splits if_splits)

text \<open>What \<open>Update\<close> can do to a balancer: nothing to its states, and the weight stays positive.\<close>

definition ba_frame :: "Balancer \<Rightarrow> Balancer \<Rightarrow> bool" where
  "ba_frame u v \<longleftrightarrow>
     ba_state v = ba_state u \<and> ba_initialState v = ba_initialState u \<and> ba_name v = ba_name u \<and> ba_vip v = ba_vip u \<and>
     (ba_weightUp u \<noteq> 0 \<longrightarrow> ba_weightUp v \<noteq> 0)"

lemma ba_frame_refl [simp]: "ba_frame u u"
  by (simp add: ba_frame_def)

lemma ba_frame_trans: "ba_frame u v \<Longrightarrow> ba_frame v w \<Longrightarrow> ba_frame u w"
  by (simp add: ba_frame_def)

lemma ba_frame_bind:
  "ba_frame u (snd (f u)) \<Longrightarrow> (\<And>v. ba_frame v (snd (g () v))) \<Longrightarrow> ba_frame u (snd (bind_a f g u))"
  by (auto simp: bind_a_def split: prod.splits sum.splits intro: ba_frame_trans)

lemma update_steps_frame:
  "ba_frame u (snd (updateDiscovery conf u))" "ba_frame u (snd (updateChecker C conf u))"
  "ba_frame u (snd (updateThresholds conf u))" "ba_frame u (storeConfig conf u)"
  by (auto simp: updateDiscovery_def updateChecker_def updateThresholds_def storeConfig_def ba_frame_def Let_def
      DefaultWeightUp_def split: sum.splits prod.splits)

lemma Balancer_Update_frame: "ba_frame u (snd (Balancer_Update C conf u))"
  by (auto simp: Balancer_Update_def update_steps_frame split: sum.splits intro!: ba_frame_bind)

lemma Balancer_Update_inv: "ba_inv u \<Longrightarrow> ba_inv (snd (Balancer_Update C conf u))"
  using Balancer_Update_frame [of u C conf] by (auto simp: ba_inv_def ba_frame_def)

lemma updateLoop_inv: "ba_inv u \<Longrightarrow> ba_inv (fst (snd (updateLoop_event dns ev (u, m))))"
proof (cases ev)
  case HealthUpdate
  assume "ba_inv u"
  then have "ba_inv (u\<lparr>ba_healthMng := hm\<rparr>)" for hm by (auto simp: ba_inv_def)
  with \<open>ba_inv u\<close> HealthUpdate show ?thesis by (auto simp: Let_def intro: updateState_inv split: option.splits)
next
  case ConfSignal
  assume "ba_inv u"
  then have "ba_inv (u\<lparr>ba_updatesConf := False\<rparr>)" by (auto simp: ba_inv_def)
  with \<open>ba_inv u\<close> ConfSignal show ?thesis by (auto intro: updateState_inv)
next
  case RetryTimer
  assume "ba_inv u"
  with RetryTimer show ?thesis by (auto simp: ba_inv_def)
qed

text \<open>A balancer in its life: created, fed by its health manager, updated, closed, in any order.\<close>

inductive ba_reach :: "Balancer \<Rightarrow> bool" where
  ba_new: "newBalancer C conf = Inr u \<Longrightarrow> ba_reach u"
| ba_loop: "ba_reach u \<Longrightarrow> updateLoop_event dns ev (u, m) = (sent, u', m') \<Longrightarrow> ba_reach u'"
| ba_health: "ba_reach u \<Longrightarrow> ba_reach (u\<lparr>ba_healthMng := healthCheckLoop_event hev (ba_healthMng u)\<rparr>)"
| ba_update: "ba_reach u \<Longrightarrow> Balancer_Update C conf u = (r, u') \<Longrightarrow> ba_reach u'"
| ba_close: "ba_reach u \<Longrightarrow> ba_reach (Balancer_Close u)"

lemma ba_reach_inv: "ba_reach u \<Longrightarrow> ba_inv u"
proof (induction rule: ba_reach.induct)
  case (ba_loop u dns ev m sent u' m')
  then show ?case using updateLoop_inv [of u dns ev m] by simp
next
  case (ba_update u C conf r u')
  then show ?case using Balancer_Update_inv [of u C conf] by simp
next
  case (ba_new C conf u)
  then show ?case by (rule newBalancer_inv)
qed (auto simp: ba_inv_def Balancer_Close_def Let_def)

subsection \<open>Accounting of firewall marks\<close>

lemma fold_filter_addr:
  "fold (\<lambda>s m. if \<not> list_ex (\<lambda>t. f s = f t) others then g (f s) m else m) xs m =
     fold g (filter (\<lambda>a. a \<notin> f ` set others) (map f xs)) m"
  by (induction xs arbitrary: m) (auto simp: list_ex_iff)

definition addrs :: "UpstreamState list \<Rightarrow> string list" where
  "addrs ups = map getAddressString ups"

lemma manage_folds:
  "manageFwmarkAllocations u ups m =
     fold (\<lambda>a m. snd (ReleaseFwmark a m)) (filter (\<lambda>a. a \<notin> set (addrs ups)) (addrs (oldUpstreams (ba_state u))))
       (fold (\<lambda>a m. snd (AllocateFwmark a m)) (filter (\<lambda>a. a \<notin> set (addrs (oldUpstreams (ba_state u)))) (addrs ups)) m)"
  unfolding manageFwmarkAllocations_def Balancer_GetState_def Let_def
    fold_filter_addr [where f = getAddressString and g = "\<lambda>a m. snd (AllocateFwmark a m)"]
    fold_filter_addr [where f = getAddressString and g = "\<lambda>a m. snd (ReleaseFwmark a m)"]
  by (simp add: addrs_def)

text \<open>The balancer's previous addresses each hold a mark, and there is room for the new ones.\<close>

definition fwmark_room :: "Balancer \<Rightarrow> UpstreamState list \<Rightarrow> Manager \<Rightarrow> bool" where
  "fwmark_room u ups m \<longleftrightarrow>
     fm_ok m \<and> distinct (addrs (oldUpstreams (ba_state u))) \<and> distinct (addrs ups) \<and>
     (\<forall>a\<in>set (addrs (oldUpstreams (ba_state u))). refs m a \<noteq> 0) \<and>
     (\<forall>a\<in>set (addrs ups). refs m a < max_refs) \<and>
     card ({a. refs m a \<noteq> 0} \<union> set (addrs ups)) \<le> length (all_marks m)"

lemma manage_accounting:
  assumes "fwmark_room u ups m"
  defines "m' \<equiv> manageFwmarkAllocations u ups m" and "old \<equiv> set (addrs (oldUpstreams (ba_state u)))" and "new \<equiv> set (addrs ups)"
  shows "fm_ok m' \<and> refs m' = (\<lambda>a. refs m a + (if a \<in> new - old then 1 else 0) - (if a \<in> old - new then 1 else 0))"
proof -
  let ?add = "filter (\<lambda>a. a \<notin> old) (addrs ups)" and ?del = "filter (\<lambda>a. a \<notin> new) (addrs (oldUpstreams (ba_state u)))"
  let ?m1 = "fold (\<lambda>a m. snd (AllocateFwmark a m)) ?add m"
  note room = assms(1)[unfolded fwmark_room_def]
  have fin: "finite ({a. refs m a \<noteq> 0} \<union> new)" unfolding new_def using fwm.used_finite room by auto
  have "card ({a. refs m a \<noteq> 0} \<union> set ?add) \<le> card ({a. refs m a \<noteq> 0} \<union> new)"
    by (rule card_mono [OF fin]) (auto simp: new_def)
  then have "card ({a. refs m a \<noteq> 0} \<union> set ?add) \<le> length (all_marks m)" using room unfolding new_def by linarith
  then have m1: "fm_ok ?m1" "refs ?m1 = (\<lambda>a. refs m a + (if a \<in> set ?add then 1 else 0))"
    using fwm.alloc_all [of m ?add] room by (auto simp: Let_def)
  have "\<forall>a\<in>set ?del. refs ?m1 a \<noteq> 0" using room unfolding m1(2) by auto
  then have "fm_ok m'" "refs m' = (\<lambda>a. refs ?m1 a - (if a \<in> set ?del then 1 else 0))"
    using fwm.release_all [of ?m1 ?del] m1(1) room unfolding m'_def manage_folds old_def new_def by (auto simp: Let_def)
  then show ?thesis unfolding m1(2) by (auto simp: new_def old_def)
qed

lemma manage_all_marked:
  assumes "fwmark_room u ups m" and "a \<in> set (addrs ups)"
  shows "is_ok (GetAllocatedFwmark (manageFwmarkAllocations u ups m) a)"
proof -
  have "refs (manageFwmarkAllocations u ups m) a \<noteq> 0"
    using manage_accounting [OF assms(1)] assms(2) assms(1)[unfolded fwmark_room_def] by auto
  then show ?thesis using fwm.get_ok manage_accounting [OF assms(1)] by blast
qed

lemma generateFwmarkService_Some:
  "GetAllocatedFwmark m (getAddressString up) = Inr w \<Longrightarrow>
     \<exists>s. generateFwmarkService u m up = Some s \<and> GetFwmark (GetIpvsService (bs_LbService s)) = w \<and>
       map us_Hostname (bs_Upstreams s) = [us_Hostname up] \<and> map us_Weight (bs_Upstreams s) = [ba_weightUp u]"
  by (simp add: generateFwmarkService_def GetFwmark_def)

lemma map_filter_total: "(\<forall>x\<in>set xs. f x \<noteq> None) \<Longrightarrow> List.map_filter f xs = map (\<lambda>x. the (f x)) xs"
  by (induction xs) (auto simp: List.map_filter_simps)

text \<open>The mark of each fwmark service is the mark of its upstream's address, so no mark is used twice.\<close>

lemma fwmark_services:
  assumes room: "fwmark_room u ups m" and "m' = manageFwmarkAllocations u ups m" and "ba_weightUp v = ba_weightUp u"
  shows "length (List.map_filter (generateFwmarkService v m') ups) = length ups \<and>
    distinct (map (\<lambda>s. GetFwmark (GetIpvsService (bs_LbService s))) (List.map_filter (generateFwmarkService v m') ups))"
proof -
  let ?mark = "\<lambda>up. projr (GetAllocatedFwmark m' (getAddressString up))"
  have ok: "fm_ok m'" using manage_accounting [OF room] assms(2) by simp
  have get: "GetAllocatedFwmark m' (getAddressString up) = Inr (?mark up)" if "up \<in> set ups" for up
    using manage_all_marked [OF room, of "getAddressString up"] that assms(2) by (auto simp: addrs_def is_ok_iff)
  have some: "generateFwmarkService v m' up \<noteq> None \<and>
      GetFwmark (GetIpvsService (bs_LbService (the (generateFwmarkService v m' up)))) = ?mark up" if "up \<in> set ups" for up
    using generateFwmarkService_Some [OF get [OF that], of v] by auto
  then have eq: "List.map_filter (generateFwmarkService v m') ups = map (\<lambda>x. the (generateFwmarkService v m' x)) ups"
    by (simp add: map_filter_total)
  have d: "distinct ups" and inj: "inj_on getAddressString (set ups)"
    using room by (auto simp: fwmark_room_def addrs_def distinct_map)
  have "inj_on ?mark (set ups)"
  proof (rule inj_onI)
    fix x y
    assume x: "x \<in> set ups" and y: "y \<in> set ups" and "?mark x = ?mark y"
    then have "getAddressString x = getAddressString y" using fwm.get_inj [OF ok get [OF x]] get [OF y] by simp
    with inj x y show "x = y" by (simp add: inj_on_def)
  qed
  with d have "distinct (map ?mark ups)" by (simp add: distinct_map)
  moreover have "map (\<lambda>s. GetFwmark (GetIpvsService (bs_LbService s))) (map (\<lambda>x. the (generateFwmarkService v m' x)) ups) = map ?mark ups"
    using some by simp
  ultimately show ?thesis unfolding eq by (metis length_map)
qed

subsection \<open>A sample balancer\<close>

definition sample_checker :: "BalancerConfig \<Rightarrow> HealthCheckerAttributes result" where
  "sample_checker = Checker (Inr ''host'') [10, 0, 0, 9] []"

definition sample_ba :: Balancer where
  "sample_ba = projr (newBalancer sample_checker sample_tcp)"

lemma sample_vip: "GetVipFromLbService (bc_LbService sample_tcp) = Inr (dotted [10, 0, 0, 1], 80)"
  by (simp add: sample_defs GetVipFromLbService_def KglbAddrToNetIp_def ParseIP_dotted IP_String_def)

lemma sample_new: "newBalancer sample_checker sample_tcp = Inr sample_ba"
proof -
  have "is_ok (newBalancer sample_checker sample_tcp)"
    unfolding newBalancer_def sample_vip
    by (simp add: Let_def) (simp add: sample_defs Factory_Resolver_def sample_checker_def Checker_def NewHealthChecker_def
        NewDummyChecker_def NewHealthManager_def Update_result Let_def is_ok_iff)
  then show ?thesis by (auto simp: sample_ba_def is_ok_iff)
qed

lemma sample_ba_reach: "ba_reach sample_ba"
  using sample_new by (rule ba_new)

lemma newBalancer_fields:
  "newBalancer C conf = Inr u \<Longrightarrow> ba_config u = conf \<and> ba_initialState u \<and> ba_updatesConf u = False \<and>
     ba_weightUp u = (if bc_WeightUp conf = 0 then DefaultWeightUp else bc_WeightUp conf) \<and>
     ba_state u = \<lparr>cb_States = [], cb_AliveRatio = 0, cb_InitialState = True\<rparr>"
  by (auto simp: newBalancer_def Let_def split: prod.splits)

lemma sample_ba_fields [simp]:
  "ba_config sample_ba = sample_tcp" "ba_weightUp sample_ba = 1" "ba_initialState sample_ba"
  "ba_state sample_ba = \<lparr>cb_States = [], cb_AliveRatio = 0, cb_InitialState = True\<rparr>"
  using newBalancer_fields [OF sample_new] by (simp_all add: sample_defs)

definition sample_entry :: "string \<Rightarrow> bool \<Rightarrow> healthStatusEntry HealthManagerEntry" where
  "sample_entry host healthy =
     \<lparr>he_HostPort = NewHostPort host 80 True, he_Status = NewHealthStatusEntry healthy, he_Enabled = False\<rparr>"

definition sample_dns :: "string \<Rightarrow> AddressFamily \<Rightarrow> IP option result" where
  "sample_dns host af = (if host = ''bad'' then fail ''NXDOMAIN'' else Inr (Some (IP (Some (IP_Ipv4 host)))))"

lemmas sample_eval = sample_entry_def sample_dns_def NewHostPort_def NewHealthStatusEntry_def

lemma sample_update:
  "\<exists>u m. updateState sample_dns [sample_entry ''h1'' True, sample_entry ''h2'' False] (sample_ba, m0) = (True, u, m)"
proof -
  obtain ups where "upstreamLoop sample_dns sample_ba [sample_entry ''h1'' True, sample_entry ''h2'' False] = Some ups"
    by (simp add: sample_eval)
  from updateState_Some [OF this] show ?thesis by (simp add: Let_def)
qed

text \<open>The same balancer after discovery and two successful checks of its upstream.\<close>

definition sample_ba2 :: Balancer where
  "sample_ba2 = sample_ba\<lparr>ba_healthMng :=
     healthCheckLoop_event (HealthCheckTick (\<lambda>i a p. Inr ()) [0])
       (healthCheckLoop_event (HealthCheckTick (\<lambda>i a p. Inr ()) [0])
         (healthCheckLoop_event (ResolverState None [NewHostPort ''h1'' 80 True]) (ba_healthMng sample_ba)))\<rparr>"

lemma sample_ba2_reach: "ba_reach sample_ba2"
proof -
  let ?u = "\<lambda>u ev. u\<lparr>ba_healthMng := healthCheckLoop_event ev (ba_healthMng u)\<rparr>"
  have "ba_reach (?u (?u (?u sample_ba (ResolverState None [NewHostPort ''h1'' 80 True]))
      (HealthCheckTick (\<lambda>i a p. Inr ()) [0])) (HealthCheckTick (\<lambda>i a p. Inr ()) [0]))"
    by (intro ba_health sample_ba_reach)
  then show ?thesis by (simp add: sample_ba2_def)
qed

lemma newBalancer_hm:
  "newBalancer C conf = Inr u \<Longrightarrow> GetVipFromLbService (bc_LbService conf) = Inr (vip, port) \<Longrightarrow>
     \<exists>r c. NewHealthManager (Some r) (Some (Some c)) (bc_UpstreamChecker conf) (getAddressFamilyFromVip vip) False =
       Inr (ba_healthMng u)"
  by (auto simp: newBalancer_def Let_def) blast

lemma sample_ba_hm:
  "\<exists>r c. ba_healthMng sample_ba = \<lparr>hm_AddressFamily = AF_INET, hm_InitialHealthyState = False, hm_statuses = [],
     hm_state = [], hm_lastUpdateState = [], hm_updateChan = None, hm_updateChanClosed = False,
     hm_updateConfChan = True, hm_riseCount = 2, hm_fallCount = 3, hm_interval = 1000, hm_concurrencyLimit = 1,
     hm_checker = c, hm_resolver = r, hm_initialStateSent = False, hm_initialResolverStateRecv = False\<rparr>"
proof -
  have "getAddressFamilyFromVip (dotted [10, 0, 0, 1]) = AF_INET"
    by (simp add: getAddressFamilyFromVip_def ParseIP_dotted)
  then show ?thesis
    using newBalancer_hm [OF sample_new sample_vip] by (auto simp: Let_def sample_defs NewHealthManager_def Update_result intro: sym)
qed

lemma sample_loop:
  "\<exists>u m. updateLoop_event sample_dns HealthUpdate (sample_ba2, m0) = (True, u, m) \<and>
     \<not> cb_InitialState (ba_state u) \<and> oldUpstreams (ba_state u) \<noteq> []"
proof -
  obtain r c where hm: "ba_healthMng sample_ba = \<lparr>hm_AddressFamily = AF_INET, hm_InitialHealthyState = False, hm_statuses = [],
     hm_state = [], hm_lastUpdateState = [], hm_updateChan = None, hm_updateChanClosed = False,
     hm_updateConfChan = True, hm_riseCount = 2, hm_fallCount = 3, hm_interval = 1000, hm_concurrencyLimit = 1,
     hm_checker = c, hm_resolver = r, hm_initialStateSent = False, hm_initialResolverStateRecv = False\<rparr>"
    using sample_ba_hm by blast
  let ?st = "[\<lparr>he_HostPort = NewHostPort ''h1'' 80 True, he_Status = \<lparr>hs_isHealthy = True, hs_healthCount = 2\<rparr>, he_Enabled = False\<rparr>]"
  have chan: "hm_updateChan (ba_healthMng sample_ba2) = Some ?st" "hm_lastUpdateState (ba_healthMng sample_ba2) = ?st"
    by (simp_all add: sample_ba2_def hm applyResolverState_def resolveHostPort_def healthCheckRound_def
        performHealthChecks_def checkTask_def notifyStateChange_def UpdateHealthCheckStatus_def NewHealthStatusEntry_def
        NewHostPort_def Clone_def State_Equal_def Let_def)
  let ?u = "sample_ba2\<lparr>ba_healthMng := (ba_healthMng sample_ba2)\<lparr>hm_updateChan := None\<rparr>\<rparr>"
  have f: "ba_config ?u = sample_tcp" "ba_weightUp ?u = 1" "ba_initialState ?u" by (simp_all add: sample_ba2_def)
  obtain ups where ups: "upstreamLoop sample_dns ?u ?st = Some ups" by (simp add: sample_dns_def NewHostPort_def)
  have "AliveUpstreamsRatio ups \<noteq> 0" "ups \<noteq> []"
    using loop_alive [OF ups] f upstreamLoop_Some(1) [OF ups] by (auto simp: NewHostPort_def)
  then show ?thesis
    by (simp add: chan HealthManager_GetState_def Let_def updateState_Some [OF ups] oldUpstreams_def failsafe_upstreams_def)
qed

subsection \<open>Properties\<close>

text \<open>
  C12: The weights a balancer publishes. Hosts that discovery disabled are left out. As long as no
  upstream has ever been healthy every weight is 0 and the balancer stays in its initial state;
  otherwise a healthy upstream has the configured weight and an unhealthy one 0, except that when
  none is healthy all of them get the configured weight (failsafe).
\<close>

theorem balancer_weights:
  assumes "ba_reach u" and "updateState dns st (u, m) = (True, u', m')"
  shows "map us_Hostname (oldUpstreams (ba_state u')) = map (\<lambda>e. hp_Host (he_HostPort e)) (enabled_entries st) \<and>
    map us_Weight (oldUpstreams (ba_state u')) =
      map (\<lambda>e. if hs_isHealthy (he_Status e) \<or> \<not> ba_initialState u \<and> \<not> any_healthy st then ba_weightUp u else 0)
        (enabled_entries st) \<and>
    (cb_InitialState (ba_state u') \<longleftrightarrow> ba_initialState u \<and> \<not> any_healthy st)"
proof -
  have w: "ba_weightUp u \<noteq> 0" using ba_reach_inv [OF assms(1)] by (simp add: ba_inv_def)
  obtain ups where ups: "upstreamLoop dns u st = Some ups"
    using assms(2) by (cases "upstreamLoop dns u st") (simp_all add: updateState_def [of _ _ "(u, m)"])
  have st: "oldUpstreams (ba_state u') = failsafe_upstreams u ups"
    "cb_InitialState (ba_state u') \<longleftrightarrow> ba_initialState u \<and> AliveUpstreamsRatio ups = 0"
    using assms(2) by (auto simp: updateState_Some [OF ups] Let_def oldUpstreams_def)
  moreover have "map us_Hostname (failsafe_upstreams u ups) = map us_Hostname ups"
    by (simp add: failsafe_upstreams_def)
  ultimately show ?thesis
    using upstreamLoop_Some(1) [OF ups] failsafe_weights [OF ups w] loop_alive [OF ups w] ratio_zero [of ups] by simp
qed

theorem balancer_weights_witness:
  "\<exists>u m. updateState sample_dns [sample_entry ''h1'' True, sample_entry ''h2'' False] (sample_ba, NewManager 10 1) = (True, u, m) \<and>
     map us_Weight (oldUpstreams (ba_state u)) = [1, 0] \<and> \<not> cb_InitialState (ba_state u)"
proof -
  obtain u m where um:
    "updateState sample_dns [sample_entry ''h1'' True, sample_entry ''h2'' False] (sample_ba, NewManager 10 1) = (True, u, m)"
    using sample_update by blast
  from balancer_weights [OF sample_ba_reach um] um show ?thesis by (auto simp: sample_eval)
qed

text \<open>
  C11: Failsafe. In every reachable state of a balancer that has left its initial state and has
  upstreams, its alive ratio is positive, so some upstream takes traffic; and while it is in the
  initial state the ratio is 0. The flag it publishes is its own.
\<close>

theorem balancer_failsafe:
  assumes "ba_reach u"
  shows "(\<not> cb_InitialState (Balancer_GetState u) \<and> oldUpstreams (Balancer_GetState u) \<noteq> [] \<longrightarrow>
      cb_AliveRatio (Balancer_GetState u) > 0 \<and> (\<exists>up\<in>set (oldUpstreams (Balancer_GetState u)). us_Weight up \<noteq> 0)) \<and>
    (cb_InitialState (Balancer_GetState u) \<longrightarrow> cb_AliveRatio (Balancer_GetState u) = 0)"
  using ba_reach_inv [OF assms] alive_weights [of "oldUpstreams (ba_state u)"]
  by (auto simp: ba_inv_def Balancer_GetState_def)

theorem balancer_failsafe_witness:
  "\<exists>u. ba_reach u \<and> \<not> cb_InitialState (Balancer_GetState u) \<and> oldUpstreams (Balancer_GetState u) \<noteq> [] \<and>
     cb_AliveRatio (Balancer_GetState u) > 0"
proof -
  obtain u m where u: "updateLoop_event sample_dns HealthUpdate (sample_ba2, NewManager 10 1) = (True, u, m)"
    and st: "\<not> cb_InitialState (ba_state u)" "oldUpstreams (ba_state u) \<noteq> []"
    using sample_loop by blast
  have "ba_reach u" using sample_ba2_reach u by (rule ba_loop)
  with balancer_failsafe [OF this] st show ?thesis by (auto simp: Balancer_GetState_def)
qed

text \<open>
  C22: A host that does not resolve freezes the balancer: the published states and the firewall marks
  stay as they are, nothing is sent, and the retry timer leads to another attempt with the health
  manager's state of that time.
\<close>

theorem dns_failure_keeps_state:
  assumes "e \<in> set st" and "hp_Enabled (he_HostPort e)"
    and "\<not> is_ok (dns (hp_Host (he_HostPort e)) (resolveFamily (ba_config u)))"
  shows "\<exists>u'. updateState dns st (u, m) = (False, u', m) \<and> Balancer_GetState u' = Balancer_GetState u \<and>
    updateLoop_event dns' ConfSignal (snd (updateLoop_event dns' RetryTimer (u', m))) =
      updateState dns' (HealthManager_GetState (ba_healthMng u))
        (u\<lparr>ba_retryTimer := False, ba_updatesConf := False\<rparr>, m)"
proof -
  have "upstreamLoop dns u st = None" using assms by (auto simp: upstreamLoop_None)
  then show ?thesis by (simp add: updateState_def Balancer_GetState_def)
qed

theorem dns_failure_keeps_state_witness:
  "\<exists>u'. updateState sample_dns [sample_entry ''bad'' True] (sample_ba, NewManager 10 1) = (False, u', NewManager 10 1) \<and>
     Balancer_GetState u' = Balancer_GetState sample_ba"
  using dns_failure_keeps_state [of "sample_entry ''bad'' True" "[sample_entry ''bad'' True]" sample_dns sample_ba "NewManager 10 1" sample_dns]
  by (auto simp: sample_eval)


definition sample_up :: "string \<Rightarrow> UpstreamState" where
  "sample_up a = \<lparr>us_Address = Some (IP (Some (IP_Ipv4 a))), us_Port = 80, us_Hostname = a, us_Weight = 1, us_ForwardMethod = TUNNEL\<rparr>"

lemma sample_up_addr [simp]: "getAddressString (sample_up a) = a"
  by (simp add: sample_up_def getAddressString_def)

lemma sample_room: "fwmark_room sample_ba [sample_up ''a'', sample_up ''b''] (NewManager 3 1)"
proof -
  have "length (all_marks (NewManager 3 1)) = 3" by (simp add: all_marks_def NewManager_def poolLoop.simps)
  then show ?thesis by (simp add: fwmark_room_def addrs_def oldUpstreams_def fm_ok_def max_refs_def)
qed




text \<open>
  Switching \<open>enable_fwmarks\<close> on for a running balancer has no effect while its addresses stay
  the same: addresses that were upstreams before get no mark, so no fwmark service is generated and
  tunnelled health checks have nothing to go through.
\<close>

theorem fwmarks_enabled_late:
  assumes "set (addrs ups) = set (addrs (oldUpstreams (ba_state u)))"
    and "\<forall>a\<in>set (addrs ups). \<not> is_ok (GetAllocatedFwmark m a)"
  shows "manageFwmarkAllocations u ups m = m \<and> List.map_filter (generateFwmarkService u m) ups = []"
proof -
  have "filter (\<lambda>a. a \<notin> set (addrs ups)) (addrs (oldUpstreams (ba_state u))) = []"
    "filter (\<lambda>a. a \<notin> set (addrs (oldUpstreams (ba_state u)))) (addrs ups) = []"
    using assms(1) by (simp_all add: filter_empty_conv)
  then have "manageFwmarkAllocations u ups m = m" by (simp add: manage_folds)
  moreover have "\<forall>up\<in>set ups. generateFwmarkService u m up = None"
    using assms(2) by (auto simp: addrs_def generateFwmarkService_def is_ok_iff split: sum.splits)
  then have "List.map_filter (generateFwmarkService u m) ups = []"
    by (induction ups) (simp_all add: List.map_filter_simps)
  ultimately show ?thesis by blast
qed

theorem fwmarks_enabled_late_witness:
  "List.map_filter (generateFwmarkService sample_ba (NewManager 3 1)) [] = [] \<and>
   (let u = sample_ba\<lparr>ba_state := (ba_state sample_ba)\<lparr>cb_States := [\<lparr>bs_Name = [], bs_LbService = None, bs_Upstreams = [sample_up ''a'']\<rparr>]\<rparr>\<rparr>
    in List.map_filter (generateFwmarkService u (NewManager 3 1)) [sample_up ''a''] = [])"
  using fwmarks_enabled_late [of "[sample_up ''a'']" "sample_ba\<lparr>ba_state := (ba_state sample_ba)\<lparr>cb_States := [\<lparr>bs_Name = [], bs_LbService = None, bs_Upstreams = [sample_up ''a'']\<rparr>]\<rparr>\<rparr>" "NewManager 3 1"]
  by (simp add: addrs_def oldUpstreams_def GetAllocatedFwmark_def NewManager_def List.map_filter_simps)

end
