(* ===== verification/Servicer.thy ===== *)
theory Servicer
  imports Balancer
begin

section \<open>kglb/control\_plane: servicer.go\<close>

text \<open>
  The servicer owns the balancers, generates the data plane state out of their states and pushes it.
  Its loop \<open>startBackgroundPusher\<close> is one goroutine; the cases of its select and the steps of the
  balancers' own goroutines are the events of the model. The channel from the balancers has one slot
  and only its being full matters, so it is a flag. The data plane client is a parameter: an
  operation on some world. Maps are ranged over in the orders \<open>r\<close> gives. The hash per setup that
  the source reports as a gauge is kept in the state; other metrics are left out.
\<close>

subsection \<open>State\<close>

record ControlPlaneServicer =
  cs_config :: "ControlPlaneConfig option"
  cs_balancersUpdatesChan :: bool
  cs_balancers :: "(string, Balancer) gomap"
  cs_state :: "DataPlaneState option"
  cs_hashes :: "(string, u64) gomap"
  cs_FwmarkManager :: Manager
  cs_AfterInitHandler :: bool
  cs_handlerCalls :: nat
  cs_initialState :: bool

definition newControlPlaneServicer :: "Manager \<Rightarrow> bool \<Rightarrow> ControlPlaneServicer" where
  "newControlPlaneServicer fwmarkManager handler =
     \<lparr>cs_config = None, cs_balancersUpdatesChan = False, cs_balancers = [], cs_state = None, cs_hashes = [],
      cs_FwmarkManager = fwmarkManager, cs_AfterInitHandler = handler, cs_handlerCalls = 0, cs_initialState = True\<rparr>"

definition GetConfiguration :: "ControlPlaneServicer \<Rightarrow> DataPlaneState option" where
  "GetConfiguration s = cs_state s"

subsection \<open>updateConfig\<close>

definition configBalancer ::
  "(BalancerConfig \<Rightarrow> HealthCheckerAttributes result) \<Rightarrow> BalancerConfig \<Rightarrow> (ControlPlaneServicer, unit) act" where
  "configBalancer CheckerFactory balancerConfig = (\<lambda>s.
     case GetKeyFromBalancerConfig balancerConfig of
       Inl e \<Rightarrow> (Inl e, s)
     | Inr key \<Rightarrow>
         (case map_of (cs_balancers s) key of
            Some balancer \<Rightarrow>
              (let (res, balancer') = Balancer_Update CheckerFactory balancerConfig balancer
               in (res, s\<lparr>cs_balancers := AList.update key balancer' (cs_balancers s)\<rparr>))
          | None \<Rightarrow>
              (case newBalancer CheckerFactory balancerConfig of
                 Inl e \<Rightarrow> (Inl e, s)
               | Inr balancer \<Rightarrow> (Inr (), s\<lparr>cs_balancers := AList.update key balancer (cs_balancers s)\<rparr>))))"

fun configHasKey :: "string \<Rightarrow> BalancerConfig list \<Rightarrow> bool result" where
  "configHasKey balancerId [] = Inr False"
| "configHasKey balancerId (balancerConfig # cs) =
     bind_r (GetKeyFromBalancerConfig balancerConfig) (\<lambda>key.
       if balancerId = key then Inr True else configHasKey balancerId cs)"

text \<open>The balancers that are gone are closed and deleted; \<open>Close\<close> only stops their goroutines.\<close>

definition shutdownBalancer :: "BalancerConfig list \<Rightarrow> string \<times> Balancer \<Rightarrow> (ControlPlaneServicer, unit) act" where
  "shutdownBalancer confs entry = (\<lambda>s.
     case configHasKey (fst entry) confs of
       Inl e \<Rightarrow> (Inl e, s)
     | Inr found \<Rightarrow>
         if \<not> found then (Inr (), s\<lparr>cs_balancers := AList.delete (fst entry) (cs_balancers s)\<rparr>)
         else (Inr (), s))"

definition updateConfig ::
  "(BalancerConfig \<Rightarrow> HealthCheckerAttributes result) \<Rightarrow> (string \<times> Balancer) range_order \<Rightarrow> ControlPlaneConfig
    \<Rightarrow> (ControlPlaneServicer, unit) act" where
  "updateConfig CheckerFactory r config =
     bind_a (each_a (configBalancer CheckerFactory) (cp_Balancers config)) (\<lambda>_.
     bind_a (\<lambda>s. each_a (shutdownBalancer (cp_Balancers config)) (r 0 (cs_balancers s)) s) (\<lambda>_.
     (\<lambda>s. (Inr (), s\<lparr>cs_config := Some config\<rparr>))))"

subsection \<open>Link addresses and routes\<close>

definition stateVip :: "BalancerState \<Rightarrow> IP option option result" where
  "stateVip state =
     (case GetIpvsService (bs_LbService state) of
        None \<Rightarrow> nilDeref
      | Some service \<Rightarrow>
          (case ipvs_Attributes service of
             Some (TcpAttributes a) \<Rightarrow> Inr (Some (Option.bind a tcp_Address))
           | Some (UdpAttributes a) \<Rightarrow> Inr (Some (Option.bind a udp_Address))
           | Some (FwmarkAttributes _) \<Rightarrow> Inr None
           | None \<Rightarrow> Inr (Some None)))"

fun linkAddrLoop ::
  "(IP option \<Rightarrow> string) \<Rightarrow> BalancerState list \<Rightarrow> (string, LinkAddress) gomap \<Rightarrow> (string, LinkAddress) gomap result" where
  "linkAddrLoop ip_text [] addrMap = Inr addrMap"
| "linkAddrLoop ip_text (state # states) addrMap =
     bind_r (stateVip state) (\<lambda>vip_opt.
       case vip_opt of
         None \<Rightarrow> linkAddrLoop ip_text states addrMap
       | Some vip \<Rightarrow>
           (if map_of addrMap (ip_text vip) = None
            then linkAddrLoop ip_text states
                   (AList.update (ip_text vip) \<lparr>la_LinkName = LoopbackLinkName, la_Address = vip\<rparr> addrMap)
            else linkAddrLoop ip_text states addrMap))"

definition generateLinkAddrs ::
  "(IP option \<Rightarrow> string) \<Rightarrow> (string \<times> Balancer) range_order \<Rightarrow> (string \<times> LinkAddress) range_order
    \<Rightarrow> ControlPlaneServicer \<Rightarrow> LinkAddress list result" where
  "generateLinkAddrs ip_text r rl s =
     bind_r (linkAddrLoop ip_text
              (concat (map (\<lambda>(_, balancer). cb_States (Balancer_GetState balancer)) (r 0 (cs_balancers s)))) [])
       (\<lambda>addrMap. Inr (map snd (rl 0 addrMap)))"

definition routeNet :: "BgpRouteAttributes option \<Rightarrow> ip_net option" where
  "routeNet route = ParseCIDR (IP_String (KglbAddrToNetIp (GetPrefix route)) @ ''/'' @ dec (unat (GetPrefixlen route)))"

fun isProhibited :: "ip_net \<Rightarrow> BgpRouteAttributes option list \<Rightarrow> bool result" where
  "isProhibited allowedNet [] = Inr False"
| "isProhibited allowedNet (prohibitedRoute # routes) =
     (case routeNet prohibitedRoute of
        None \<Rightarrow> Inl (Wrap (New ''invalid CIDR address'') ''fails to parse route'')
      | Some prohibitedNet \<Rightarrow>
          if IPNet_Contains prohibitedNet (fst allowedNet) then Inr True else isProhibited allowedNet routes)"

fun routeLoop ::
  "BgpRouteAttributes option list \<Rightarrow> BgpRouteAttributes option list \<Rightarrow> string set \<Rightarrow> DynamicRoute list result" where
  "routeLoop prohibitedRoutes [] resultMap = Inr []"
| "routeLoop prohibitedRoutes (allowedRoute # routes) resultMap =
     (case routeNet allowedRoute of
        None \<Rightarrow> Inl (Wrap (New ''invalid CIDR address'') ''fails to parse route'')
      | Some allowedNet \<Rightarrow>
          bind_r (isProhibited allowedNet prohibitedRoutes) (\<lambda>found.
            if \<not> found \<and> IPNet_String allowedNet \<notin> resultMap
            then bind_r (routeLoop prohibitedRoutes routes (insert (IPNet_String allowedNet) resultMap)) (\<lambda>result.
                   Inr (\<lparr>dr_Attributes = Some (DynamicRoute_Bgp allowedRoute)\<rparr> # result))
            else routeLoop prohibitedRoutes routes resultMap))"

definition generateRoutes ::
  "BgpRouteAttributes option list \<Rightarrow> BgpRouteAttributes option list \<Rightarrow> DynamicRoute list result" where
  "generateRoutes allowedRoutes prohibitedRoutes = routeLoop prohibitedRoutes allowedRoutes {}"

subsection \<open>GenerateDataPlaneState\<close>

text \<open>\<open>fnv.New64\<close> is FNV-1 with 64 bits.\<close>

definition fnv64 :: "string \<Rightarrow> u64" where
  "fnv64 s = fold (\<lambda>c h. (h * 1099511628211) XOR of_nat (of_char c)) s 14695981039346656037"

definition perUpstreamHash :: "string \<Rightarrow> u32 \<Rightarrow> u64" where
  "perUpstreamHash s u = fnv64 (s @ ''_'' @ dec (unat u))"

record genState =
  gs_Balancers :: "BalancerState list"
  gs_existingFwmarks :: "u32 set"
  gs_hashes :: "(string, u64) gomap"
  gs_allowed :: "BgpRouteAttributes option list"
  gs_prohibited :: "BgpRouteAttributes option list"
  gs_stateless :: nat

definition addHash :: "string \<Rightarrow> u64 \<Rightarrow> (string, u64) gomap \<Rightarrow> (string, u64) gomap" where
  "addHash setup h m = AList.update setup ((case map_of m setup of None \<Rightarrow> 0 | Some v \<Rightarrow> v) + h) m"

definition genBalancerState :: "string \<Rightarrow> BalancerState \<Rightarrow> genState \<Rightarrow> genState" where
  "genBalancerState setup state g =
     (let fwm = GetFwmark (GetIpvsService (bs_LbService state)) in
      if fwm > 0 then
        (if fwm \<in> gs_existingFwmarks g then g
         else g\<lparr>gs_existingFwmarks := insert fwm (gs_existingFwmarks g), gs_Balancers := gs_Balancers g @ [state]\<rparr>)
      else
        g\<lparr>gs_hashes := fold (\<lambda>upstream. addHash setup (perUpstreamHash (us_Hostname upstream @ bs_Name state) (us_Weight upstream)))
             (bs_Upstreams state) (gs_hashes g),
          gs_Balancers := gs_Balancers g @ [state]\<rparr>)"

definition announces :: "Balancer \<Rightarrow> bool" where
  "announces balancer =
     (let balancerState = Balancer_GetState balancer;
          routing = bc_DynamicRouting (Balancer_GetConfig balancer);
          confRatio = (case routing of None \<Rightarrow> F32 0 | Some d \<Rightarrow> drt_AnnounceLimitRatio d)
      in GetRoutingBgp routing \<noteq> None \<and> \<not> cb_InitialState balancerState \<and>
         f32_less (F32 0) (F32 (cb_AliveRatio balancerState)) \<and> f32_ge (F32 (cb_AliveRatio balancerState)) confRatio)"

definition genBalancer :: "Balancer \<Rightarrow> genState \<Rightarrow> genState" where
  "genBalancer balancer g =
     (let balancerState = Balancer_GetState balancer;
          balancerConfig = Balancer_GetConfig balancer;
          bgp = GetRoutingBgp (bc_DynamicRouting balancerConfig);
          g1 = fold (genBalancerState (bc_SetupName balancerConfig)) (cb_States balancerState) g;
          g2 = (if length (cb_States balancerState) = 0 then g1\<lparr>gs_stateless := gs_stateless g1 + 1\<rparr> else g1)
      in if announces balancer then g2\<lparr>gs_allowed := gs_allowed g2 @ [bgp]\<rparr>
         else g2\<lparr>gs_prohibited := gs_prohibited g2 @ [bgp]\<rparr>)"

definition genAll :: "(string \<times> Balancer) list \<Rightarrow> genState" where
  "genAll entries = fold (\<lambda>(_, balancer). genBalancer balancer) entries
     \<lparr>gs_Balancers = [], gs_existingFwmarks = {}, gs_hashes = [], gs_allowed = [], gs_prohibited = [], gs_stateless = 0\<rparr>"

definition setStatesHashes :: "(string, u64) gomap \<Rightarrow> ControlPlaneServicer \<Rightarrow> ControlPlaneServicer" where
  "setStatesHashes hashes s = s\<lparr>cs_hashes := fold (\<lambda>(k, v). AList.update k v) hashes (cs_hashes s)\<rparr>"

definition GenerateDataPlaneState ::
  "(IP option \<Rightarrow> string) \<Rightarrow> (string \<times> Balancer) range_order \<Rightarrow> (string \<times> LinkAddress) range_order
    \<Rightarrow> (ControlPlaneServicer, DataPlaneState) act" where
  "GenerateDataPlaneState ip_text r rl = (\<lambda>s.
     let g = genAll (r 0 (cs_balancers s));
         s1 = setStatesHashes (gs_hashes g) s
     in case generateRoutes (gs_allowed g) (gs_prohibited g) of
          Inl e \<Rightarrow> (Inl e, s1)
        | Inr routes \<Rightarrow>
            (case generateLinkAddrs ip_text (\<lambda>i. r (Suc i)) rl s1 of
               Inl e \<Rightarrow> (Inl e, s1)
             | Inr linkAddresses \<Rightarrow>
                 (let result = \<lparr>dp_Balancers = gs_Balancers g, dp_DynamicRoutes = routes, dp_LinkAddresses = linkAddresses\<rparr>
                  in case ValidateDataPlaneState ip_text result of
                       Inl e \<Rightarrow> (Inl e, s1)
                     | Inr _ \<Rightarrow>
                         (Inr result, if gs_stateless g = 0 then s1\<lparr>cs_initialState := False\<rparr> else s1))))"

subsection \<open>startBackgroundPusher\<close>

definition applyDataPlaneState ::
  "(DataPlaneState \<Rightarrow> ('w, unit) act) \<Rightarrow> DataPlaneState \<Rightarrow> (ControlPlaneServicer \<times> 'w, unit) act" where
  "applyDataPlaneState Set state = (\<lambda>(s, w).
     case Set state w of
       (Inl e, w') \<Rightarrow> (Inl e, (s, w'))
     | (Inr _, w') \<Rightarrow>
         (Inr (),
          (if \<not> cs_initialState s \<and> cs_AfterInitHandler s
           then s\<lparr>cs_handlerCalls := cs_handlerCalls s + 1, cs_AfterInitHandler := False\<rparr> else s, w')))"

text \<open>The balancer of a key runs its own loop; a state it sends fills the channel.\<close>

definition balancerStep ::
  "(string \<Rightarrow> AddressFamily \<Rightarrow> IP option result) \<Rightarrow> string \<Rightarrow> balancer_event \<Rightarrow> ControlPlaneServicer \<Rightarrow> ControlPlaneServicer" where
  "balancerStep dns key ev s =
     (case map_of (cs_balancers s) key of
        None \<Rightarrow> s
      | Some balancer \<Rightarrow>
          (let (sent, balancer', m) = updateLoop_event dns ev (balancer, cs_FwmarkManager s)
           in s\<lparr>cs_balancers := AList.update key balancer' (cs_balancers s), cs_FwmarkManager := m,
                cs_balancersUpdatesChan := cs_balancersUpdatesChan s \<or> sent\<rparr>))"

definition healthStep :: "string \<Rightarrow> hm_event \<Rightarrow> ControlPlaneServicer \<Rightarrow> ControlPlaneServicer" where
  "healthStep key hev s =
     (case map_of (cs_balancers s) key of
        None \<Rightarrow> s
      | Some balancer \<Rightarrow>
          s\<lparr>cs_balancers := AList.update key
              (balancer\<lparr>ba_healthMng := healthCheckLoop_event hev (ba_healthMng balancer)\<rparr>) (cs_balancers s)\<rparr>)"

datatype pusher_event =
  ConfigUpdate ControlPlaneConfig
| Ticker
| BalancersUpdate
| BalancerStep "string \<Rightarrow> AddressFamily \<Rightarrow> IP option result" string balancer_event
| HealthStep string hm_event

fun pusherStep ::
  "(BalancerConfig \<Rightarrow> HealthCheckerAttributes result) \<Rightarrow> (IP option \<Rightarrow> string) \<Rightarrow> (DataPlaneState \<Rightarrow> ('w, unit) act)
    \<Rightarrow> (string \<times> Balancer) range_order \<Rightarrow> (string \<times> LinkAddress) range_order \<Rightarrow> pusher_event
    \<Rightarrow> ControlPlaneServicer \<times> 'w \<Rightarrow> ControlPlaneServicer \<times> 'w" where
  "pusherStep CF ip_text Set r rl (ConfigUpdate config) (s, w) = (snd (updateConfig CF r config s), w)"
| "pusherStep CF ip_text Set r rl Ticker (s, w) =
     (case cs_state s of None \<Rightarrow> (s, w) | Some state \<Rightarrow> snd (applyDataPlaneState Set state (s, w)))"
| "pusherStep CF ip_text Set r rl BalancersUpdate (s, w) =
     (if cs_balancersUpdatesChan s then
        let s1 = s\<lparr>cs_balancersUpdatesChan := False\<rparr> in
        case GenerateDataPlaneState ip_text r rl s1 of
          (Inl _, s2) \<Rightarrow> (s2, w)
        | (Inr state, s2) \<Rightarrow> snd (applyDataPlaneState Set state (s2\<lparr>cs_state := Some state\<rparr>, w))
      else (s, w))"
| "pusherStep CF ip_text Set r rl (BalancerStep dns key ev) (s, w) = (balancerStep dns key ev s, w)"
| "pusherStep CF ip_text Set r rl (HealthStep key hev) (s, w) = (healthStep key hev s, w)"

subsection \<open>Routes\<close>

lemma isProhibited_False:
  "isProhibited net ps = Inr False \<longleftrightarrow> (\<forall>p\<in>set ps. \<exists>pn. routeNet p = Some pn \<and> \<not> IPNet_Contains pn (fst net))"
  by (induction ps) (auto split: option.splits)

lemma isProhibited_True:
  "isProhibited net ps = Inr True \<Longrightarrow> \<exists>p\<in>set ps. \<exists>pn. routeNet p = Some pn \<and> IPNet_Contains pn (fst net)"
  by (induction ps) (auto split: option.splits if_splits)

definition may_announce :: "BgpRouteAttributes option list \<Rightarrow> BgpRouteAttributes option \<Rightarrow> bool" where
  "may_announce prohibited a \<longleftrightarrow>
     (\<exists>net. routeNet a = Some net \<and> (\<forall>p\<in>set prohibited. \<exists>pn. routeNet p = Some pn \<and> \<not> IPNet_Contains pn (fst net)))"

definition net_text :: "BgpRouteAttributes option \<Rightarrow> string" where
  "net_text a = IPNet_String (the (routeNet a))"

lemma GetBgpAttributes_route [simp]: "GetBgpAttributes \<lparr>dr_Attributes = Some (DynamicRoute_Bgp a)\<rparr> = a"
  by (simp add: GetBgpAttributes_def)

lemma routeLoop_sound:
  "routeLoop prohibited allowed seen = Inr routes \<Longrightarrow>
     (\<forall>route\<in>set routes. GetBgpAttributes route \<in> set allowed \<and> may_announce prohibited (GetBgpAttributes route) \<and>
        net_text (GetBgpAttributes route) \<notin> seen) \<and>
     distinct (map (net_text \<circ> GetBgpAttributes) routes) \<and>
     (\<forall>a\<in>set allowed. may_announce prohibited a \<longrightarrow>
        net_text a \<in> seen \<or> (\<exists>route\<in>set routes. net_text (GetBgpAttributes route) = net_text a)) \<and>
     (\<forall>a\<in>set allowed. routeNet a \<noteq> None)"
proof (induction allowed arbitrary: seen routes)
  case Nil
  then show ?case by simp
next
  case (Cons a allowed)
  from Cons.prems obtain net found where net: "routeNet a = Some net" and f: "isProhibited net prohibited = Inr found"
    by (auto split: option.splits)
  have nt: "net_text a = IPNet_String net" by (simp add: net_text_def net)
  show ?case
  proof (cases "\<not> found \<and> IPNet_String net \<notin> seen")
    case True
    with Cons.prems net f obtain rest where rest: "routeLoop prohibited allowed (insert (IPNet_String net) seen) = Inr rest"
      and r: "routes = \<lparr>dr_Attributes = Some (DynamicRoute_Bgp a)\<rparr> # rest"
      by auto
    have "may_announce prohibited a" using f net True isProhibited_False by (auto simp: may_announce_def)
    with Cons.IH [OF rest] True r nt net show ?thesis by (auto simp: image_iff)
  next
    case False
    with Cons.prems net f have rest: "routeLoop prohibited allowed seen = Inr routes" by auto
    have "may_announce prohibited a \<Longrightarrow> net_text a \<in> seen"
      using False f net nt isProhibited_False [of net prohibited] by (auto simp: may_announce_def)
    with Cons.IH [OF rest] net show ?thesis by auto
  qed
qed

lemma routeLoop_error:
  "a \<in> set allowed \<Longrightarrow> routeNet a = Some net \<Longrightarrow> \<not> is_ok (isProhibited net prohibited) \<Longrightarrow>
     \<not> is_ok (routeLoop prohibited allowed seen)"
proof (induction allowed arbitrary: seen)
  case (Cons x allowed)
  show ?case
  proof (cases "a \<in> set allowed")
    case True
    from Cons.IH [OF True Cons.prems(2,3)] have "\<not> is_ok (routeLoop prohibited allowed seen')" for seen' .
    then show ?thesis by (auto split: option.splits simp: is_ok_iff)
  next
    case False
    with Cons.prems show ?thesis by (auto simp: is_ok_iff)
  qed
qed simp

lemma isProhibited_error:
  "p \<in> set ps \<Longrightarrow> routeNet p = None \<Longrightarrow> \<forall>q\<in>set ps. \<forall>pn. routeNet q = Some pn \<longrightarrow> \<not> IPNet_Contains pn (fst net) \<Longrightarrow>
     \<not> is_ok (isProhibited net ps)"
  by (induction ps) (auto split: option.splits)

lemma routeNet_nil: "routeNet None = None"
proof -
  have "KglbAddrToNetIp (GetPrefix None) = []" by (simp add: KglbAddrToNetIp_def GetPrefix_def)
  then show ?thesis using ParseCIDR_nil by (simp add: routeNet_def)
qed

subsection \<open>The loop over the balancers\<close>

abbreviation balancer_bgp :: "Balancer \<Rightarrow> BgpRouteAttributes option" where
  "balancer_bgp b \<equiv> GetRoutingBgp (bc_DynamicRouting (ba_config b))"

abbreviation state_mark :: "BalancerState \<Rightarrow> u32" where
  "state_mark st \<equiv> GetFwmark (GetIpvsService (bs_LbService st))"

lemma genBalancerState_frame [simp]:
  "gs_allowed (genBalancerState setup st g) = gs_allowed g"
  "gs_prohibited (genBalancerState setup st g) = gs_prohibited g"
  "gs_stateless (genBalancerState setup st g) = gs_stateless g"
  by (simp_all add: genBalancerState_def Let_def)

lemma fold_genBalancerState_frame [simp]:
  "gs_allowed (fold (genBalancerState setup) sts g) = gs_allowed g"
  "gs_prohibited (fold (genBalancerState setup) sts g) = gs_prohibited g"
  "gs_stateless (fold (genBalancerState setup) sts g) = gs_stateless g"
  by (induction sts arbitrary: g) simp_all

lemma fold_genBalancer_routes:
  "gs_allowed (fold (\<lambda>(_, b). genBalancer b) es g) = gs_allowed g @ map balancer_bgp (filter announces (map snd es))"
  "gs_prohibited (fold (\<lambda>(_, b). genBalancer b) es g) = gs_prohibited g @ map balancer_bgp (filter (\<lambda>b. \<not> announces b) (map snd es))"
  "gs_stateless (fold (\<lambda>(_, b). genBalancer b) es g) =
     gs_stateless g + length (filter (\<lambda>b. cb_States (ba_state b) = []) (map snd es))"
  by (induction es arbitrary: g)
     (auto simp: genBalancer_def Let_def Balancer_GetState_def Balancer_GetConfig_def)

lemma genAll_routes:
  "gs_allowed (genAll es) = map balancer_bgp (filter announces (map snd es))"
  "gs_prohibited (genAll es) = map balancer_bgp (filter (\<lambda>b. \<not> announces b) (map snd es))"
  "gs_stateless (genAll es) = length (filter (\<lambda>b. cb_States (ba_state b) = []) (map snd es))"
  by (simp_all add: genAll_def fold_genBalancer_routes)

text \<open>Marks are never served twice, and no state is dropped unless its mark is served already.\<close>

definition marks_inv :: "genState \<Rightarrow> bool" where
  "marks_inv g \<longleftrightarrow>
     distinct (filter (\<lambda>w. w \<noteq> 0) (map state_mark (gs_Balancers g))) \<and>
     gs_existingFwmarks g = set (filter (\<lambda>w. w \<noteq> 0) (map state_mark (gs_Balancers g)))"

definition covers :: "genState \<Rightarrow> BalancerState \<Rightarrow> bool" where
  "covers g st \<longleftrightarrow> st \<in> set (gs_Balancers g) \<or> (state_mark st \<noteq> 0 \<and> state_mark st \<in> state_mark ` set (gs_Balancers g))"

lemma genBalancerState_marks: "marks_inv g \<Longrightarrow> marks_inv (genBalancerState setup st g)"
  by (auto simp: marks_inv_def genBalancerState_def Let_def word_gt_0)

lemma genBalancerState_covers:
  "marks_inv g \<Longrightarrow> covers (genBalancerState setup st g) st"
  "covers g st' \<Longrightarrow> covers (genBalancerState setup st g) st'"
  by (auto simp: marks_inv_def covers_def genBalancerState_def Let_def word_gt_0)

lemma genBalancerState_sub: "set (gs_Balancers (genBalancerState setup st g)) \<subseteq> insert st (set (gs_Balancers g))"
  by (auto simp: genBalancerState_def Let_def)

lemma fold_genBalancerState_marks:
  assumes "marks_inv g"
  shows "marks_inv (fold (genBalancerState setup) sts g) \<and>
    (\<forall>st. covers g st \<or> st \<in> set sts \<longrightarrow> covers (fold (genBalancerState setup) sts g) st) \<and>
    set (gs_Balancers (fold (genBalancerState setup) sts g)) \<subseteq> set sts \<union> set (gs_Balancers g)"
  using assms
proof (induction sts arbitrary: g)
  case (Cons st sts)
  let ?g = "genBalancerState setup st g"
  note IH = Cons.IH [OF genBalancerState_marks [OF Cons.prems, of "setup" st]]
  have c: "covers ?g st" "\<And>x. covers g x \<Longrightarrow> covers ?g x"
    by (simp_all add: genBalancerState_covers Cons.prems)
  have sub: "set (gs_Balancers ?g) \<subseteq> insert st (set (gs_Balancers g))" by (rule genBalancerState_sub)
  show ?case
  proof (intro conjI allI impI)
    show "marks_inv (fold (genBalancerState setup) (st # sts) g)" using IH by simp
    show "set (gs_Balancers (fold (genBalancerState setup) (st # sts) g)) \<subseteq> set (st # sts) \<union> set (gs_Balancers g)"
      using IH sub by fastforce
    show "covers (fold (genBalancerState setup) (st # sts) g) x" if "covers g x \<or> x \<in> set (st # sts)" for x
      using IH c that by (metis fold_simps(2) set_ConsD)
  qed
qed simp

lemma genBalancer_states: "gs_Balancers (genBalancer b g) = gs_Balancers (fold (genBalancerState (bc_SetupName (ba_config b))) (cb_States (ba_state b)) g)"
  "gs_existingFwmarks (genBalancer b g) = gs_existingFwmarks (fold (genBalancerState (bc_SetupName (ba_config b))) (cb_States (ba_state b)) g)"
  "gs_hashes (genBalancer b g) = gs_hashes (fold (genBalancerState (bc_SetupName (ba_config b))) (cb_States (ba_state b)) g)"
  by (simp_all add: genBalancer_def Let_def Balancer_GetState_def Balancer_GetConfig_def)

lemma genAll_marks:
  "marks_inv (genAll es) \<and> (\<forall>b\<in>snd ` set es. \<forall>st\<in>set (cb_States (ba_state b)). covers (genAll es) st) \<and>
   set (gs_Balancers (genAll es)) \<subseteq> (\<Union>b\<in>snd ` set es. set (cb_States (ba_state b)))"
proof -
  have "marks_inv g \<Longrightarrow> marks_inv (fold (\<lambda>(_, b). genBalancer b) es g) \<and>
      (\<forall>st. covers g st \<or> (\<exists>b\<in>snd ` set es. st \<in> set (cb_States (ba_state b))) \<longrightarrow> covers (fold (\<lambda>(_, b). genBalancer b) es g) st) \<and>
      set (gs_Balancers (fold (\<lambda>(_, b). genBalancer b) es g)) \<subseteq> (\<Union>b\<in>snd ` set es. set (cb_States (ba_state b))) \<union> set (gs_Balancers g)" for g
  proof (induction es arbitrary: g)
    case (Cons e es)
    obtain k b where e: "e = (k, b)" by fastforce
    let ?g = "genBalancer b g"
    have step: "marks_inv ?g" "\<And>st. covers g st \<or> st \<in> set (cb_States (ba_state b)) \<Longrightarrow> covers ?g st"
      "set (gs_Balancers ?g) \<subseteq> set (cb_States (ba_state b)) \<union> set (gs_Balancers g)"
      using fold_genBalancerState_marks [OF Cons.prems, of "bc_SetupName (ba_config b)" "cb_States (ba_state b)"]
      by (auto simp: marks_inv_def covers_def genBalancer_states)
    from Cons.IH [OF step(1)] step(2,3) show ?case unfolding e by fastforce
  qed simp
  from this [of "\<lparr>gs_Balancers = [], gs_existingFwmarks = {}, gs_hashes = [], gs_allowed = [], gs_prohibited = [], gs_stateless = 0\<rparr>"]
  show ?thesis by (auto simp: genAll_def marks_inv_def)
qed

subsection \<open>Hashes\<close>

definition hash_of :: "(string, u64) gomap \<Rightarrow> string \<Rightarrow> u64" where
  "hash_of m k = (case map_of m k of None \<Rightarrow> 0 | Some v \<Rightarrow> v)"

definition state_hash :: "BalancerState \<Rightarrow> u64" where
  "state_hash st = (if state_mark st = 0
     then sum_list (map (\<lambda>up. perUpstreamHash (us_Hostname up @ bs_Name st) (us_Weight up)) (bs_Upstreams st)) else 0)"

definition balancer_hash :: "string \<Rightarrow> Balancer \<Rightarrow> u64" where
  "balancer_hash k b = (if bc_SetupName (ba_config b) = k then sum_list (map state_hash (cb_States (ba_state b))) else 0)"

lemma hash_of_add: "hash_of (addHash k h m) k' = hash_of m k' + (if k = k' then h else 0)"
  by (simp add: hash_of_def addHash_def)

lemma hash_of_fold:
  "hash_of (fold (\<lambda>x. addHash k (f x)) xs m) k' = hash_of m k' + (if k = k' then sum_list (map f xs) else 0)"
  by (induction xs arbitrary: m) (simp_all add: hash_of_add)

lemma hash_genBalancerState:
  "hash_of (gs_hashes (genBalancerState k st g)) k' = hash_of (gs_hashes g) k' + (if k = k' then state_hash st else 0)"
  by (simp add: genBalancerState_def Let_def state_hash_def hash_of_fold word_gt_0)

lemma hash_fold_states:
  "hash_of (gs_hashes (fold (genBalancerState k) sts g)) k' =
     hash_of (gs_hashes g) k' + (if k = k' then sum_list (map state_hash sts) else 0)"
  by (induction sts arbitrary: g) (simp_all add: hash_genBalancerState)

lemma hash_genAll: "hash_of (gs_hashes (genAll es)) k = sum_list (map (balancer_hash k) (map snd es))"
proof -
  have "hash_of (gs_hashes (fold (\<lambda>(_, b). genBalancer b) es g)) k =
      hash_of (gs_hashes g) k + sum_list (map (balancer_hash k) (map snd es))" for g
    by (induction es arbitrary: g) (auto simp: genBalancer_states hash_fold_states balancer_hash_def)
  then show ?thesis by (simp add: genAll_def hash_of_def)
qed

lemma sum_list_mset: "mset xs = mset ys \<Longrightarrow> sum_list (map f xs) = (sum_list (map f ys) :: u64)"
  by (metis mset_map sum_mset_sum_list)

subsection \<open>Link addresses\<close>

definition state_vips :: "BalancerState list \<Rightarrow> IP option set" where
  "state_vips sts = {vip. \<exists>st\<in>set sts. stateVip st = Inr (Some vip)}"

lemma linkAddrLoop_sound:
  assumes "linkAddrLoop ip_text sts m = Inr m'" and "wf_map m" and "\<forall>e\<in>set m. fst e = ip_text (la_Address (snd e))"
  shows "wf_map m' \<and> (\<forall>e\<in>set m'. fst e = ip_text (la_Address (snd e))) \<and>
    fst ` set m' = fst ` set m \<union> ip_text ` state_vips sts"
  using assms
proof (induction sts arbitrary: m)
  case Nil
  then show ?case by (simp add: state_vips_def)
next
  case (Cons st sts)
  from Cons.prems(1) obtain v where v: "stateVip st = Inr v" by auto
  have vips: "state_vips (st # sts) = (case v of None \<Rightarrow> {} | Some vip \<Rightarrow> {vip}) \<union> state_vips sts"
    using v by (auto simp: state_vips_def split: option.splits)
  show ?case
  proof (cases "\<exists>vip. v = Some vip \<and> map_of m (ip_text vip) = None")
    case True
    then obtain vip where vip: "v = Some vip" "map_of m (ip_text vip) = None" by blast
    let ?m = "AList.update (ip_text vip) \<lparr>la_LinkName = LoopbackLinkName, la_Address = vip\<rparr> m"
    have "linkAddrLoop ip_text sts ?m = Inr m'" "wf_map ?m" "\<forall>e\<in>set ?m. fst e = ip_text (la_Address (snd e))"
      using Cons.prems v vip by (auto simp: update_fresh)
    note IH = Cons.IH [OF this]
    have "fst ` set ?m = insert (ip_text vip) (fst ` set m)" using vip(2) by (simp add: update_fresh)
    with IH vips vip(1) have "fst ` set m' = fst ` set m \<union> ip_text ` state_vips (st # sts)"
      by (metis Un_insert_left Un_insert_right image_insert insert_is_Un option.simps(5))
    with IH show ?thesis by blast
  next
    case False
    then have "linkAddrLoop ip_text sts m = Inr m'" using Cons.prems(1) v by (auto split: option.splits)
    moreover have "v = Some vip \<Longrightarrow> ip_text vip \<in> fst ` set m" for vip
      using False by (metis map_of_eq_None_iff)
    then have "ip_text ` (case v of None \<Rightarrow> {} | Some vip \<Rightarrow> {vip}) \<subseteq> fst ` set m" by (cases v) auto
    then have "fst ` set m \<union> ip_text ` state_vips (st # sts) = fst ` set m \<union> ip_text ` state_vips sts"
      unfolding vips image_Un by blast
    ultimately show ?thesis using Cons.IH [of m] Cons.prems(2,3) by metis
  qed
qed

lemma generateLinkAddrs_sound:
  assumes "generateLinkAddrs ip_text r rl s = Inr links" and "go_range r" and "go_range rl"
  shows "distinct (map (\<lambda>a. ip_text (la_Address a)) links) \<and>
    (\<lambda>a. ip_text (la_Address a)) ` set links =
      ip_text ` state_vips (concat (map (\<lambda>(_, b). cb_States (ba_state b)) (cs_balancers s)))"
proof -
  let ?sts = "\<lambda>es. concat (map (\<lambda>(_, b). cb_States (ba_state b)) es)"
  from assms(1) obtain m where m: "linkAddrLoop ip_text (?sts (r 0 (cs_balancers s))) [] = Inr m" and l: "links = map snd (rl 0 m)"
    by (auto simp: generateLinkAddrs_def Balancer_GetState_def)
  note sound = linkAddrLoop_sound [OF m, simplified]
  have keys: "map (\<lambda>a. ip_text (la_Address a)) links = map fst (rl 0 m)"
    using sound l assms(3) by auto
  have "set (?sts (r 0 (cs_balancers s))) = set (?sts (cs_balancers s))"
    using assms(2) by auto
  then have vips: "state_vips (?sts (r 0 (cs_balancers s))) = state_vips (?sts (cs_balancers s))"
    unfolding state_vips_def by blast
  have "distinct (map fst (rl 0 m))" using sound assms(3) by simp
  moreover have "set (map fst (rl 0 m)) = ip_text ` state_vips (?sts (cs_balancers s))"
    using sound assms(3) vips by (metis go_range_set list.set_map)
  ultimately show ?thesis unfolding keys [symmetric] by simp
qed

subsection \<open>updateConfig\<close>

lemma Balancer_Update_config: "Balancer_Update C conf b = (Inr (), b') \<Longrightarrow> ba_config b' = conf"
  by (auto simp: Balancer_Update_def bind_a_ok storeConfig_def Let_def split: if_splits sum.splits)

definition cfg_key :: "BalancerConfig \<Rightarrow> string" where
  "cfg_key c = projr (GetKeyFromBalancerConfig c)"

lemma configBalancer_ok:
  assumes "configBalancer C conf s = (Inr (), s')"
  obtains b where "GetKeyFromBalancerConfig conf = Inr (cfg_key conf)" "ba_config b = conf"
    "s' = s\<lparr>cs_balancers := AList.update (cfg_key conf) b (cs_balancers s)\<rparr>"
  using assms newBalancer_fields [of C conf] Balancer_Update_config [of C conf]
  by (auto simp: configBalancer_def cfg_key_def split: sum.splits option.splits prod.splits)

lemma configBalancers_ok:
  assumes "each_a (configBalancer C) confs s = (Inr (), s')" and "distinct (map cfg_key confs)" and "wf_map (cs_balancers s)"
  shows "wf_map (cs_balancers s') \<and> (\<forall>c\<in>set confs. GetKeyFromBalancerConfig c = Inr (cfg_key c)) \<and>
    fst ` set (cs_balancers s') = fst ` set (cs_balancers s) \<union> cfg_key ` set confs \<and>
    (\<forall>c\<in>set confs. \<exists>b. map_of (cs_balancers s') (cfg_key c) = Some b \<and> ba_config b = c) \<and>
    (\<forall>k. k \<notin> cfg_key ` set confs \<longrightarrow> map_of (cs_balancers s') k = map_of (cs_balancers s) k) \<and>
    s' = s\<lparr>cs_balancers := cs_balancers s'\<rparr>"
  using assms
proof (induction confs arbitrary: s)
  case Nil
  then show ?case by simp
next
  case (Cons c confs)
  from Cons.prems(1) obtain s1 where s1: "configBalancer C c s = (Inr (), s1)" "each_a (configBalancer C) confs s1 = (Inr (), s')"
    by (auto simp: bind_a_ok)
  from configBalancer_ok [OF s1(1)] obtain b where b: "GetKeyFromBalancerConfig c = Inr (cfg_key c)" "ba_config b = c"
    "s1 = s\<lparr>cs_balancers := AList.update (cfg_key c) b (cs_balancers s)\<rparr>" .
  have wf: "wf_map (cs_balancers s1)" using Cons.prems(3) b(3) by simp
  have d: "distinct (map cfg_key confs)" "cfg_key c \<notin> cfg_key ` set confs" using Cons.prems(2) by auto
  note IH = Cons.IH [OF s1(2) d(1) wf]
  have dom: "fst ` set (cs_balancers s1) = insert (cfg_key c) (fst ` set (cs_balancers s))"
    using b(3) by (simp add: dom_update)
  have "map_of (cs_balancers s') (cfg_key c) = Some b" using IH d(2) b(3) by simp
  then have "\<exists>b. map_of (cs_balancers s') (cfg_key c) = Some b \<and> ba_config b = c" using b(2) by blast
  moreover have "s1\<lparr>cs_balancers := cs_balancers s'\<rparr> = s\<lparr>cs_balancers := cs_balancers s'\<rparr>" using b(3) by simp
  ultimately show ?case using IH b dom by auto
qed

lemma configHasKey_ok:
  "\<forall>c\<in>set confs. GetKeyFromBalancerConfig c = Inr (cfg_key c) \<Longrightarrow>
     configHasKey k confs = Inr (k \<in> cfg_key ` set confs)"
  by (induction confs) auto

lemma shutdown_all:
  assumes "\<forall>c\<in>set confs. GetKeyFromBalancerConfig c = Inr (cfg_key c)"
  shows "each_a (shutdownBalancer confs) es s =
    (Inr (), s\<lparr>cs_balancers := fold AList.delete (filter (\<lambda>k. k \<notin> cfg_key ` set confs) (map fst es)) (cs_balancers s)\<rparr>)"
  by (induction es arbitrary: s) (simp_all add: bind_a_def shutdownBalancer_def configHasKey_ok [OF assms])

lemma map_of_deletes: "map_of (fold AList.delete ks m) k = (if k \<in> set ks then None else map_of m k)"
  by (induction ks arbitrary: m) auto

lemma updateConfig_ok:
  assumes ok: "updateConfig C r config s = (Inr (), s')" and d: "distinct (map cfg_key (cp_Balancers config))"
    and wf: "wf_map (cs_balancers s)" and r: "go_range r"
  shows "dom (map_of (cs_balancers s')) = cfg_key ` set (cp_Balancers config) \<and>
    (\<forall>c\<in>set (cp_Balancers config). \<exists>b. map_of (cs_balancers s') (cfg_key c) = Some b \<and> ba_config b = c) \<and>
    s' = s\<lparr>cs_balancers := cs_balancers s', cs_config := Some config\<rparr>"
proof -
  let ?confs = "cp_Balancers config"
  from ok obtain s1 s2 where s1: "each_a (configBalancer C) ?confs s = (Inr (), s1)"
    and s2: "each_a (shutdownBalancer ?confs) (r 0 (cs_balancers s1)) s1 = (Inr (), s2)" and s': "s' = s2\<lparr>cs_config := Some config\<rparr>"
    by (auto simp: updateConfig_def bind_a_ok)
  note one = configBalancers_ok [OF s1 d wf]
  let ?gone = "filter (\<lambda>k. k \<notin> cfg_key ` set ?confs) (map fst (r 0 (cs_balancers s1)))"
  have s2': "s2 = s1\<lparr>cs_balancers := fold AList.delete ?gone (cs_balancers s1)\<rparr>"
    using shutdown_all [of ?confs "r 0 (cs_balancers s1)" s1] one s2 by simp
  have look: "map_of (cs_balancers s') k = (if k \<in> cfg_key ` set ?confs then map_of (cs_balancers s1) k else None)" for k
  proof (cases "k \<in> fst ` set (cs_balancers s1)")
    case True
    then show ?thesis using r by (auto simp: s' s2' map_of_deletes)
  next
    case False
    then show ?thesis by (auto simp: s' s2' map_of_deletes map_of_eq_None_iff)
  qed
  have "dom (map_of (cs_balancers s')) = cfg_key ` set ?confs" using look one by (auto split: if_splits)
  moreover have "s' = s\<lparr>cs_balancers := cs_balancers s', cs_config := Some config\<rparr>"
  proof -
    obtain X where "s1 = s\<lparr>cs_balancers := X\<rparr>" using one by blast
    then show ?thesis by (simp add: s' s2')
  qed
  ultimately show ?thesis using look one by auto
qed

subsection \<open>Properties of the generated state\<close>

lemma Generate_ok:
  assumes "GenerateDataPlaneState ip_text r rl s = (Inr dp, s')"
  defines "g \<equiv> genAll (r 0 (cs_balancers s))"
  shows "generateRoutes (gs_allowed g) (gs_prohibited g) = Inr (dp_DynamicRoutes dp) \<and>
    generateLinkAddrs ip_text (\<lambda>i. r (Suc i)) rl s = Inr (dp_LinkAddresses dp) \<and>
    dp_Balancers dp = gs_Balancers g \<and> ValidateDataPlaneState ip_text dp = Inr () \<and>
    cs_initialState s' = (cs_initialState s \<and> gs_stateless g \<noteq> 0)"
proof -
  have link: "generateLinkAddrs ip_text q rl (s\<lparr>cs_hashes := h\<rparr>) = generateLinkAddrs ip_text q rl s" for q h
    by (simp add: generateLinkAddrs_def)
  show ?thesis
    using assms(1) unfolding g_def
    by (auto simp: GenerateDataPlaneState_def Let_def link setStatesHashes_def split: sum.splits if_splits)
qed

lemma Generate_intro:
  assumes "generateRoutes (gs_allowed (genAll (r 0 (cs_balancers s)))) (gs_prohibited (genAll (r 0 (cs_balancers s)))) = Inr routes"
    and "generateLinkAddrs ip_text (\<lambda>i. r (Suc i)) rl s = Inr links"
    and "ValidateDataPlaneState ip_text
      \<lparr>dp_Balancers = gs_Balancers (genAll (r 0 (cs_balancers s))), dp_DynamicRoutes = routes, dp_LinkAddresses = links\<rparr> = Inr ()"
  shows "\<exists>s'. GenerateDataPlaneState ip_text r rl s =
    (Inr \<lparr>dp_Balancers = gs_Balancers (genAll (r 0 (cs_balancers s))), dp_DynamicRoutes = routes, dp_LinkAddresses = links\<rparr>, s')"
proof -
  have "generateLinkAddrs ip_text q rl (s\<lparr>cs_hashes := h\<rparr>) = generateLinkAddrs ip_text q rl s" for q h
    by (simp add: generateLinkAddrs_def)
  with assms show ?thesis by (simp add: GenerateDataPlaneState_def Let_def setStatesHashes_def)
qed

lemma may_announce_set: "set ps = set qs \<Longrightarrow> may_announce ps a = may_announce qs a"
  by (simp add: may_announce_def)

abbreviation silent_routes :: "ControlPlaneServicer \<Rightarrow> BgpRouteAttributes option list" where
  "silent_routes s \<equiv> map balancer_bgp (filter (\<lambda>b. \<not> announces b) (map snd (cs_balancers s)))"


definition sample_bgp :: BgpRouteAttributes where
  "sample_bgp = \<lparr>bgp_LocalAsn = 65000, bgp_PeerAsn = 65001, bgp_Community = ''c'',
     bgp_Prefix = Some (IP (Some (IP_Ipv4 (dotted [10, 0, 0, 1])))), bgp_Prefixlen = 32, bgp_HoldTimeMs = 0\<rparr>"

definition sample_bgp_config :: BalancerConfig where
  "sample_bgp_config = sample_tcp\<lparr>bc_DynamicRouting :=
     Some \<lparr>drt_AnnounceLimitRatio = F32 (1 / 2), drt_Attributes = Some (DynamicRouting_Bgp (Some sample_bgp))\<rparr>\<rparr>"

definition sample_main :: BalancerState where
  "sample_main = \<lparr>bs_Name = ''web'', bs_LbService = bc_LbService sample_tcp, bs_Upstreams = [sample_up (dotted [10, 0, 0, 2])]\<rparr>"

definition sample_announcing :: Balancer where
  "sample_announcing = sample_ba\<lparr>ba_config := sample_bgp_config,
     ba_state := \<lparr>cb_States = [sample_main], cb_AliveRatio = 1, cb_InitialState = False\<rparr>\<rparr>"

definition sample_servicer :: ControlPlaneServicer where
  "sample_servicer = (newControlPlaneServicer (NewManager 10 1) True)\<lparr>cs_balancers := [(''web'', sample_announcing)]\<rparr>"

lemma sample_announces: "announces sample_announcing" "balancer_bgp sample_announcing = Some sample_bgp"
  by (simp_all add: announces_def sample_announcing_def Balancer_GetState_def Balancer_GetConfig_def sample_bgp_config_def
      GetRoutingBgp_def f32_ge_def)

lemma sample_routeNet: "routeNet (Some sample_bgp) = Some (map2 (AND) [10, 0, 0, 1] (cidr_mask 32 4), cidr_mask 32 4)"
proof -
  have "KglbAddrToNetIp (GetPrefix (Some sample_bgp)) = v4InV6Prefix @ [10, 0, 0, 1]"
    by (simp add: KglbAddrToNetIp_def GetPrefix_def sample_bgp_def ParseIP_dotted)
  moreover have "IP_String (v4InV6Prefix @ [10, 0, 0, 1]) = dotted [10, 0, 0, 1]" by (simp add: IP_String_def)
  moreover have "GetPrefixlen (Some sample_bgp) = 32" by (simp add: GetPrefixlen_def sample_bgp_def)
  ultimately show ?thesis using ParseCIDR_dotted [of "[10, 0, 0, 1]" 32] by (simp add: routeNet_def)
qed

lemma sample_vip_addr: "stateVip sample_main = Inr (Some (Some (IP (Some (IP_Ipv4 (dotted [10, 0, 0, 1]))))))"
  by (simp add: stateVip_def sample_main_def sample_defs)

lemma sample_mark: "state_mark sample_main = 0"
  by (simp add: GetFwmark_def sample_main_def sample_defs)

lemma sample_dp_valid:
  "ValidateDataPlaneState ip_text
     \<lparr>dp_Balancers = [sample_main], dp_DynamicRoutes = routes,
      dp_LinkAddresses = [\<lparr>la_LinkName = ''lo'', la_Address = Some (IP (Some (IP_Ipv4 (dotted [10, 0, 0, 1]))))\<rparr>]\<rparr> = Inr ()"
proof -
  have "\<not> blank ''lo''" by (simp add: blank_def)
  moreover have "To4 (ParseIP (dotted [10, 0, 0, n])) \<noteq> None" for n by (simp add: ParseIP_dotted)
  ultimately show ?thesis
    unfolding ValidateDataPlaneState_ok ValidateBalancerState_ok
    by (simp add: ValidateUpstreamState_ok sample_main_def sample_up_def ValidateIP_ok)
qed

definition sample_dp :: DataPlaneState where
  "sample_dp = \<lparr>dp_Balancers = [sample_main], dp_DynamicRoutes = [\<lparr>dr_Attributes = Some (DynamicRoute_Bgp (Some sample_bgp))\<rparr>],
       dp_LinkAddresses = [\<lparr>la_LinkName = ''lo'', la_Address = Some (IP (Some (IP_Ipv4 (dotted [10, 0, 0, 1]))))\<rparr>]\<rparr>"

lemma sample_generates:
  assumes "cs_balancers s = [(''web'', sample_announcing)]"
  shows "\<exists>s'. GenerateDataPlaneState ip_text (\<lambda>_ xs. xs) (\<lambda>_ xs. xs) s = (Inr sample_dp, s')"
proof -
  have bal: "cb_States (ba_state sample_announcing) = [sample_main]"
    by (simp add: sample_announcing_def)
  let ?g = "genAll [(''web'', sample_announcing)]"
  have g: "gs_allowed ?g = [Some sample_bgp]" "gs_prohibited ?g = []" "gs_Balancers ?g = [sample_main]"
    by (simp_all add: genAll_routes sample_announces) (simp add: genAll_def genBalancer_states bal genBalancerState_def sample_mark)
  have routes: "generateRoutes [Some sample_bgp] [] = Inr [\<lparr>dr_Attributes = Some (DynamicRoute_Bgp (Some sample_bgp))\<rparr>]"
    by (simp add: generateRoutes_def sample_routeNet)
  have links: "generateLinkAddrs ip_text (\<lambda>_ xs. xs) (\<lambda>_ xs. xs) s =
      Inr [\<lparr>la_LinkName = ''lo'', la_Address = Some (IP (Some (IP_Ipv4 (dotted [10, 0, 0, 1]))))\<rparr>]"
    using assms by (simp add: generateLinkAddrs_def Balancer_GetState_def bal sample_vip_addr LoopbackLinkName_def)
  show ?thesis
    unfolding sample_dp_def using Generate_intro [of "\<lambda>_ xs. xs" s, unfolded assms g, OF routes links sample_dp_valid] .
qed

lemma sample_generate: "\<exists>s'. GenerateDataPlaneState (\<lambda>_. ''ip'') (\<lambda>_ xs. xs) (\<lambda>_ xs. xs) sample_servicer = (Inr sample_dp, s')"
  by (rule sample_generates) (simp add: sample_servicer_def)


end
