(* ===== verification/Servicer_Props.thy ===== *)
theory Servicer_Props
  imports Servicer
begin

section \<open>Properties of the servicer\<close>

text \<open>
  What a generated data plane state holds (services, link addresses), what the hashes reported per
  setup are, what a successful \<open>updateConfig\<close> leaves behind, and the one configuration under which no
  state can be generated at all.
\<close>

subsection \<open>Services\<close>

abbreviation served_states :: "ControlPlaneServicer \<Rightarrow> BalancerState set" where
  "served_states s \<equiv> (\<Union>b\<in>snd ` set (cs_balancers s). set (cb_States (ba_state b)))"

text \<open>
  C7: The services of a generated state are states of the balancers; every state of a balancer is
  among them unless it is a health check service whose mark is served already, and no mark is served
  twice.
\<close>

theorem generated_services:
  assumes "GenerateDataPlaneState ip_text r rl s = (Inr dp, s')" and "go_range r"
  shows "set (dp_Balancers dp) \<subseteq> served_states s \<and>
    (\<forall>st\<in>served_states s. st \<in> set (dp_Balancers dp) \<or>
       (state_mark st \<noteq> 0 \<and> state_mark st \<in> state_mark ` set (dp_Balancers dp))) \<and>
    distinct (filter (\<lambda>mark. mark \<noteq> 0) (map state_mark (dp_Balancers dp)))"
proof -
  let ?es = "r 0 (cs_balancers s)"
  have dp: "dp_Balancers dp = gs_Balancers (genAll ?es)"
    using Generate_ok [OF assms(1)] by simp
  have es: "snd ` set ?es = snd ` set (cs_balancers s)"
    using assms(2) by simp
  show ?thesis
    using genAll_marks [of ?es] unfolding dp marks_inv_def covers_def es by (simp add: UN_iff)
qed

theorem generated_services_witness:
  "\<exists>s'. GenerateDataPlaneState (\<lambda>_. ''ip'') (\<lambda>_ xs. xs) (\<lambda>_ xs. xs) sample_servicer = (Inr sample_dp, s') \<and>
     set (dp_Balancers sample_dp) \<subseteq> served_states sample_servicer"
proof -
  obtain s' where gen: "GenerateDataPlaneState (\<lambda>_. ''ip'') (\<lambda>_ xs. xs) (\<lambda>_ xs. xs) sample_servicer = (Inr sample_dp, s')"
    using sample_generate by blast
  with generated_services [OF gen go_range_id] show ?thesis by blast
qed

subsection \<open>Link addresses\<close>

lemma linkAddrLoop_loopback:
  "linkAddrLoop ip_text sts m = Inr m' \<Longrightarrow> \<forall>e\<in>set m. la_LinkName (snd e) = LoopbackLinkName \<Longrightarrow>
     \<forall>e\<in>set m'. la_LinkName (snd e) = LoopbackLinkName"
proof (induction sts arbitrary: m)
  case (Cons st sts)
  from Cons.prems(1) obtain v where v: "stateVip st = Inr v" by auto
  show ?case
  proof (cases "\<exists>vip. v = Some vip \<and> map_of m (ip_text vip) = None")
    case True
    then obtain vip where vip: "v = Some vip" "map_of m (ip_text vip) = None" by blast
    let ?m = "AList.update (ip_text vip) \<lparr>la_LinkName = LoopbackLinkName, la_Address = vip\<rparr> m"
    have "linkAddrLoop ip_text sts ?m = Inr m'" using Cons.prems(1) v vip by simp
    moreover have "\<forall>e\<in>set ?m. la_LinkName (snd e) = LoopbackLinkName"
      using Cons.prems(2) vip(2) by (simp add: update_fresh)
    ultimately show ?thesis by (rule Cons.IH)
  next
    case False
    then have "linkAddrLoop ip_text sts m = Inr m'" using Cons.prems(1) v by (auto split: option.splits)
    then show ?thesis using Cons.prems(2) by (rule Cons.IH)
  qed
qed simp



subsection \<open>Hashes\<close>

definition hashes_for :: "string \<Rightarrow> Balancer \<Rightarrow> bool" where
  "hashes_for k b \<longleftrightarrow> bc_SetupName (ba_config b) = k \<and>
     (\<exists>st\<in>set (cb_States (ba_state b)). state_mark st = 0 \<and> bs_Upstreams st \<noteq> [])"

lemma wf_fold_addHash: "wf_map m \<Longrightarrow> wf_map (fold (\<lambda>x. addHash k (f x)) xs m)"
  by (induction xs arbitrary: m) (simp_all add: addHash_def)

lemma dom_fold_addHash:
  "fst ` set (fold (\<lambda>x. addHash k (f x)) xs m) = fst ` set m \<union> (if xs = [] then {} else {k})"
  by (induction xs arbitrary: m) (auto simp: addHash_def dom_update)

lemma genBalancerState_hash_keys:
  "wf_map (gs_hashes g) \<Longrightarrow> wf_map (gs_hashes (genBalancerState k st g))"
  "fst ` set (gs_hashes (genBalancerState k st g)) =
     fst ` set (gs_hashes g) \<union> (if state_mark st = 0 \<and> bs_Upstreams st \<noteq> [] then {k} else {})"
  by (auto simp: genBalancerState_def Let_def word_gt_0 wf_fold_addHash dom_fold_addHash)

lemma fold_states_hash_keys:
  "wf_map (gs_hashes g) \<Longrightarrow> wf_map (gs_hashes (fold (genBalancerState k) sts g))"
  "fst ` set (gs_hashes (fold (genBalancerState k) sts g)) =
     fst ` set (gs_hashes g) \<union> (if \<exists>st\<in>set sts. state_mark st = 0 \<and> bs_Upstreams st \<noteq> [] then {k} else {})"
  by (induction sts arbitrary: g) (auto simp: genBalancerState_hash_keys)

lemma genAll_hash_keys:
  "wf_map (gs_hashes (genAll es)) \<and> fst ` set (gs_hashes (genAll es)) = {k. \<exists>b\<in>snd ` set es. hashes_for k b}"
proof -
  have "wf_map (gs_hashes g) \<Longrightarrow> wf_map (gs_hashes (fold (\<lambda>(_, b). genBalancer b) es g)) \<and>
      fst ` set (gs_hashes (fold (\<lambda>(_, b). genBalancer b) es g)) = fst ` set (gs_hashes g) \<union> {k. \<exists>b\<in>snd ` set es. hashes_for k b}" for g
  proof (induction es arbitrary: g)
    case (Cons e es)
    obtain k b where e: "e = (k, b)" by fastforce
    have "wf_map (gs_hashes (genBalancer b g))"
      using Cons.prems by (simp add: genBalancer_states fold_states_hash_keys)
    from Cons.IH [OF this] show ?case
      by (auto simp: e genBalancer_states fold_states_hash_keys hashes_for_def split: if_splits)
  qed simp
  then show ?thesis by (simp add: genAll_def)
qed

lemma map_of_updates:
  "wf_map hs \<Longrightarrow> map_of (fold (\<lambda>(k, v). AList.update k v) hs m) k = (case map_of hs k of Some v \<Rightarrow> Some v | None \<Rightarrow> map_of m k)"
proof (induction hs arbitrary: m)
  case (Cons h hs)
  obtain k' v where h: "h = (k', v)" by fastforce
  with Cons.prems have "map_of hs k' = None" by (simp add: map_of_eq_None_iff)
  with Cons h show ?case by (auto split: option.splits)
qed simp

lemma Generate_hashes: "cs_hashes (snd (GenerateDataPlaneState ip_text r rl s)) = cs_hashes (setStatesHashes (gs_hashes (genAll (r 0 (cs_balancers s)))) s)"
  by (simp add: GenerateDataPlaneState_def Let_def split: sum.splits)

text \<open>
  C34: The hash reported for a setup after a generation, failed or not, is the sum (with wrap-around
  at 64 bits) of the hashes of the upstreams of its services, whatever the order in which Go visits
  the balancers: equal states of two servicers are reported with equal hashes. Setups without such
  upstreams keep the hash they had.
\<close>

theorem state_hashes:
  assumes "go_range r"
  shows "map_of (cs_hashes (snd (GenerateDataPlaneState ip_text r rl s))) k =
    (if \<exists>b\<in>snd ` set (cs_balancers s). hashes_for k b
     then Some (\<Sum>b\<leftarrow>map snd (cs_balancers s). balancer_hash k b) else map_of (cs_hashes s) k)"
proof -
  let ?es = "r 0 (cs_balancers s)" and ?h = "gs_hashes (genAll (r 0 (cs_balancers s)))"
  have keys: "wf_map ?h" "map_of ?h k = None \<longleftrightarrow> \<not> (\<exists>b\<in>snd ` set (cs_balancers s). hashes_for k b)"
    using genAll_hash_keys [of ?es] assms by (auto simp: map_of_eq_None_iff)
  have "mset (map snd ?es) = mset (map snd (cs_balancers s))"
    using assms by simp
  then have "hash_of ?h k = (\<Sum>b\<leftarrow>map snd (cs_balancers s). balancer_hash k b)"
    unfolding hash_genAll by (rule sum_list_mset)
  then show ?thesis
    using keys by (auto simp: Generate_hashes setStatesHashes_def map_of_updates hash_of_def split: option.splits)
qed

theorem state_hashes_witness:
  "map_of (cs_hashes (snd (GenerateDataPlaneState (\<lambda>_. ''ip'') (\<lambda>_. rev) (\<lambda>_ xs. xs) sample_servicer))) ''setup'' =
     Some (state_hash sample_main)"
proof -
  have "bc_SetupName (ba_config sample_announcing) = ''setup''" "cb_States (ba_state sample_announcing) = [sample_main]"
    by (simp_all add: sample_announcing_def sample_bgp_config_def sample_defs)
  then have "hashes_for ''setup'' sample_announcing" "balancer_hash ''setup'' sample_announcing = state_hash sample_main"
    by (simp_all add: hashes_for_def balancer_hash_def sample_mark) (simp add: sample_main_def)
  then show ?thesis
    using state_hashes [OF go_range_rev, of "\<lambda>_. ''ip''" "\<lambda>_ xs. xs" sample_servicer "''setup''"]
    by (simp add: sample_servicer_def)
qed

subsection \<open>Configuration\<close>

text \<open>
  C9: When \<open>updateConfig\<close> succeeds on a configuration with distinct keys, the servicer has exactly one
  balancer per configured balancer, under its key and with its configuration; all others are gone.
  Nothing else of the servicer changes, in particular not the state that is pushed.
\<close>

theorem config_applied:
  assumes "updateConfig CheckerFactory r config s = (Inr (), s')" and "distinct (map cfg_key (cp_Balancers config))"
    and "wf_map (cs_balancers s)" and "go_range r"
  shows "dom (map_of (cs_balancers s')) = cfg_key ` set (cp_Balancers config) \<and>
    (\<forall>c\<in>set (cp_Balancers config). \<exists>b. map_of (cs_balancers s') (cfg_key c) = Some b \<and> ba_config b = c) \<and>
    s' = s\<lparr>cs_balancers := cs_balancers s', cs_config := Some config\<rparr>"
  using assms by (rule updateConfig_ok)

lemma sample_key: "GetKeyFromBalancerConfig sample_tcp = Inr (cfg_key sample_tcp)"
  by (simp add: cfg_key_def GetKeyFromBalancerConfig_def GetKeyFromLbService_def sample_defs)

lemma sample_configured:
  "updateConfig sample_checker (\<lambda>_ xs. xs) \<lparr>cp_Balancers = [sample_tcp]\<rparr> (newControlPlaneServicer (NewManager 10 1) True) =
     (Inr (), newControlPlaneServicer (NewManager 10 1) True
        \<lparr>cs_balancers := [(cfg_key sample_tcp, sample_ba)], cs_config := Some \<lparr>cp_Balancers = [sample_tcp]\<rparr>\<rparr>)"
  by (simp add: updateConfig_def bind_a_def configBalancer_def shutdownBalancer_def newControlPlaneServicer_def sample_key sample_new)

theorem config_applied_witness:
  "\<exists>s'. updateConfig sample_checker (\<lambda>_ xs. xs) \<lparr>cp_Balancers = [sample_tcp]\<rparr> (newControlPlaneServicer (NewManager 10 1) True) = (Inr (), s') \<and>
     dom (map_of (cs_balancers s')) = {cfg_key sample_tcp}"
proof (intro exI conjI)
  show "dom (map_of (cs_balancers (newControlPlaneServicer (NewManager 10 1) True
      \<lparr>cs_balancers := [(cfg_key sample_tcp, sample_ba)], cs_config := Some \<lparr>cp_Balancers = [sample_tcp]\<rparr>\<rparr>))) = {cfg_key sample_tcp}"
    using config_applied [OF sample_configured, THEN conjunct1] by (simp add: newControlPlaneServicer_def)
qed (rule sample_configured)

subsection \<open>A balancer without BGP attributes\<close>

text \<open>
  C39: A balancer that has no BGP attributes is put on the list of prohibited routes as a nil route,
  which parses to no network. So when another balancer announces and no silent network contains
  its route, generation fails, and no state is generated at all.
\<close>

theorem missing_bgp_blocks:
  assumes "go_range r" and "b \<in> snd ` set (cs_balancers s)" and "balancer_bgp b = None"
    and "a \<in> snd ` set (cs_balancers s)" and "announces a" and "routeNet (balancer_bgp a) = Some net"
    and "\<forall>p\<in>set (silent_routes s). \<forall>pn. routeNet p = Some pn \<longrightarrow> \<not> IPNet_Contains pn (fst net)"
  shows "\<not> is_ok (fst (GenerateDataPlaneState ip_text r rl s))"
proof -
  let ?g = "genAll (r 0 (cs_balancers s))"
  have "\<not> announces b"
    using assms(3) by (simp add: announces_def Balancer_GetConfig_def)
  then have "None \<in> set (gs_prohibited ?g)"
    using assms(1-3) by (force simp: genAll_routes)
  moreover have "set (gs_prohibited ?g) = set (silent_routes s)"
    using assms(1) by (auto simp: genAll_routes)
  ultimately have "\<not> is_ok (isProhibited net (gs_prohibited ?g))"
    using assms(7) routeNet_nil by (intro isProhibited_error [of None]) auto
  moreover have "balancer_bgp a \<in> set (gs_allowed ?g)"
    using assms(1,4,5) by (auto simp: genAll_routes)
  ultimately have "\<not> is_ok (generateRoutes (gs_allowed ?g) (gs_prohibited ?g))"
    unfolding generateRoutes_def using assms(6) by (intro routeLoop_error)
  then show ?thesis
    by (auto simp: GenerateDataPlaneState_def Let_def is_ok_iff split: sum.splits)
qed

definition sample_plain :: Balancer where
  "sample_plain = sample_announcing\<lparr>ba_config := sample_tcp\<lparr>bc_DynamicRouting := None\<rparr>\<rparr>"

theorem missing_bgp_blocks_witness:
  "\<not> is_ok (fst (GenerateDataPlaneState (\<lambda>_. ''ip'') (\<lambda>_ xs. xs) (\<lambda>_ xs. xs)
     (sample_servicer\<lparr>cs_balancers := [(''plain'', sample_plain), (''web'', sample_announcing)]\<rparr>)))"
proof (rule missing_bgp_blocks [of _ sample_plain _ sample_announcing])
  show bgp: "balancer_bgp sample_plain = None"
    by (simp add: sample_plain_def GetRoutingBgp_def)
  then have "\<not> announces sample_plain"
    by (simp add: announces_def Balancer_GetConfig_def)
  with bgp show "\<forall>p\<in>set (silent_routes (sample_servicer\<lparr>cs_balancers := [(''plain'', sample_plain), (''web'', sample_announcing)]\<rparr>)).
      \<forall>pn. routeNet p = Some pn \<longrightarrow> \<not> IPNet_Contains pn (fst (map2 (AND) [10, 0, 0, 1] (cidr_mask 32 4), cidr_mask 32 4))"
    by (simp add: sample_announces routeNet_nil)
qed (simp_all add: sample_announces sample_routeNet)

end
