(* ===== verification/Comparable.thy ===== *)
theory Comparable
  imports Kglb_Prelude
begin

section \<open>kglb/utils/comparable: the difference of two keyed collections\<close>

text \<open>
  \<open>CompareArrays\<close> is what both planes decide every change with: it sorts the elements of an old and
  a new collection into added, deleted, changed and unchanged ones by a key. The keys are the
  strings of the source, or any other type: the definitions are polymorphic in the key, because
  some keys are the text of a protobuf message, which only has to tell messages apart.
\<close>

subsection \<open>Definitions\<close>

record ('i, 'k) ComparableImpl =
  KeyFunc :: "'i \<Rightarrow> 'k"
  EqualFunc :: "'i \<Rightarrow> 'i \<Rightarrow> bool"

record 'i ChangedPair =
  OldItem :: 'i
  NewItem :: 'i

record 'i ComparableResult =
  Added :: "'i list"
  Deleted :: "'i list"
  Changed :: "'i ChangedPair list"
  Unchanged :: "'i list"

definition IsChanged :: "'i ComparableResult \<Rightarrow> bool" where
  "IsChanged c \<longleftrightarrow> length (Added c) \<noteq> 0 \<or> length (Deleted c) \<noteq> 0 \<or> length (Changed c) \<noteq> 0"

definition NewChangedStates :: "'i ComparableResult \<Rightarrow> 'i list" where
  "NewChangedStates c = map NewItem (Changed c)"

text \<open>\<open>keyGen\<close>: a later item with the same key overwrites an earlier one.\<close>

definition keyGen :: "('i, 'k) ComparableImpl \<Rightarrow> 'i list \<Rightarrow> ('k, 'i) gomap" where
  "keyGen c items = fold (\<lambda>item keyMap. AList.update (KeyFunc c item) item keyMap) items []"

definition classify_old ::
  "('i, 'k) ComparableImpl \<Rightarrow> ('k, 'i) gomap \<Rightarrow> 'k \<times> 'i \<Rightarrow> 'i ComparableResult \<Rightarrow> 'i ComparableResult" where
  "classify_old c newMap entry result = (case entry of (key, oldItem) \<Rightarrow>
     case map_of newMap key of
       None \<Rightarrow> result\<lparr>Deleted := Deleted result @ [oldItem]\<rparr>
     | Some newItem \<Rightarrow>
         if \<not> EqualFunc c oldItem newItem
         then result\<lparr>Changed := Changed result @ [\<lparr>OldItem = oldItem, NewItem = newItem\<rparr>]\<rparr>
         else result\<lparr>Unchanged := Unchanged result @ [oldItem]\<rparr>)"

definition classify_new ::
  "('k, 'i) gomap \<Rightarrow> 'k \<times> 'i \<Rightarrow> 'i ComparableResult \<Rightarrow> 'i ComparableResult" where
  "classify_new oldMap entry result = (case entry of (key, newItem) \<Rightarrow>
     case map_of oldMap key of
       None \<Rightarrow> result\<lparr>Added := Added result @ [newItem]\<rparr>
     | Some _ \<Rightarrow> result)"

definition CompareArrays ::
  "('k \<times> 'i) range_order \<Rightarrow> ('i, 'k) ComparableImpl \<Rightarrow> 'i list \<Rightarrow> 'i list \<Rightarrow> 'i ComparableResult" where
  "CompareArrays r c oldSet newSet =
     (let oldMap = keyGen c oldSet;
          newMap = keyGen c newSet;
          result = \<lparr>Added = [], Deleted = [], Changed = [], Unchanged = []\<rparr>;
          result = fold (classify_old c newMap) (r 0 oldMap) result
      in fold (classify_new oldMap) (r 1 newMap) result)"

subsection \<open>The loops in closed form\<close>

lemma keyGen_wf [simp]: "wf_map (keyGen c items)"
proof -
  have "wf_map m \<Longrightarrow> wf_map (fold (\<lambda>item keyMap. AList.update (KeyFunc c item) item keyMap) items m)" for m
    by (induction items arbitrary: m) auto
  then show ?thesis by (simp add: keyGen_def)
qed

lemma keyGen_snoc: "keyGen c (xs @ [x]) = AList.update (KeyFunc c x) x (keyGen c xs)"
  by (simp add: keyGen_def)

lemma keyGen_Nil [simp]: "keyGen c [] = []"
  by (simp add: keyGen_def)

text \<open>Looking a key up finds the last item with that key.\<close>

lemma keyGen_lookup:
  "map_of (keyGen c items) k = find (\<lambda>x. KeyFunc c x = k) (rev items)"
  by (induction items rule: rev_induct) (auto simp: keyGen_snoc)

lemma keyGen_key: "map_of (keyGen c items) k = Some x \<Longrightarrow> KeyFunc c x = k \<and> x \<in> set items"
  by (auto simp: keyGen_lookup find_Some_iff) (metis length_rev nth_mem set_rev)

lemma keyGen_None: "map_of (keyGen c items) k = None \<longleftrightarrow> k \<notin> KeyFunc c ` set items"
  by (auto simp: keyGen_lookup find_None_iff)

lemma keyGen_distinct:
  "distinct (map (KeyFunc c) items) \<Longrightarrow> map_of (keyGen c items) k = Some x \<longleftrightarrow> x \<in> set items \<and> KeyFunc c x = k"
proof (induction items rule: rev_induct)
  case Nil
  then show ?case by simp
next
  case (snoc y ys)
  then show ?case
    by (auto simp: keyGen_snoc dest: keyGen_key) (metis image_eqI)
qed

lemma fold_classify_old:
  "fold (classify_old c newMap) es res =
     res\<lparr>Deleted := Deleted res @ map snd (filter (\<lambda>(k, old_i). map_of newMap k = None) es),
         Changed := Changed res @ map (\<lambda>(k, old_i). \<lparr>OldItem = old_i, NewItem = the (map_of newMap k)\<rparr>)
           (filter (\<lambda>(k, old_i). \<exists>n. map_of newMap k = Some n \<and> \<not> EqualFunc c old_i n) es),
         Unchanged := Unchanged res @ map snd
           (filter (\<lambda>(k, old_i). \<exists>n. map_of newMap k = Some n \<and> EqualFunc c old_i n) es)\<rparr>"
  by (induction es arbitrary: res) (auto simp: classify_old_def split: option.splits)

lemma fold_classify_new:
  "fold (classify_new oldMap) es res =
     res\<lparr>Added := Added res @ map snd (filter (\<lambda>(k, n). map_of oldMap k = None) es)\<rparr>"
  by (induction es arbitrary: res) (auto simp: classify_new_def split: option.splits)

lemma CompareArrays_eq:
  "CompareArrays r c old new =
     \<lparr>Added = map snd (filter (\<lambda>(k, n). map_of (keyGen c old) k = None) (r 1 (keyGen c new))),
      Deleted = map snd (filter (\<lambda>(k, old_i). map_of (keyGen c new) k = None) (r 0 (keyGen c old))),
      Changed = map (\<lambda>(k, old_i). \<lparr>OldItem = old_i, NewItem = the (map_of (keyGen c new) k)\<rparr>)
        (filter (\<lambda>(k, old_i). \<exists>n. map_of (keyGen c new) k = Some n \<and> \<not> EqualFunc c old_i n) (r 0 (keyGen c old))),
      Unchanged = map snd
        (filter (\<lambda>(k, old_i). \<exists>n. map_of (keyGen c new) k = Some n \<and> EqualFunc c old_i n) (r 0 (keyGen c old)))\<rparr>"
  by (simp add: CompareArrays_def Let_def fold_classify_old fold_classify_new)

lemma range_snd_iff:
  assumes "go_range r" and "wf_map m"
  shows "x \<in> set (map snd (filter P (r n m))) \<longleftrightarrow> (\<exists>k. map_of m k = Some x \<and> P (k, x))"
proof -
  have "x \<in> set (map snd (filter P (r n m))) \<longleftrightarrow> (\<exists>k. (k, x) \<in> set m \<and> P (k, x))"
    unfolding set_map set_filter go_range_set [OF assms(1)] by force
  then show ?thesis by (simp only: wf_map_lookup [OF assms(2)])
qed

lemma range_pair_iff:
  assumes "go_range r" and "wf_map m"
  shows "p \<in> set (map f (filter P (r n m))) \<longleftrightarrow> (\<exists>k x. map_of m k = Some x \<and> P (k, x) \<and> p = f (k, x))"
proof -
  have "p \<in> set (map f (filter P (r n m))) \<longleftrightarrow> (\<exists>k x. (k, x) \<in> set m \<and> P (k, x) \<and> p = f (k, x))"
    unfolding set_map set_filter go_range_set [OF assms(1)] by force
  then show ?thesis by (simp only: wf_map_lookup [OF assms(2)])
qed

lemma Added_set: "go_range r \<Longrightarrow> x \<in> set (Added (CompareArrays r c old new)) \<longleftrightarrow>
    (\<exists>k. map_of (keyGen c new) k = Some x \<and> map_of (keyGen c old) k = None)"
  unfolding CompareArrays_eq ComparableResult.simps by (subst range_snd_iff) simp_all

lemma Deleted_set: "go_range r \<Longrightarrow> x \<in> set (Deleted (CompareArrays r c old new)) \<longleftrightarrow>
    (\<exists>k. map_of (keyGen c old) k = Some x \<and> map_of (keyGen c new) k = None)"
  unfolding CompareArrays_eq ComparableResult.simps by (subst range_snd_iff) simp_all

lemma Changed_set: "go_range r \<Longrightarrow> p \<in> set (Changed (CompareArrays r c old new)) \<longleftrightarrow>
    (\<exists>k. map_of (keyGen c old) k = Some (OldItem p) \<and> map_of (keyGen c new) k = Some (NewItem p)
         \<and> \<not> EqualFunc c (OldItem p) (NewItem p))"
  unfolding CompareArrays_eq ComparableResult.simps by (subst range_pair_iff) (cases p; force)+

lemma Unchanged_set: "go_range r \<Longrightarrow> x \<in> set (Unchanged (CompareArrays r c old new)) \<longleftrightarrow>
    (\<exists>k n. map_of (keyGen c old) k = Some x \<and> map_of (keyGen c new) k = Some n \<and> EqualFunc c x n)"
  unfolding CompareArrays_eq ComparableResult.simps by (subst range_snd_iff) auto

lemmas CompareArrays_sets = Added_set Deleted_set Changed_set Unchanged_set

text \<open>No item is reported twice: the reported items have pairwise different keys.\<close>

lemma distinct_keys_filter:
  assumes "wf_map m" and "\<And>k x. (k, x) \<in> set m \<Longrightarrow> KeyFunc c x = k"
  shows "distinct (map (KeyFunc c) (map snd (filter P m)))"
proof -
  have "map (KeyFunc c) (map snd (filter P m)) = map fst (filter P m)"
    using assms(2) by auto
  with assms(1) show ?thesis by (metis distinct_map_filter)
qed

lemma keyGen_entries:
  "(k, x) \<in> set (keyGen c items) \<Longrightarrow> KeyFunc c x = k"
  by (metis keyGen_key keyGen_wf wf_map_lookup)

lemma Added_distinct: "go_range r \<Longrightarrow> distinct (map (KeyFunc c) (Added (CompareArrays r c old new)))"
  unfolding CompareArrays_eq ComparableResult.simps
  by (rule distinct_keys_filter) (auto intro: keyGen_entries)

lemma Deleted_distinct: "go_range r \<Longrightarrow> distinct (map (KeyFunc c) (Deleted (CompareArrays r c old new)))"
  unfolding CompareArrays_eq ComparableResult.simps
  by (rule distinct_keys_filter) (auto intro: keyGen_entries)

lemma Changed_distinct:
  assumes "go_range r"
  shows "distinct (map (KeyFunc c \<circ> OldItem) (Changed (CompareArrays r c old new)))"
proof -
  have "distinct (map (KeyFunc c) (map snd
      (filter (\<lambda>(k, old_i). \<exists>n. map_of (keyGen c new) k = Some n \<and> \<not> EqualFunc c old_i n) (r 0 (keyGen c old)))))"
    by (rule distinct_keys_filter) (use assms in \<open>auto intro: keyGen_entries\<close>)
  then show ?thesis
    by (simp add: CompareArrays_eq comp_def split_beta)
qed

text \<open>What the two maps must agree on for nothing to have changed.\<close>

fun same_entry :: "('i, 'k) ComparableImpl \<Rightarrow> 'i option \<Rightarrow> 'i option \<Rightarrow> bool" where
  "same_entry c None None = True"
| "same_entry c (Some a) (Some b) = EqualFunc c a b"
| "same_entry c _ _ = False"

lemma not_same_entry:
  "\<not> same_entry c x y \<longleftrightarrow> (\<exists>b. y = Some b \<and> x = None) \<or> (\<exists>a. x = Some a \<and> y = None)
     \<or> (\<exists>a b. x = Some a \<and> y = Some b \<and> \<not> EqualFunc c a b)"
  by (cases x; cases y) auto

lemma IsChanged_iff:
  assumes "go_range r"
  shows "IsChanged (CompareArrays r c old new) \<longleftrightarrow>
     \<not> (\<forall>k. same_entry c (map_of (keyGen c old) k) (map_of (keyGen c new) k))"
proof -
  let ?c = "CompareArrays r c old new"
  have "IsChanged ?c \<longleftrightarrow> (\<exists>x. x \<in> set (Added ?c)) \<or> (\<exists>x. x \<in> set (Deleted ?c)) \<or> (\<exists>p. p \<in> set (Changed ?c))"
    by (simp add: IsChanged_def ex_in_conv)
  also have "(\<exists>p. p \<in> set (Changed ?c)) \<longleftrightarrow> (\<exists>k x n. map_of (keyGen c old) k = Some x \<and>
      map_of (keyGen c new) k = Some n \<and> \<not> EqualFunc c x n)"
    unfolding Changed_set [OF assms] by (metis ChangedPair.select_convs)
  finally show ?thesis
    unfolding Added_set [OF assms] Deleted_set [OF assms] not_all not_same_entry by blast
qed

text \<open>Whether anything changed does not depend on the iteration orders.\<close>

lemma IsChanged_order:
  "go_range r \<Longrightarrow> go_range r' \<Longrightarrow> IsChanged (CompareArrays r c old new) = IsChanged (CompareArrays r' c old new)"
  by (simp add: IsChanged_iff)

subsection \<open>The contract of a Comparable\<close>

text \<open>
  The specification of a difference: applying it to the old collection (drop what was deleted, put
  what was added and the new state of what changed) must give the new collection.
\<close>

definition patch ::
  "('i, 'k) ComparableImpl \<Rightarrow> 'i ComparableResult \<Rightarrow> ('k \<rightharpoonup> 'i) \<Rightarrow> ('k \<rightharpoonup> 'i)" where
  "patch c d m = (\<lambda>k.
     case find (\<lambda>x. KeyFunc c x = k) (Added d @ NewChangedStates d) of
       Some x \<Rightarrow> Some x
     | None \<Rightarrow> if k \<in> KeyFunc c ` set (Deleted d) then None else m k)"

lemma ex_ChangedPair: "(\<exists>p. P (OldItem p) (NewItem p) \<and> x = NewItem p) \<longleftrightarrow> (\<exists>y. P y x)"
  by (metis ChangedPair.select_convs)

lemma NewChanged_set:
  "go_range r \<Longrightarrow> x \<in> set (NewChangedStates (CompareArrays r c old new)) \<longleftrightarrow>
     (\<exists>k y. map_of (keyGen c old) k = Some y \<and> map_of (keyGen c new) k = Some x \<and> \<not> EqualFunc c y x)"
proof -
  assume r: "go_range r"
  from ex_ChangedPair [of "\<lambda>y n. \<exists>k. map_of (keyGen c old) k = Some y \<and> map_of (keyGen c new) k = Some n \<and> \<not> EqualFunc c y n"]
  show ?thesis
    unfolding NewChangedStates_def set_map image_iff Bex_def Changed_set [OF r] by blast
qed

lemma patch_lookup:
  assumes "go_range r"
  shows "patch c (CompareArrays r c old new) (map_of (keyGen c old)) k =
    (case map_of (keyGen c new) k of
       None \<Rightarrow> None
     | Some n \<Rightarrow> (case map_of (keyGen c old) k of
           None \<Rightarrow> Some n
         | Some x \<Rightarrow> Some (if EqualFunc c x n then x else n)))"
proof -
  let ?d = "CompareArrays r c old new" and ?m = "map_of (keyGen c old)" and ?n = "map_of (keyGen c new)"
  let ?put = "Added ?d @ NewChangedStates ?d"
  have put: "x \<in> set ?put \<and> KeyFunc c x = k \<longleftrightarrow>
      ?n k = Some x \<and> (case ?m k of None \<Rightarrow> True | Some y \<Rightarrow> \<not> EqualFunc c y x)" for x
    unfolding set_append Un_iff Added_set [OF assms] NewChanged_set [OF assms]
    by (auto split: option.splits dest: keyGen_key)
  have del: "k \<in> KeyFunc c ` set (Deleted ?d) \<longleftrightarrow> ?m k \<noteq> None \<and> ?n k = None"
    unfolding image_iff Bex_def Deleted_set [OF assms] by (auto dest: keyGen_key)
  show ?thesis
  proof (cases "find (\<lambda>x. KeyFunc c x = k) ?put")
    case (Some x)
    from find_SomeD [OF Some] have "?n k = Some x" "case ?m k of None \<Rightarrow> True | Some y \<Rightarrow> \<not> EqualFunc c y x"
      using put [of x] by blast+
    moreover have "patch c ?d ?m k = Some x" by (simp only: patch_def Some option.case)
    ultimately show ?thesis by (cases "?m k") auto
  next
    case None
    then have none: "\<not> (?n k = Some x \<and> (case ?m k of None \<Rightarrow> True | Some y \<Rightarrow> \<not> EqualFunc c y x))" for x
      unfolding put [symmetric] by (auto simp: find_None_iff)
    have "patch c ?d ?m k = (if ?m k \<noteq> None \<and> ?n k = None then None else ?m k)"
      by (simp only: patch_def None option.case del)
    with none show ?thesis by (cases "?n k"; cases "?m k") auto
  qed
qed

text \<open>
  What \<open>CompareArrays\<close> relies on: \<open>Equal\<close> is an equivalence. Every comparator of
  \<open>types_comparators.go\<close> is an instance (theory Comparators).
\<close>

locale comparable_contract =
  fixes c :: "('i, 'k) ComparableImpl"
  assumes equal_refl: "EqualFunc c x x"
    and equal_sym: "EqualFunc c x y \<Longrightarrow> EqualFunc c y x"
    and equal_trans: "EqualFunc c x y \<Longrightarrow> EqualFunc c y z \<Longrightarrow> EqualFunc c x z"
begin

lemma same_entry_refl: "same_entry c x x"
  by (cases x) (auto intro: equal_refl)

lemma same_entry_sym: "same_entry c x y \<Longrightarrow> same_entry c y x"
  by (cases x; cases y) (auto intro: equal_sym)

lemma same_entry_trans: "same_entry c x y \<Longrightarrow> same_entry c y z \<Longrightarrow> same_entry c x z"
  by (cases x; cases y; cases z) (auto intro: equal_trans)

lemma compare_self: "go_range r \<Longrightarrow> \<not> IsChanged (CompareArrays r c xs xs)"
  by (simp add: IsChanged_iff same_entry_refl)

lemma compare_sym:
  "go_range r \<Longrightarrow> IsChanged (CompareArrays r c xs ys) = IsChanged (CompareArrays r c ys xs)"
  by (auto simp: IsChanged_iff intro: same_entry_sym)

lemma compare_trans:
  "go_range r \<Longrightarrow> \<not> IsChanged (CompareArrays r c xs ys) \<Longrightarrow> \<not> IsChanged (CompareArrays r c ys zs) \<Longrightarrow>
    \<not> IsChanged (CompareArrays r c xs zs)"
  by (auto simp: IsChanged_iff intro: same_entry_trans)

lemma patch_correct:
  assumes "go_range r"
  shows "same_entry c (patch c (CompareArrays r c old new) (map_of (keyGen c old)) k) (map_of (keyGen c new) k)"
  unfolding patch_lookup [OF assms] by (auto split: option.splits intro: equal_refl)

end

end
