(* ===== verification/Comparators.thy ===== *)
theory Comparators
  imports Data_Types Comparable
begin

section \<open>kglb/common: types\_comparators.go\<close>

text \<open>
  The comparators of the message types and the comparisons both planes call. The text of a message
  (\<open>String()\<close>) comes from generated code, so it is a parameter: \<open>ip_text\<close> of an address,
  \<open>lb_text\<close> of a load balancer service, \<open>dp_text\<close> of a data plane state. The source only uses it
  as a map key, so \<open>lb_text\<close> and \<open>dp_text\<close> may have any type; where a theorem needs that the text
  tells messages apart, it says so.

  The comparison inside \<open>BalancerStateComparable\<close> only asks whether anything changed, which no
  iteration order influences (\<open>IsChanged_order\<close>); the model visits the entries in insertion order.
\<close>

subsection \<open>Comparators\<close>

definition strings_Replace :: "char \<Rightarrow> char \<Rightarrow> string \<Rightarrow> string" where
  "strings_Replace a b s = map (\<lambda>c. if c = a then b else c) s"

definition BgpRoutingAttributesComparable ::
  "(IP option \<Rightarrow> string) \<Rightarrow> (BgpRouteAttributes option, string) ComparableImpl" where
  "BgpRoutingAttributesComparable ip_text =
     (let LocalAsn = (\<lambda>a. case a of None \<Rightarrow> 0 | Some b \<Rightarrow> bgp_LocalAsn b);
          PeerAsn = (\<lambda>a. case a of None \<Rightarrow> 0 | Some b \<Rightarrow> bgp_PeerAsn b);
          community = (\<lambda>a. strings_Replace (CHR '','') (CHR '' '') (case a of None \<Rightarrow> [] | Some b \<Rightarrow> bgp_Community b))
      in \<lparr>KeyFunc = (\<lambda>attr.
            dec (unat (LocalAsn attr)) @ '':'' @ dec (unat (PeerAsn attr)) @ '':'' @ community attr @ '':'' @
            ip_text (GetPrefix attr) @ '':'' @ dec (unat (GetPrefixlen attr))),
          EqualFunc = (\<lambda>attr1 attr2.
            LocalAsn attr1 = LocalAsn attr2 \<and> PeerAsn attr1 = PeerAsn attr2 \<and>
            community attr1 = community attr2 \<and>
            ip_text (GetPrefix attr1) = ip_text (GetPrefix attr2) \<and>
            GetPrefixlen attr1 = GetPrefixlen attr2)\<rparr>)"

definition DynamicRoutingComparable :: "(IP option \<Rightarrow> string) \<Rightarrow> (DynamicRoute, string) ComparableImpl" where
  "DynamicRoutingComparable ip_text =
     \<lparr>KeyFunc = (\<lambda>item. KeyFunc (BgpRoutingAttributesComparable ip_text) (GetBgpAttributes item)),
      EqualFunc = (\<lambda>item1 item2. EqualFunc (BgpRoutingAttributesComparable ip_text)
        (GetBgpAttributes item1) (GetBgpAttributes item2))\<rparr>"

definition UpstreamStateComparable :: "(UpstreamState, string) ComparableImpl" where
  "UpstreamStateComparable =
     \<lparr>KeyFunc = (\<lambda>item. IP_String (KglbAddrToNetIp (us_Address item)) @ '':'' @ dec (unat (us_Port item))),
      EqualFunc = (\<lambda>item1 item2. item1 = item2)\<rparr>"

definition UpstreamStateConv :: "UpstreamState list \<Rightarrow> UpstreamState list" where
  "UpstreamStateConv s = map (\<lambda>val. val) s"

definition UpstreamStateConvBack :: "UpstreamState list \<Rightarrow> UpstreamState list" where
  "UpstreamStateConvBack s = map (\<lambda>val. val) s"

definition CompareUpstreamState ::
  "(string \<times> UpstreamState) range_order \<Rightarrow> UpstreamState list \<Rightarrow> UpstreamState list \<Rightarrow> UpstreamState ComparableResult" where
  "CompareUpstreamState r oldSet newSet =
     CompareArrays r UpstreamStateComparable (UpstreamStateConv oldSet) (UpstreamStateConv newSet)"

definition LoadBalancerServiceComparable ::
  "(LoadBalancerService option \<Rightarrow> 'k) \<Rightarrow> (LoadBalancerService option, 'k) ComparableImpl" where
  "LoadBalancerServiceComparable lb_text =
     \<lparr>KeyFunc = lb_text, EqualFunc = (\<lambda>item1 item2. item1 = item2)\<rparr>"

definition BalancerStateComparable ::
  "(LoadBalancerService option \<Rightarrow> 'k) \<Rightarrow> (BalancerState, 'k) ComparableImpl" where
  "BalancerStateComparable lb_text =
     \<lparr>KeyFunc = (\<lambda>item. KeyFunc (LoadBalancerServiceComparable lb_text) (bs_LbService item)),
      EqualFunc = (\<lambda>balancer1 balancer2.
        bs_Name balancer1 = bs_Name balancer2 \<and>
        \<not> IsChanged (CompareUpstreamState (\<lambda>_ xs. xs) (bs_Upstreams balancer1) (bs_Upstreams balancer2)))\<rparr>"

definition LocalLinkAddrComparable :: "(LinkAddress, string) ComparableImpl" where
  "LocalLinkAddrComparable =
     \<lparr>KeyFunc = (\<lambda>item. la_LinkName item @ '':'' @ IP_String (KglbAddrToNetIp (la_Address item))),
      EqualFunc = (\<lambda>item1 item2. item1 = item2)\<rparr>"

subsection \<open>Comparisons\<close>

definition DynamicRoutingConv :: "DynamicRoute list \<Rightarrow> DynamicRoute list" where
  "DynamicRoutingConv s = map (\<lambda>val. val) s"

definition DynamicRoutingConvBack :: "DynamicRoute list \<Rightarrow> DynamicRoute list" where
  "DynamicRoutingConvBack s = map (\<lambda>val. val) s"

definition CompareDynamicRouting ::
  "(IP option \<Rightarrow> string) \<Rightarrow> (string \<times> DynamicRoute) range_order \<Rightarrow> DynamicRoute list \<Rightarrow> DynamicRoute list
    \<Rightarrow> DynamicRoute ComparableResult" where
  "CompareDynamicRouting ip_text r oldSet newSet =
     CompareArrays r (DynamicRoutingComparable ip_text) (DynamicRoutingConv oldSet) (DynamicRoutingConv newSet)"

definition BalancerStateConv :: "BalancerState list \<Rightarrow> BalancerState list" where
  "BalancerStateConv s = map (\<lambda>val. val) s"

definition BalancerStateConvBack :: "BalancerState list \<Rightarrow> BalancerState list" where
  "BalancerStateConvBack s = map (\<lambda>val. val) s"

definition CompareBalancerState ::
  "(LoadBalancerService option \<Rightarrow> 'k) \<Rightarrow> ('k \<times> BalancerState) range_order \<Rightarrow> BalancerState list
    \<Rightarrow> BalancerState list \<Rightarrow> BalancerState ComparableResult" where
  "CompareBalancerState lb_text r oldSet newSet =
     CompareArrays r (BalancerStateComparable lb_text) (BalancerStateConv oldSet) (BalancerStateConv newSet)"

definition LoadBalancerServiceConv :: "LoadBalancerService option list \<Rightarrow> LoadBalancerService option list" where
  "LoadBalancerServiceConv s = map (\<lambda>val. val) s"

definition CompareLoadBalancerService ::
  "(LoadBalancerService option \<Rightarrow> 'k) \<Rightarrow> ('k \<times> LoadBalancerService option) range_order
    \<Rightarrow> LoadBalancerService option list \<Rightarrow> LoadBalancerService option list
    \<Rightarrow> LoadBalancerService option ComparableResult" where
  "CompareLoadBalancerService lb_text r oldSet newSet =
     CompareArrays r (LoadBalancerServiceComparable lb_text)
       (LoadBalancerServiceConv oldSet) (LoadBalancerServiceConv newSet)"

definition LinkAddressStateConv :: "LinkAddress list \<Rightarrow> LinkAddress list" where
  "LinkAddressStateConv s = map (\<lambda>val. val) s"

definition LinkAddressStateConvBack :: "LinkAddress list \<Rightarrow> LinkAddress list" where
  "LinkAddressStateConvBack s = map (\<lambda>val. val) s"

definition CompareLocalLinkAddresses ::
  "(string \<times> LinkAddress) range_order \<Rightarrow> LinkAddress list \<Rightarrow> LinkAddress list \<Rightarrow> LinkAddress ComparableResult" where
  "CompareLocalLinkAddresses r oldSet newSet =
     CompareArrays r LocalLinkAddrComparable (LinkAddressStateConv oldSet) (LinkAddressStateConv newSet)"

definition DataPlaneStateComparable ::
  "(DataPlaneState \<Rightarrow> 'd) \<Rightarrow> (LoadBalancerService option \<Rightarrow> 'k) \<Rightarrow> (IP option \<Rightarrow> string) \<Rightarrow> (DataPlaneState, 'd) ComparableImpl" where
  "DataPlaneStateComparable dp_text lb_text ip_text =
     \<lparr>KeyFunc = dp_text,
      EqualFunc = (\<lambda>dpState1 dpState2.
        if IsChanged (CompareBalancerState lb_text (\<lambda>_ xs. xs) (dp_Balancers dpState1) (dp_Balancers dpState2))
        then False
        else if IsChanged (CompareDynamicRouting ip_text (\<lambda>_ xs. xs) (dp_DynamicRoutes dpState1) (dp_DynamicRoutes dpState2))
        then False
        else if IsChanged (CompareLocalLinkAddresses (\<lambda>_ xs. xs) (dp_LinkAddresses dpState1) (dp_LinkAddresses dpState2))
        then False
        else True)\<rparr>"

subsection \<open>Every comparator keeps the contract\<close>

lemmas conv_defs [simp] =
  UpstreamStateConv_def UpstreamStateConvBack_def DynamicRoutingConv_def DynamicRoutingConvBack_def
  BalancerStateConv_def BalancerStateConvBack_def LoadBalancerServiceConv_def
  LinkAddressStateConv_def LinkAddressStateConvBack_def

lemmas compare_defs =
  CompareUpstreamState_def CompareDynamicRouting_def CompareBalancerState_def
  CompareLoadBalancerService_def CompareLocalLinkAddresses_def

interpretation bgp_cmp: comparable_contract "BgpRoutingAttributesComparable ip_text" for ip_text
  by unfold_locales (simp_all add: BgpRoutingAttributesComparable_def Let_def)

interpretation route_cmp: comparable_contract "DynamicRoutingComparable ip_text" for ip_text
  by unfold_locales
     (auto simp: DynamicRoutingComparable_def intro: bgp_cmp.equal_refl bgp_cmp.equal_sym bgp_cmp.equal_trans)

interpretation upstream_cmp: comparable_contract UpstreamStateComparable
  by unfold_locales (simp_all add: UpstreamStateComparable_def)

interpretation lb_cmp: comparable_contract "LoadBalancerServiceComparable lb_text" for lb_text
  by unfold_locales (simp_all add: LoadBalancerServiceComparable_def)

interpretation link_cmp: comparable_contract LocalLinkAddrComparable
  by unfold_locales (simp_all add: LocalLinkAddrComparable_def)

interpretation balancer_cmp: comparable_contract "BalancerStateComparable lb_text" for lb_text
proof unfold_locales
  fix x y z
  show "EqualFunc (BalancerStateComparable lb_text) x x"
    by (simp add: BalancerStateComparable_def CompareUpstreamState_def upstream_cmp.compare_self)
  show "EqualFunc (BalancerStateComparable lb_text) x y \<Longrightarrow> EqualFunc (BalancerStateComparable lb_text) y x"
    by (simp add: BalancerStateComparable_def CompareUpstreamState_def upstream_cmp.compare_sym [of "\<lambda>_ xs. xs" "bs_Upstreams y"])
  show "EqualFunc (BalancerStateComparable lb_text) x y \<Longrightarrow> EqualFunc (BalancerStateComparable lb_text) y z \<Longrightarrow>
      EqualFunc (BalancerStateComparable lb_text) x z"
    using upstream_cmp.compare_trans [of "\<lambda>_ xs. xs" "bs_Upstreams x" "bs_Upstreams y" "bs_Upstreams z"]
    by (simp add: BalancerStateComparable_def CompareUpstreamState_def)
qed

lemma DataPlaneStateComparable_Equal:
  "EqualFunc (DataPlaneStateComparable dp_text lb_text ip_text) s t \<longleftrightarrow>
     \<not> IsChanged (CompareBalancerState lb_text (\<lambda>_ xs. xs) (dp_Balancers s) (dp_Balancers t)) \<and>
     \<not> IsChanged (CompareDynamicRouting ip_text (\<lambda>_ xs. xs) (dp_DynamicRoutes s) (dp_DynamicRoutes t)) \<and>
     \<not> IsChanged (CompareLocalLinkAddresses (\<lambda>_ xs. xs) (dp_LinkAddresses s) (dp_LinkAddresses t))"
  by (simp add: DataPlaneStateComparable_def)

interpretation dp_cmp: comparable_contract "DataPlaneStateComparable dp_text lb_text ip_text"
  for dp_text lb_text ip_text
proof unfold_locales
  fix x y z :: DataPlaneState
  let ?E = "EqualFunc (DataPlaneStateComparable dp_text lb_text ip_text)"
  show "?E x x"
    by (simp add: DataPlaneStateComparable_Equal compare_defs
        balancer_cmp.compare_self route_cmp.compare_self link_cmp.compare_self)
  show "?E x y \<Longrightarrow> ?E y x"
    unfolding DataPlaneStateComparable_Equal compare_defs
    using balancer_cmp.compare_sym route_cmp.compare_sym link_cmp.compare_sym go_range_id by metis
  show "?E x y \<Longrightarrow> ?E y z \<Longrightarrow> ?E x z"
    unfolding DataPlaneStateComparable_Equal compare_defs
    using balancer_cmp.compare_trans route_cmp.compare_trans link_cmp.compare_trans go_range_id by metis
qed

text \<open>Upstreams are compared by value, so equal means identical.\<close>

lemma upstream_same_entry: "same_entry UpstreamStateComparable x y \<longleftrightarrow> x = y"
  by (cases x; cases y) (simp_all add: UpstreamStateComparable_def)

lemma link_same_entry: "same_entry LocalLinkAddrComparable x y \<longleftrightarrow> x = y"
  by (cases x; cases y) (simp_all add: LocalLinkAddrComparable_def)

end
