(* ===== verification/Dp_Modules.thy ===== *)
theory Dp_Modules
  imports Comparators
begin

section \<open>kglb/data\_plane: the interfaces of the modules\<close>

text \<open>
  The data plane manager works through four modules: ipvs (ipvs\_module.go), BGP (bgp\_module.go),
  the address table (netlink\_address\_module.go) and the resolver (resolver\_module.go). A module is
  a record of operations on a world of type \<open>'s\<close>, the state of everything behind the modules. An
  operation may fail after having changed the world. The one use of the resolver's concrete type,
  \<open>UpdateCache\<close> of a \<open>CacheResolver\<close>, is a field of the resolver; for any other resolver it does
  nothing. The second part states what the manager relies on as a locale.
\<close>

subsection \<open>Interfaces\<close>

record 's IpvsModule =
  im_AddService :: "IpvsService \<Rightarrow> ('s, unit) act"
  im_DeleteService :: "IpvsService \<Rightarrow> ('s, unit) act"
  im_ListServices :: "('s, IpvsService list \<times> Stats list) act"
  im_GetRealServers :: "IpvsService \<Rightarrow> ('s, UpstreamState list \<times> Stats list) act"
  im_AddRealServers :: "IpvsService \<Rightarrow> UpstreamState list \<Rightarrow> ('s, unit) act"
  im_DeleteRealServers :: "IpvsService \<Rightarrow> UpstreamState list \<Rightarrow> ('s, unit) act"
  im_UpdateRealServers :: "IpvsService \<Rightarrow> UpstreamState list \<Rightarrow> ('s, unit) act"

record 's BgpModule =
  bm_Init :: "u32 \<Rightarrow> ('s, unit) act"
  bm_Advertise :: "BgpRouteAttributes option \<Rightarrow> ('s, unit) act"
  bm_Withdraw :: "BgpRouteAttributes option \<Rightarrow> ('s, unit) act"
  bm_ListPaths :: "('s, BgpRouteAttributes option list) act"
  bm_IsSessionEstablished :: "('s, bool) act"

record 's AddressTableModule =
  at_Add :: "net_ip \<Rightarrow> string \<Rightarrow> ('s, unit) act"
  at_Delete :: "net_ip \<Rightarrow> string \<Rightarrow> ('s, unit) act"
  at_IsExists :: "net_ip \<Rightarrow> string \<Rightarrow> ('s, bool) act"
  at_List :: "string \<Rightarrow> ('s, net_ip list) act"

record HostnameCacheEntry =
  hce_IPv4 :: net_ip
  hce_IPv6 :: net_ip

record 's ResolverModule =
  rm_Lookup :: "string \<Rightarrow> ('s, HostnameCacheEntry) act"
  rm_ReverseLookup :: "net_ip \<Rightarrow> ('s, string) act"
  rm_ServiceLookup :: "IpvsService option \<Rightarrow> ('s, string) act"
  rm_Cluster :: "string \<Rightarrow> string"
  rm_UpdateCache :: "DataPlaneState option \<Rightarrow> ('s, unit) act"

record 's ManagerModules =
  mm_Bgp :: "'s BgpModule"
  mm_AddressTable :: "'s AddressTableModule"
  mm_Ipvs :: "'s IpvsModule"
  mm_Resolver :: "'s ResolverModule"
  mm_ShutdownHandler :: "(DataPlaneState \<Rightarrow> ('s, unit) act) option"

text \<open>The key \<open>CompareUpstreamState\<close> gives an upstream, \<open>address:port\<close>.\<close>

abbreviation upkey :: "UpstreamState \<Rightarrow> string" where
  "upkey \<equiv> KeyFunc UpstreamStateComparable"

subsection \<open>What the modules promise\<close>

text \<open>
  The abstract view of a world: the ipvs services with their real servers, the advertised routes,
  the addresses of the interfaces and the names of the services.
\<close>

record dp_view =
  v_tbl :: "IpvsService \<rightharpoonup> UpstreamState multiset"
  v_paths :: "BgpRouteAttributes option multiset"
  v_addrs :: "net_ip \<Rightarrow> string \<Rightarrow> bool"
  v_name :: "IpvsService \<Rightarrow> string"

definition replace_ups :: "UpstreamState list \<Rightarrow> UpstreamState \<Rightarrow> UpstreamState" where
  "replace_ups us u = (case find (\<lambda>d. upkey d = upkey u) us of Some d \<Rightarrow> d | None \<Rightarrow> u)"

definition same_but_weight :: "UpstreamState \<Rightarrow> UpstreamState \<Rightarrow> bool" where
  "same_but_weight u d \<longleftrightarrow> d = u\<lparr>us_Weight := us_Weight d\<rparr>"

text \<open>A service with the attributes of its kind, and the services a state names.\<close>

definition wf_service :: "IpvsService \<Rightarrow> bool" where
  "wf_service s \<longleftrightarrow> attr_ident (ipvs_Attributes s) \<noteq> None"

definition lb_named :: "DataPlaneState \<Rightarrow> IpvsService \<Rightarrow> string \<Rightarrow> bool" where
  "lb_named state svc name \<longleftrightarrow> (\<exists>b\<in>set (dp_Balancers state). bs_LbService b = Some (mk_lb svc) \<and> bs_Name b = name)"

locale dp_modules =
  fixes M :: "'s ManagerModules"
    and ip_text :: "IP option \<Rightarrow> string"
    and abs :: "'s \<Rightarrow> dp_view"
    and ok :: "'s \<Rightarrow> bool"
    and ifaces :: "string set"
    and names_ok :: "DataPlaneState \<Rightarrow> bool"
  assumes tbl_keys: "ok w \<Longrightarrow> v_tbl (abs w) s = Some U \<Longrightarrow> uniq upkey U"
    and ListServices_ok: "ok w \<Longrightarrow> \<exists>ss st. im_ListServices (mm_Ipvs M) w = (Inr (ss, st), w) \<and> distinct ss \<and> set ss = dom (v_tbl (abs w)) \<and>
        (\<forall>s\<in>set ss. wf_service s)"
    and GetRealServers_ok: "ok w \<Longrightarrow> v_tbl (abs w) s = Some U \<Longrightarrow>
      \<exists>us st. im_GetRealServers (mm_Ipvs M) s w = (Inr (us, st), w) \<and> mset us = U"
    and AddService_ok: "ok w \<Longrightarrow> wf_service s \<Longrightarrow> v_tbl (abs w) s = None \<Longrightarrow>
      \<exists>w'. im_AddService (mm_Ipvs M) s w = (Inr (), w') \<and> ok w' \<and> abs w' = (abs w)\<lparr>v_tbl := (v_tbl (abs w))(s \<mapsto> {#})\<rparr>"
    and DeleteService_ok: "ok w \<Longrightarrow> v_tbl (abs w) s = Some U \<Longrightarrow>
      \<exists>w'. im_DeleteService (mm_Ipvs M) s w = (Inr (), w') \<and> ok w' \<and> abs w' = (abs w)\<lparr>v_tbl := (v_tbl (abs w))(s := None)\<rparr>"
    and AddRealServers_ok: "ok w \<Longrightarrow> v_tbl (abs w) s = Some U \<Longrightarrow> distinct (map upkey us) \<Longrightarrow>
      upkey ` set us \<inter> upkey ` set_mset U = {} \<Longrightarrow>
      \<exists>w'. im_AddRealServers (mm_Ipvs M) s us w = (Inr (), w') \<and> ok w' \<and> abs w' = (abs w)\<lparr>v_tbl := (v_tbl (abs w))(s \<mapsto> U + mset us)\<rparr>"
    and DeleteRealServers_ok: "ok w \<Longrightarrow> v_tbl (abs w) s = Some U \<Longrightarrow> mset us \<subseteq># U \<Longrightarrow>
      \<exists>w'. im_DeleteRealServers (mm_Ipvs M) s us w = (Inr (), w') \<and> ok w' \<and> abs w' = (abs w)\<lparr>v_tbl := (v_tbl (abs w))(s \<mapsto> U - mset us)\<rparr>"
    and UpdateRealServers_ok: "ok w \<Longrightarrow> v_tbl (abs w) s = Some U \<Longrightarrow> distinct (map upkey us) \<Longrightarrow>
      \<forall>d\<in>set us. \<exists>u. u \<in># U \<and> same_but_weight u d \<Longrightarrow>
      \<exists>w'. im_UpdateRealServers (mm_Ipvs M) s us w = (Inr (), w') \<and> ok w' \<and>
        abs w' = (abs w)\<lparr>v_tbl := (v_tbl (abs w))(s \<mapsto> image_mset (replace_ups us) U)\<rparr>"
    and ListPaths_ok: "ok w \<Longrightarrow> \<exists>ps. bm_ListPaths (mm_Bgp M) w = (Inr ps, w) \<and> mset ps = v_paths (abs w)"
    and Init_ok: "ok w \<Longrightarrow> \<exists>w'. bm_Init (mm_Bgp M) asn w = (Inr (), w') \<and> ok w' \<and> abs w' = abs w"
    and Advertise_ok: "ok w \<Longrightarrow> \<forall>p. p \<in># v_paths (abs w) \<longrightarrow> \<not> EqualFunc (BgpRoutingAttributesComparable ip_text) p route \<Longrightarrow>
      \<exists>w'. bm_Advertise (mm_Bgp M) route w = (Inr (), w') \<and> ok w' \<and> abs w' = (abs w)\<lparr>v_paths := add_mset route (v_paths (abs w))\<rparr>"
    and Withdraw_ok: "ok w \<Longrightarrow> p \<in># v_paths (abs w) \<Longrightarrow> EqualFunc (BgpRoutingAttributesComparable ip_text) p route \<Longrightarrow>
      \<exists>q w'. bm_Withdraw (mm_Bgp M) route w = (Inr (), w') \<and> ok w' \<and> q \<in># v_paths (abs w) \<and>
        EqualFunc (BgpRoutingAttributesComparable ip_text) q route \<and> abs w' = (abs w)\<lparr>v_paths := v_paths (abs w) - {#q#}\<rparr>"
    and addrs_equal: "ok w \<Longrightarrow> IP_Equal a b \<Longrightarrow> v_addrs (abs w) a i = v_addrs (abs w) b i"
    and IsExists_ok: "ok w \<Longrightarrow> i \<in> ifaces \<Longrightarrow> at_IsExists (mm_AddressTable M) a i w = (Inr (v_addrs (abs w) a i), w)"
    and Add_ok: "ok w \<Longrightarrow> i \<in> ifaces \<Longrightarrow> \<not> v_addrs (abs w) a i \<Longrightarrow>
      \<exists>w'. at_Add (mm_AddressTable M) a i w = (Inr (), w') \<and> ok w' \<and>
        abs w' = (abs w)\<lparr>v_addrs := (\<lambda>b j. v_addrs (abs w) b j \<or> (j = i \<and> IP_Equal a b))\<rparr>"
    and Delete_ok: "ok w \<Longrightarrow> i \<in> ifaces \<Longrightarrow> v_addrs (abs w) a i \<Longrightarrow>
      \<exists>w'. at_Delete (mm_AddressTable M) a i w = (Inr (), w') \<and> ok w' \<and>
        abs w' = (abs w)\<lparr>v_addrs := (\<lambda>b j. v_addrs (abs w) b j \<and> \<not> (j = i \<and> IP_Equal a b))\<rparr>"
    and ServiceLookup_ok: "ok w \<Longrightarrow> wf_service s \<Longrightarrow> rm_ServiceLookup (mm_Resolver M) (Some s) w = (Inr (v_name (abs w) s), w)"
    and UpdateCache_ok: "ok w \<Longrightarrow> names_ok state \<Longrightarrow>
      \<exists>w'. rm_UpdateCache (mm_Resolver M) (Some state) w = (Inr (), w') \<and> ok w' \<and>
        v_paths (abs w') = v_paths (abs w) \<and> v_addrs (abs w') = v_addrs (abs w) \<and>
        v_tbl (abs w') = v_tbl (abs w) \<and>
        (\<forall>svc name. lb_named state svc name \<longrightarrow> v_name (abs w') svc = name)"

end
