(* ===== verification/Dp_Managers.thy ===== *)
theory Dp_Managers
  imports Dp_Modules
begin

section \<open>kglb/data\_plane: manager\_address.go, manager\_dynamic\_routing.go, manager\_balancer.go\<close>

text \<open>
  The three managers below the data plane manager. Each acts on its own state, paired with the
  world of the modules; the balancer manager has no state. The text of a link address
  (\<open>String()\<close>) is a parameter that is only used as a map key. Time the routing manager sleeps is
  accumulated in milliseconds in its state. Gauges are left out. \<open>ListRoutes\<close> gets its own copies of
  the routes from the module.
\<close>

subsection \<open>AddressManager\<close>

record 'l AddressManager =
  am_state :: "('l, LinkAddress) gomap"

definition NewAddressManager :: "'l AddressManager" where
  "NewAddressManager = \<lparr>am_state = []\<rparr>"

definition AddAddress ::
  "'s AddressTableModule \<Rightarrow> (LinkAddress \<Rightarrow> 'l) \<Rightarrow> LinkAddress \<Rightarrow> ('l AddressManager \<times> 's, unit) act" where
  "AddAddress AddressTable link_text linkAddress =
     (let serviceAddr = KglbAddrToNetIp (la_Address linkAddress);
          iface = la_LinkName linkAddress
      in bind_a (wrap_a ''failed to check if address is configured'' (on_snd (at_IsExists AddressTable serviceAddr iface))) (\<lambda>exists.
         bind_a (when_a (\<not> exists)
           (wrap_a ''failed to add VIP address to interface'' (on_snd (at_Add AddressTable serviceAddr iface)))) (\<lambda>_.
         modify_a (\<lambda>(m, w). (m\<lparr>am_state := AList.update (link_text linkAddress) linkAddress (am_state m)\<rparr>, w)))))"

definition AddAddresses ::
  "'s AddressTableModule \<Rightarrow> (LinkAddress \<Rightarrow> 'l) \<Rightarrow> LinkAddress list \<Rightarrow> ('l AddressManager \<times> 's, unit) act" where
  "AddAddresses AddressTable link_text addresses = each_a (AddAddress AddressTable link_text) addresses"

definition DeleteAddress ::
  "'s AddressTableModule \<Rightarrow> (LinkAddress \<Rightarrow> 'l) \<Rightarrow> LinkAddress \<Rightarrow> ('l AddressManager \<times> 's, unit) act" where
  "DeleteAddress AddressTable link_text linkAddress =
     (let serviceAddr = KglbAddrToNetIp (la_Address linkAddress);
          iface = la_LinkName linkAddress
      in bind_a (wrap_a ''failed to check if address is configured'' (on_snd (at_IsExists AddressTable serviceAddr iface))) (\<lambda>exists.
         bind_a (when_a exists
           (wrap_a ''failed to delete VIP address to interface'' (on_snd (at_Delete AddressTable serviceAddr iface)))) (\<lambda>_.
         modify_a (\<lambda>(m, w).
           (if map_of (am_state m) (link_text linkAddress) \<noteq> None
            then m\<lparr>am_state := AList.delete (link_text linkAddress) (am_state m)\<rparr> else m, w)))))"

definition DeleteAddresses ::
  "'s AddressTableModule \<Rightarrow> (LinkAddress \<Rightarrow> 'l) \<Rightarrow> LinkAddress list \<Rightarrow> ('l AddressManager \<times> 's, unit) act" where
  "DeleteAddresses AddressTable link_text addresses = each_a (DeleteAddress AddressTable link_text) addresses"

definition ListAddresses :: "'s AddressTableModule \<Rightarrow> string \<Rightarrow> ('l AddressManager \<times> 's, LinkAddress list) act" where
  "ListAddresses AddressTable iface =
     bind_a (wrap_a ''failed to check if address is configured:'' (on_snd (at_List AddressTable iface))) (\<lambda>addresses.
       ret_a (map (\<lambda>address. \<lparr>la_LinkName = iface, la_Address = Some (NetIpToKglbAddr address)\<rparr>) addresses))"

text \<open>The loop of \<open>State\<close> over the tracked addresses, in the order the map is visited.\<close>

fun stateLoop :: "'s AddressTableModule \<Rightarrow> LinkAddress list \<Rightarrow> ('s, LinkAddress list) act" where
  "stateLoop AddressTable [] = ret_a []"
| "stateLoop AddressTable (link # links) =
     bind_a (wrap_a ''failed to check if address is configured''
       (at_IsExists AddressTable (KglbAddrToNetIp (la_Address link)) (la_LinkName link))) (\<lambda>exists.
     bind_a (stateLoop AddressTable links) (\<lambda>state.
       ret_a (if exists then link # state else state)))"

definition AddressManager_State ::
  "'s AddressTableModule \<Rightarrow> ('l \<times> LinkAddress) range_order \<Rightarrow> ('l AddressManager \<times> 's, LinkAddress list) act" where
  "AddressManager_State AddressTable r = (\<lambda>(m, w).
     on_snd (stateLoop AddressTable (map snd (r 0 (am_state m)))) (m, w))"

subsection \<open>DynamicRoutingManager\<close>

record DynamicRoutingManager =
  dr_holdTimeouts :: "(string, u32) gomap"
  dr_slept :: nat

definition NewDynamicRoutingManager :: DynamicRoutingManager where
  "NewDynamicRoutingManager = \<lparr>dr_holdTimeouts = [], dr_slept = 0\<rparr>"

definition getBgpRouting :: "DynamicRoute \<Rightarrow> BgpRouteAttributes option result" where
  "getBgpRouting routing =
     (case dr_Attributes routing of
        Some (DynamicRoute_Bgp _) \<Rightarrow> Inr (GetBgpAttributes routing)
      | None \<Rightarrow> fail ''Unknown routing attribute'')"

abbreviation bgp_hold :: "BgpRouteAttributes option \<Rightarrow> u32" where
  "bgp_hold b \<equiv> (case b of None \<Rightarrow> 0 | Some a \<Rightarrow> bgp_HoldTimeMs a)"

abbreviation bgp_asn :: "BgpRouteAttributes option \<Rightarrow> u32" where
  "bgp_asn b \<equiv> (case b of None \<Rightarrow> 0 | Some a \<Rightarrow> bgp_LocalAsn a)"

definition holdRoute :: "(IP option \<Rightarrow> string) \<Rightarrow> (string, u32) gomap \<Rightarrow> BgpRouteAttributes option \<Rightarrow> DynamicRoute result" where
  "holdRoute ip_text holdTimeouts route =
     bind_r (case map_of holdTimeouts (ip_text (GetPrefix route)) of
               None \<Rightarrow> Inr route
             | Some val \<Rightarrow> (case route of None \<Rightarrow> nilDeref | Some a \<Rightarrow> Inr (Some (a\<lparr>bgp_HoldTimeMs := val\<rparr>))))
       (\<lambda>route. Inr \<lparr>dr_Attributes = Some (DynamicRoute_Bgp route)\<rparr>)"

definition ListRoutes ::
  "'s BgpModule \<Rightarrow> (IP option \<Rightarrow> string) \<Rightarrow> (DynamicRoutingManager \<times> 's, DynamicRoute list) act" where
  "ListRoutes Bgp ip_text = (\<lambda>(m, w).
     bind_a (on_snd (bm_ListPaths Bgp)) (\<lambda>bgpRoutes.
       map_a (\<lambda>route. lift_r (holdRoute ip_text (dr_holdTimeouts m) route)) bgpRoutes) (m, w))"

definition advertiseRouteLocked ::
  "'s BgpModule \<Rightarrow> (IP option \<Rightarrow> string) \<Rightarrow> DynamicRoute \<Rightarrow> (DynamicRoutingManager \<times> 's, unit) act" where
  "advertiseRouteLocked Bgp ip_text route =
     bind_a (wrap_a ''failed to extract bgp attributes: '' (lift_r (getBgpRouting route))) (\<lambda>bgpRoute.
     bind_a (wrap_a ''failed to init bgp session: '' (on_snd (bm_Init Bgp (bgp_asn bgpRoute)))) (\<lambda>_.
     bind_a (wrap_a ''failed to advertise bgp path: '' (on_snd (bm_Advertise Bgp bgpRoute))) (\<lambda>_.
     modify_a (\<lambda>(m, w).
       (m\<lparr>dr_holdTimeouts := AList.update (ip_text (GetPrefix bgpRoute)) (bgp_hold bgpRoute) (dr_holdTimeouts m)\<rparr>, w)))))"

definition AdvertiseRoutes ::
  "'s BgpModule \<Rightarrow> (IP option \<Rightarrow> string) \<Rightarrow> DynamicRoute list \<Rightarrow> (DynamicRoutingManager \<times> 's, unit) act" where
  "AdvertiseRoutes Bgp ip_text routes = each_a (advertiseRouteLocked Bgp ip_text) routes"

definition withdrawRouteLocked ::
  "'s BgpModule \<Rightarrow> (IP option \<Rightarrow> string) \<Rightarrow> DynamicRoute \<Rightarrow> (DynamicRoutingManager \<times> 's, nat) act" where
  "withdrawRouteLocked Bgp ip_text route =
     bind_a (lift_r (getBgpRouting route)) (\<lambda>bgpRoute.
     bind_a (wrap_a ''failed to withdraw dynamic route'' (on_snd (bm_Withdraw Bgp bgpRoute))) (\<lambda>_.
     (let holdTimeout = unat (bgp_hold bgpRoute);
          key = ip_text (GetPrefix bgpRoute)
      in bind_a (modify_a (\<lambda>(m, w).
           (if map_of (dr_holdTimeouts m) key \<noteq> None
            then m\<lparr>dr_holdTimeouts := AList.delete key (dr_holdTimeouts m)\<rparr> else m, w))) (\<lambda>_. ret_a holdTimeout))))"

fun withdrawLoop ::
  "'s BgpModule \<Rightarrow> (IP option \<Rightarrow> string) \<Rightarrow> DynamicRoute list \<Rightarrow> nat \<Rightarrow> (DynamicRoutingManager \<times> 's, nat) act" where
  "withdrawLoop Bgp ip_text [] maxTimeout = ret_a maxTimeout"
| "withdrawLoop Bgp ip_text (route # routes) maxTimeout =
     bind_a (withdrawRouteLocked Bgp ip_text route) (\<lambda>holdTimeout.
       withdrawLoop Bgp ip_text routes (if holdTimeout > maxTimeout then holdTimeout else maxTimeout))"

definition WithdrawRoutes ::
  "'s BgpModule \<Rightarrow> (IP option \<Rightarrow> string) \<Rightarrow> DynamicRoute list \<Rightarrow> (DynamicRoutingManager \<times> 's, unit) act" where
  "WithdrawRoutes Bgp ip_text routes =
     bind_a (withdrawLoop Bgp ip_text routes 0) (\<lambda>maxTimeout.
       when_a (maxTimeout > 0) (modify_a (\<lambda>(m, w). (m\<lparr>dr_slept := dr_slept m + maxTimeout\<rparr>, w))))"

definition IsSessionEstablished :: "'s BgpModule \<Rightarrow> ('s, bool) act" where
  "IsSessionEstablished Bgp = bm_IsSessionEstablished Bgp"

subsection \<open>BalancerManager\<close>

definition getBalancer :: "'s ManagerModules \<Rightarrow> IpvsService \<Rightarrow> ('s, BalancerState) act" where
  "getBalancer M ipvsService =
     bind_a (rm_ServiceLookup (mm_Resolver M) (Some ipvsService)) (\<lambda>serviceName.
     bind_a (wrap_a ''GetBalancer() fails because of GetRealServers(): '' (im_GetRealServers (mm_Ipvs M) ipvsService)) (\<lambda>(configuredReals, _).
     ret_a \<lparr>bs_Name = serviceName, bs_LbService = Some (mk_lb ipvsService), bs_Upstreams = configuredReals\<rparr>))"

definition GetBalancers :: "'s ManagerModules \<Rightarrow> ('s, BalancerState list) act" where
  "GetBalancers M =
     bind_a (wrap_a ''GetBalancer() fails because of Ipvs.ListServices(): '' (im_ListServices (mm_Ipvs M))) (\<lambda>(ipvsServices, _).
       map_a (getBalancer M) ipvsServices)"

definition AddBalancer :: "'s ManagerModules \<Rightarrow> BalancerState \<Rightarrow> ('s, unit) act" where
  "AddBalancer M balancer =
     bind_a (wrap_a ''fails to extract ipvs service from balancer: '' (lift_r (GetIpvsServiceFromBalancer (Some balancer)))) (\<lambda>ipvsService.
     bind_a (wrap_a ''failed to create IPVS service: '' (im_AddService (mm_Ipvs M) ipvsService)) (\<lambda>_.
     wrap_a ''failed to add upstreams: '' (im_AddRealServers (mm_Ipvs M) ipvsService (bs_Upstreams balancer))))"

definition AddBalancers :: "'s ManagerModules \<Rightarrow> BalancerState list \<Rightarrow> ('s, unit) act" where
  "AddBalancers M balancers = each_a (\<lambda>balancer. wrap_a ''failed to add balancer'' (AddBalancer M balancer)) balancers"

definition DeleteBalancer :: "'s ManagerModules \<Rightarrow> BalancerState \<Rightarrow> ('s, unit) act" where
  "DeleteBalancer M balancer =
     bind_a (wrap_a ''fails to extract ipvs service from balancer: '' (lift_r (GetIpvsServiceFromBalancer (Some balancer)))) (\<lambda>ipvsService.
     wrap_a ''failed to delete IPVS service: '' (im_DeleteService (mm_Ipvs M) ipvsService))"

definition DeleteBalancers :: "'s ManagerModules \<Rightarrow> BalancerState list \<Rightarrow> ('s, unit) act" where
  "DeleteBalancers M balancers = each_a (\<lambda>balancer. wrap_a ''failed to delete balancer'' (DeleteBalancer M balancer)) balancers"

definition AddUpstreams :: "'s ManagerModules \<Rightarrow> LoadBalancerService option \<Rightarrow> UpstreamState list \<Rightarrow> ('s, unit) act" where
  "AddUpstreams M lbService upstreams =
     bind_a (wrap_a ''fails to extract ipvs service from LoadBalancerService: '' (lift_r (GetIpvsServiceFromLbService lbService))) (\<lambda>ipvsService.
     wrap_a ''failed to add upstreams: '' (im_AddRealServers (mm_Ipvs M) ipvsService upstreams))"

definition DeleteUpstreams :: "'s ManagerModules \<Rightarrow> LoadBalancerService option \<Rightarrow> UpstreamState list \<Rightarrow> ('s, unit) act" where
  "DeleteUpstreams M lbService upstreams =
     bind_a (wrap_a ''fails to extract ipvs service from LoadBalancerService: '' (lift_r (GetIpvsServiceFromLbService lbService))) (\<lambda>ipvsService.
     wrap_a ''failed to delete upstreams: '' (im_DeleteRealServers (mm_Ipvs M) ipvsService upstreams))"

definition UpdateUpstreams :: "'s ManagerModules \<Rightarrow> LoadBalancerService option \<Rightarrow> UpstreamState list \<Rightarrow> ('s, unit) act" where
  "UpdateUpstreams M lbService upstreams =
     bind_a (wrap_a ''fails to extract ipvs service from LoadBalancerService: '' (lift_r (GetIpvsServiceFromLbService lbService))) (\<lambda>ipvsService.
     wrap_a ''failed to update upstreams: '' (im_UpdateRealServers (mm_Ipvs M) ipvsService upstreams))"

end
