(* ===== verification/Dp_Manager.thy ===== *)
theory Dp_Manager
  imports Dp_Managers
begin

section \<open>kglb/data\_plane: manager.go\<close>

text \<open>
  \<open>Manager.SetState\<close> brings the world to a wanted state: it reads the current state through the
  modules, computes three differences and applies them in seven phases, stopping at the first error.
  The texts of messages used as map keys and the orders in which Go visits maps are the fields of an
  environment; the upstreams of different balancers may be visited in different orders. The clock is
  the field \<open>e_now\<close>. The gauges are left out; the counters of \<open>EmitStats\<close> are in theory Dp\_Stats.
\<close>

subsection \<open>State and environment\<close>

record ('k, 'l) dp_env =
  e_ip_text :: "IP option \<Rightarrow> string"
  e_lb_text :: "LoadBalancerService option \<Rightarrow> 'k"
  e_link_text :: "LinkAddress \<Rightarrow> 'l"
  e_balancers :: "('k \<times> BalancerState) range_order"
  e_routes :: "(string \<times> DynamicRoute) range_order"
  e_links :: "(string \<times> LinkAddress) range_order"
  e_upstreams :: "BalancerState \<Rightarrow> (string \<times> UpstreamState) range_order"
  e_addrs :: "('l \<times> LinkAddress) range_order"
  e_now :: nat

definition env_ok :: "('k, 'l) dp_env \<Rightarrow> bool" where
  "env_ok e \<longleftrightarrow> inj (e_lb_text e) \<and> inj (e_link_text e) \<and> go_range (e_balancers e) \<and> go_range (e_routes e) \<and>
     go_range (e_links e) \<and> (\<forall>b. go_range (e_upstreams e b)) \<and> go_range (e_addrs e)"

record 'l DpManager =
  dm_dynRoutingMng :: DynamicRoutingManager
  dm_addressManager :: "'l AddressManager"
  dm_lastSuccessfulStateChange :: nat
  dm_shutdownOnce :: bool

definition NewDpManager :: "nat \<Rightarrow> 'l DpManager" where
  "NewDpManager now =
     \<lparr>dm_dynRoutingMng = NewDynamicRoutingManager, dm_addressManager = NewAddressManager,
      dm_lastSuccessfulStateChange = now, dm_shutdownOnce = False\<rparr>"

definition on_routing :: "(DynamicRoutingManager \<times> 's, 'a) act \<Rightarrow> ('l DpManager \<times> 's, 'a) act" where
  "on_routing f = (\<lambda>(m, w). case f (dm_dynRoutingMng m, w) of (r, (d, w')) \<Rightarrow> (r, (m\<lparr>dm_dynRoutingMng := d\<rparr>, w')))"

definition on_addresses :: "('l AddressManager \<times> 's, 'a) act \<Rightarrow> ('l DpManager \<times> 's, 'a) act" where
  "on_addresses f = (\<lambda>(m, w). case f (dm_addressManager m, w) of (r, (a, w')) \<Rightarrow> (r, (m\<lparr>dm_addressManager := a\<rparr>, w')))"

subsection \<open>Reading the state\<close>

definition getStateNonThreadSafe ::
  "'s ManagerModules \<Rightarrow> ('k, 'l) dp_env \<Rightarrow> ('l DpManager \<times> 's, DataPlaneState) act" where
  "getStateNonThreadSafe M e =
     bind_a (wrap_a ''BalancerManager error: '' (on_snd (GetBalancers M))) (\<lambda>balancerState.
     bind_a (wrap_a ''DynamicRoutingManager error: '' (on_routing (ListRoutes (mm_Bgp M) (e_ip_text e)))) (\<lambda>routingState.
     bind_a (wrap_a ''AddressManager error: '' (on_addresses (AddressManager_State (mm_AddressTable M) (e_addrs e)))) (\<lambda>linkAddresses.
     ret_a \<lparr>dp_Balancers = balancerState, dp_DynamicRoutes = routingState, dp_LinkAddresses = linkAddresses\<rparr>)))"

definition GetState :: "'s ManagerModules \<Rightarrow> ('k, 'l) dp_env \<Rightarrow> ('l DpManager \<times> 's, DataPlaneState) act" where
  "GetState M e = getStateNonThreadSafe M e"

subsection \<open>Applying a difference\<close>

definition withdrawPhase ::
  "'s ManagerModules \<Rightarrow> ('k, 'l) dp_env \<Rightarrow> DynamicRoute ComparableResult \<Rightarrow> ('l DpManager \<times> 's, unit) act" where
  "withdrawPhase M e routingDiff = when_a (length (Deleted routingDiff) > 0)
     (wrap_a ''fails to withdraw routing path: ''
       (on_routing (WithdrawRoutes (mm_Bgp M) (e_ip_text e) (DynamicRoutingConvBack (Deleted routingDiff)))))"

definition addBalancersPhase ::
  "'s ManagerModules \<Rightarrow> BalancerState ComparableResult \<Rightarrow> ('l DpManager \<times> 's, unit) act" where
  "addBalancersPhase M balancersDiff = when_a (length (Added balancersDiff) > 0)
     (wrap_a ''fails to add balancer: '' (on_snd (AddBalancers M (BalancerStateConvBack (Added balancersDiff)))))"

definition addAddressesPhase ::
  "'s ManagerModules \<Rightarrow> ('k, 'l) dp_env \<Rightarrow> LinkAddress ComparableResult \<Rightarrow> ('l DpManager \<times> 's, unit) act" where
  "addAddressesPhase M e linkDiff = when_a (length (Added linkDiff) > 0)
     (wrap_a ''fails to add addresses: ''
       (on_addresses (AddAddresses (mm_AddressTable M) (e_link_text e) (LinkAddressStateConvBack (Added linkDiff)))))"

definition updateBalancer ::
  "'s ManagerModules \<Rightarrow> ('k, 'l) dp_env \<Rightarrow> BalancerState ChangedPair \<Rightarrow> ('l DpManager \<times> 's, unit) act" where
  "updateBalancer M e pair =
     (let upstreamDiff = CompareUpstreamState (e_upstreams e (NewItem pair))
            (bs_Upstreams (OldItem pair)) (bs_Upstreams (NewItem pair));
          lbService = bs_LbService (NewItem pair)
      in when_a (IsChanged upstreamDiff)
           (bind_a (when_a (length (Added upstreamDiff) > 0)
             (wrap_a ''fails to add upstreams'' (on_snd (AddUpstreams M lbService (UpstreamStateConvBack (Added upstreamDiff)))))) (\<lambda>_.
            bind_a (when_a (length (NewChangedStates upstreamDiff) > 0)
             (wrap_a ''fails to update upstreams'' (on_snd (UpdateUpstreams M lbService (UpstreamStateConvBack (NewChangedStates upstreamDiff)))))) (\<lambda>_.
            when_a (length (Deleted upstreamDiff) > 0)
             (wrap_a ''fails to delete upstreams'' (on_snd (DeleteUpstreams M lbService (UpstreamStateConvBack (Deleted upstreamDiff)))))))))"

definition updateBalancersPhase ::
  "'s ManagerModules \<Rightarrow> ('k, 'l) dp_env \<Rightarrow> BalancerState ComparableResult \<Rightarrow> ('l DpManager \<times> 's, unit) act" where
  "updateBalancersPhase M e balancersDiff = each_a (updateBalancer M e) (Changed balancersDiff)"

definition advertisePhase ::
  "'s ManagerModules \<Rightarrow> ('k, 'l) dp_env \<Rightarrow> DynamicRoute ComparableResult \<Rightarrow> ('l DpManager \<times> 's, unit) act" where
  "advertisePhase M e routingDiff = when_a (length (Added routingDiff) > 0)
     (wrap_a ''fails to advertise routing path: ''
       (on_routing (AdvertiseRoutes (mm_Bgp M) (e_ip_text e) (DynamicRoutingConvBack (Added routingDiff)))))"

definition deleteBalancersPhase ::
  "'s ManagerModules \<Rightarrow> BalancerState ComparableResult \<Rightarrow> ('l DpManager \<times> 's, unit) act" where
  "deleteBalancersPhase M balancersDiff = when_a (length (Deleted balancersDiff) > 0)
     (wrap_a ''fails to delete balancers: '' (on_snd (DeleteBalancers M (BalancerStateConvBack (Deleted balancersDiff)))))"

definition deleteAddressesPhase ::
  "'s ManagerModules \<Rightarrow> ('k, 'l) dp_env \<Rightarrow> LinkAddress ComparableResult \<Rightarrow> ('l DpManager \<times> 's, unit) act" where
  "deleteAddressesPhase M e linkDiff = when_a (length (Deleted linkDiff) > 0)
     (wrap_a ''fails to delete addresses: ''
       (on_addresses (DeleteAddresses (mm_AddressTable M) (e_link_text e) (LinkAddressStateConvBack (Deleted linkDiff)))))"

definition applyDiff ::
  "'s ManagerModules \<Rightarrow> ('k, 'l) dp_env \<Rightarrow> DataPlaneState \<Rightarrow> DataPlaneState \<Rightarrow> ('l DpManager \<times> 's, unit) act" where
  "applyDiff M e currentState state =
     (let balancersDiff = CompareBalancerState (e_lb_text e) (e_balancers e) (dp_Balancers currentState) (dp_Balancers state);
          routingDiff = CompareDynamicRouting (e_ip_text e) (e_routes e) (dp_DynamicRoutes currentState) (dp_DynamicRoutes state);
          linkDiff = CompareLocalLinkAddresses (e_links e) (dp_LinkAddresses currentState) (dp_LinkAddresses state)
      in if \<not> IsChanged balancersDiff \<and> \<not> IsChanged routingDiff \<and> \<not> IsChanged linkDiff then ret_a ()
         else
           bind_a (withdrawPhase M e routingDiff) (\<lambda>_.
           bind_a (addBalancersPhase M balancersDiff) (\<lambda>_.
           bind_a (addAddressesPhase M e linkDiff) (\<lambda>_.
           bind_a (updateBalancersPhase M e balancersDiff) (\<lambda>_.
           bind_a (advertisePhase M e routingDiff) (\<lambda>_.
           bind_a (deleteBalancersPhase M balancersDiff) (\<lambda>_.
           deleteAddressesPhase M e linkDiff)))))))"

definition SetState :: "'s ManagerModules \<Rightarrow> ('k, 'l) dp_env \<Rightarrow> DataPlaneState \<Rightarrow> ('l DpManager \<times> 's, unit) act" where
  "SetState M e state = (\<lambda>(m, w).
     if dm_shutdownOnce m then (fail ''state cannot by applied after shutdown.'', (m, w))
     else
       case bind_a (on_snd (rm_UpdateCache (mm_Resolver M) (Some state))) (\<lambda>_.
            bind_a (getStateNonThreadSafe M e) (\<lambda>currentState. applyDiff M e currentState state)) (m, w) of
         (Inr _, (m', w')) \<Rightarrow> (Inr (), (m'\<lparr>dm_lastSuccessfulStateChange := e_now e\<rparr>, w'))
       | (Inl err, (m', w')) \<Rightarrow> (Inl err, (m', w')))"

subsection \<open>Shutdown\<close>

definition defaultShutdownHandler ::
  "'s ManagerModules \<Rightarrow> ('k, 'l) dp_env \<Rightarrow> DataPlaneState \<Rightarrow> ('l DpManager \<times> 's, unit) act" where
  "defaultShutdownHandler M e currentState =
     bind_a (on_routing (WithdrawRoutes (mm_Bgp M) (e_ip_text e) (dp_DynamicRoutes currentState))) (\<lambda>_.
     bind_a (on_snd (DeleteBalancers M (dp_Balancers currentState))) (\<lambda>_.
     on_addresses (DeleteAddresses (mm_AddressTable M) (e_link_text e) (dp_LinkAddresses currentState))))"

definition Shutdown :: "'s ManagerModules \<Rightarrow> ('k, 'l) dp_env \<Rightarrow> ('l DpManager \<times> 's, unit) act" where
  "Shutdown M e = (\<lambda>(m, w).
     if dm_shutdownOnce m then (Inr (), (m, w))
     else
       bind_a (getStateNonThreadSafe M e) (\<lambda>currentState.
         case mm_ShutdownHandler M of
           None \<Rightarrow> defaultShutdownHandler M e currentState
         | Some handler \<Rightarrow> on_snd (handler currentState)) (m\<lparr>dm_shutdownOnce := True\<rparr>, w))"

end
