(* ===== verification/Dp_Balancers.thy ===== *)
theory Dp_Balancers
  imports Dp_Manager
begin

section \<open>Bringing the ipvs services to the wanted state\<close>

text \<open>
  The effect of the balancer manager and of the phases of \<open>SetState\<close> that use it on the abstract
  view of a world, for every set of modules that keeps the contract \<open>dp_modules\<close>.
\<close>

subsection \<open>Differences of upstreams\<close>

lemma upkey_lookup:
  "distinct (map upkey us) \<Longrightarrow> map_of (keyGen UpstreamStateComparable us) k = Some u \<longleftrightarrow> u \<in> set us \<and> upkey u = k"
  by (rule keyGen_distinct)

lemma upstream_Equal [simp]: "EqualFunc UpstreamStateComparable x y \<longleftrightarrow> x = y"
  by (simp add: UpstreamStateComparable_def)

lemma unchanged_upstreams:
  assumes "go_range r" and "distinct (map upkey xs)" and "distinct (map upkey ys)"
  shows "IsChanged (CompareUpstreamState r xs ys) \<longleftrightarrow> mset xs \<noteq> mset ys"
proof -
  have "(\<forall>k. map_of (keyGen UpstreamStateComparable xs) k = map_of (keyGen UpstreamStateComparable ys) k) \<longleftrightarrow> set xs = set ys"
  proof
    assume eq: "\<forall>k. map_of (keyGen UpstreamStateComparable xs) k = map_of (keyGen UpstreamStateComparable ys) k"
    show "set xs = set ys"
      using eq upkey_lookup [OF assms(2)] upkey_lookup [OF assms(3)] by (metis subsetI subset_antisym)
  next
    assume "set xs = set ys"
    then have "map_of (keyGen UpstreamStateComparable xs) k = Some u \<longleftrightarrow> map_of (keyGen UpstreamStateComparable ys) k = Some u" for k u
      by (simp add: upkey_lookup assms(2,3))
    then show "\<forall>k. map_of (keyGen UpstreamStateComparable xs) k = map_of (keyGen UpstreamStateComparable ys) k"
      by (metis option.exhaust)
  qed
  moreover have "set xs = set ys \<longleftrightarrow> mset xs = mset ys"
    using assms(2,3) set_eq_iff_mset_eq_distinct by (metis distinct_map)
  ultimately show ?thesis
    by (simp add: CompareUpstreamState_def IsChanged_iff [OF assms(1)] upstream_same_entry)
qed

lemma upstream_diff:
  assumes "go_range r" and "distinct (map upkey xs)" and "distinct (map upkey ys)"
  defines "d \<equiv> CompareUpstreamState r xs ys"
  shows "set (Added d) = {y \<in> set ys. upkey y \<notin> upkey ` set xs}"
    and "set (Deleted d) = {x \<in> set xs. upkey x \<notin> upkey ` set ys}"
    and "set (NewChangedStates d) = {y \<in> set ys. \<exists>x\<in>set xs. upkey x = upkey y \<and> x \<noteq> y}"
    and "distinct (map upkey (Added d))" and "distinct (map upkey (Deleted d))" and "distinct (map upkey (NewChangedStates d))"
proof -
  let ?C = "UpstreamStateComparable"
  have d: "d = CompareArrays r ?C xs ys" by (simp add: d_def CompareUpstreamState_def)
  note lx = upkey_lookup [OF assms(2)] and ly = upkey_lookup [OF assms(3)]
  show "set (Added d) = {y \<in> set ys. upkey y \<notin> upkey ` set xs}"
    unfolding d by (rule set_eqI) (auto simp: Added_set [OF assms(1)] ly keyGen_None)
  show "set (Deleted d) = {x \<in> set xs. upkey x \<notin> upkey ` set ys}"
    unfolding d by (rule set_eqI) (auto simp: Deleted_set [OF assms(1)] lx keyGen_None)
  show "set (NewChangedStates d) = {y \<in> set ys. \<exists>x\<in>set xs. upkey x = upkey y \<and> x \<noteq> y}"
    unfolding d by (rule set_eqI) (auto simp: NewChanged_set [OF assms(1)] lx ly)
  show "distinct (map upkey (Added d))" "distinct (map upkey (Deleted d))"
    unfolding d by (rule Added_distinct Deleted_distinct, rule assms(1))+
  have keys: "map upkey (NewChangedStates d) = map (KeyFunc ?C \<circ> OldItem) (Changed d)"
  proof -
    have "upkey (NewItem p) = upkey (OldItem p)" if "p \<in> set (Changed d)" for p
      using that unfolding d Changed_set [OF assms(1)] by (auto dest: keyGen_key)
    then show ?thesis by (simp add: NewChangedStates_def)
  qed
  show "distinct (map upkey (NewChangedStates d))"
    unfolding keys unfolding d by (rule Changed_distinct [OF assms(1)])
qed

lemma replace_other: "upkey u \<notin> upkey ` set us \<Longrightarrow> replace_ups us u = u"
  by (auto simp: replace_ups_def image_iff find_None_iff split: option.splits dest!: find_SomeD)

lemma replace_key [simp]: "upkey (replace_ups us u) = upkey u"
  by (auto simp: replace_ups_def split: option.splits dest: find_SomeD)

lemma replace_mem:
  assumes "distinct (map upkey us)" and "d \<in> set us" and "upkey d = upkey u"
  shows "replace_ups us u = d"
proof -
  obtain x where x: "find (\<lambda>d. upkey d = upkey u) us = Some x" using assms(2,3) by (cases "find (\<lambda>d. upkey d = upkey u) us") (auto simp: find_None_iff)
  from find_SomeD [OF x] assms have "x = d" by (metis distinct_map inj_on_eq_iff)
  with x show ?thesis by (simp add: replace_ups_def)
qed

text \<open>Adding, replacing and deleting what the difference says turns the old upstreams into the new ones.\<close>

lemma upstream_patch:
  assumes r: "go_range r" and dx: "distinct (map upkey xs)" and dy: "distinct (map upkey ys)"
  defines "d \<equiv> CompareUpstreamState r xs ys"
  shows "mset (Deleted d) \<subseteq># image_mset (replace_ups (NewChangedStates d)) (mset xs + mset (Added d))"
    and "image_mset (replace_ups (NewChangedStates d)) (mset xs + mset (Added d)) - mset (Deleted d) = mset ys"
proof -
  note diff = upstream_diff [OF r dx dy, folded d_def]
  let ?rep = "replace_ups (NewChangedStates d)" and ?zs = "xs @ Added d"
  have "map upkey (map ?rep ?zs) = map upkey ?zs" by simp
  moreover have "distinct (map upkey ?zs)" using dx diff(1,4) by (auto simp: image_iff)
  ultimately have dz: "distinct (map upkey (map ?rep ?zs))" by (simp only:)
  then have dz': "distinct (map ?rep ?zs)" by (simp only: distinct_map)
  have repD: "?rep x = x" if "x \<in> set (Deleted d)" for x
    using that by (intro replace_other) (auto simp: diff(2,3))
  have repA: "?rep y = y" if y: "y \<in> set (Added d)" for y
  proof (rule replace_other, rule notI)
    assume "upkey y \<in> upkey ` set (NewChangedStates d)"
    then obtain x where "x \<in> set xs" "upkey x = upkey y" unfolding diff(3) by auto
    moreover have "upkey y \<notin> upkey ` set xs" using y unfolding diff(1) by simp
    ultimately show False by (metis image_eqI)
  qed
  have repK: "?rep x = y" if x: "x \<in> set xs" and y: "y \<in> set ys" and k: "upkey x = upkey y" for x y
  proof (cases "x = y")
    case True
    have "upkey x \<notin> upkey ` set (NewChangedStates d)"
    proof
      assume "upkey x \<in> upkey ` set (NewChangedStates d)"
      then obtain y' x' where "y' \<in> set ys" "x' \<in> set xs" "upkey x = upkey y'" "upkey x' = upkey y'" "x' \<noteq> y'"
        by (auto simp: diff(3))
      moreover have "x' = x" using dx x calculation by (metis distinct_map inj_on_eq_iff)
      moreover have "y' = y" using dy y k calculation by (metis distinct_map inj_on_eq_iff)
      ultimately show False using True by blast
    qed
    with True show ?thesis by (simp add: replace_other)
  next
    case False
    then have "y \<in> set (NewChangedStates d)" using x y k by (auto simp: diff(3))
    with k show ?thesis by (intro replace_mem [OF diff(6)]) simp_all
  qed
  have subD: "set (Deleted d) \<subseteq> set (map ?rep ?zs)"
  proof
    fix x assume "x \<in> set (Deleted d)"
    with repD have "x \<in> set xs" "?rep x = x" by (auto simp: diff(2))
    then show "x \<in> set (map ?rep ?zs)" by force
  qed
  have dD: "distinct (Deleted d)" using diff(5) by (simp add: distinct_map)
  have set_eq: "set (filter (\<lambda>x. x \<notin> set (Deleted d)) (map ?rep ?zs)) = set ys"
  proof (intro set_eqI iffI)
    fix y assume "y \<in> set (filter (\<lambda>x. x \<notin> set (Deleted d)) (map ?rep ?zs))"
    then obtain z where z: "z \<in> set ?zs" "y = ?rep z" "y \<notin> set (Deleted d)" by auto
    show "y \<in> set ys"
    proof (cases "z \<in> set (Added d)")
      case True
      then show ?thesis using z(2) repA by (simp add: diff(1))
    next
      case False
      with z(1) have zx: "z \<in> set xs" by simp
      have "upkey z \<in> upkey ` set ys"
      proof (rule ccontr)
        assume "upkey z \<notin> upkey ` set ys"
        with zx have "z \<in> set (Deleted d)" by (simp add: diff(2))
        with repD z(2,3) show False by simp
      qed
      then show ?thesis using repK [OF zx] z(2) by auto
    qed
  next
    fix y assume y: "y \<in> set ys"
    then have nd: "y \<notin> set (Deleted d)" by (auto simp: diff(2))
    show "y \<in> set (filter (\<lambda>x. x \<notin> set (Deleted d)) (map ?rep ?zs))"
    proof (cases "upkey y \<in> upkey ` set xs")
      case True
      then obtain x where "x \<in> set xs" "?rep x = y" using repK y by (metis imageE)
      then show ?thesis using nd by force
    next
      case False
      then have "y \<in> set (Added d)" using y by (simp add: diff(1))
      then show ?thesis using nd repA by force
    qed
  qed
  have "mset (Deleted d) \<subseteq># mset (map ?rep ?zs)"
    using dD subD by (rule mset_sub_set)
  then show "mset (Deleted d) \<subseteq># image_mset ?rep (mset xs + mset (Added d))" by simp
  have "mset (map ?rep ?zs) - mset (Deleted d) = mset (filter (\<lambda>x. x \<notin> set (Deleted d)) (map ?rep ?zs))"
    by (rule mset_diff_filter [OF dz' dD subD])
  also have "\<dots> = mset ys"
    using set_eq dz' dy by (intro mset_set_eq distinct_filter) (simp_all add: distinct_map)
  finally show "image_mset ?rep (mset xs + mset (Added d)) - mset (Deleted d) = mset ys" by simp
qed

subsection \<open>Balancers\<close>

definition lb_is :: "IpvsService \<Rightarrow> BalancerState \<Rightarrow> bool" where
  "lb_is svc b \<longleftrightarrow> bs_LbService b = Some (mk_lb svc)"

definition wf_balancer :: "BalancerState \<Rightarrow> bool" where
  "wf_balancer b \<longleftrightarrow> (\<exists>svc. lb_is svc b \<and> wf_service svc) \<and> distinct (map upkey (bs_Upstreams b))"

lemma lb_is_inj: "lb_is s b \<Longrightarrow> lb_is t b \<Longrightarrow> s = t"
  by (simp add: lb_is_def)

lemma lb_is_service [simp]: "lb_is svc b \<Longrightarrow> GetIpvsServiceFromBalancer (Some b) = Inr svc"
  by (simp add: lb_is_def GetIpvsServiceFromBalancer_def)

lemma lb_is_lb [simp]: "lb_is svc b \<Longrightarrow> GetIpvsServiceFromLbService (bs_LbService b) = Inr svc"
  by (simp add: lb_is_def)

text \<open>What a table becomes when balancers are put into it or removed from it.\<close>

definition put_all :: "BalancerState list \<Rightarrow> (IpvsService \<rightharpoonup> UpstreamState multiset) \<Rightarrow> (IpvsService \<rightharpoonup> UpstreamState multiset)" where
  "put_all bs T = (\<lambda>s. case find (lb_is s) bs of Some b \<Rightarrow> Some (mset (bs_Upstreams b)) | None \<Rightarrow> T s)"

definition drop_all :: "BalancerState list \<Rightarrow> (IpvsService \<rightharpoonup> UpstreamState multiset) \<Rightarrow> (IpvsService \<rightharpoonup> UpstreamState multiset)" where
  "drop_all bs T = (\<lambda>s. if \<exists>b\<in>set bs. lb_is s b then None else T s)"

lemma put_all_Nil [simp]: "put_all [] T = T"
  by (simp add: put_all_def)

lemma put_all_Cons: "lb_is svc b \<Longrightarrow> \<forall>c\<in>set bs. \<not> lb_is svc c \<Longrightarrow>
    put_all (b # bs) T = put_all bs (T(svc \<mapsto> mset (bs_Upstreams b)))"
  by (auto simp: put_all_def fun_eq_iff find_None_iff dest: lb_is_inj find_SomeD split: option.splits)

lemma drop_all_Nil [simp]: "drop_all [] T = T"
  by (simp add: drop_all_def)

lemma drop_all_Cons: "lb_is svc b \<Longrightarrow> drop_all (b # bs) T = drop_all bs (T(svc := None))"
  by (auto simp: drop_all_def fun_eq_iff dest: lb_is_inj)

context dp_modules
begin

lemma real_servers:
  assumes "ok w" and "v_tbl (abs w) s = Some U"
  obtains us st where "im_GetRealServers (mm_Ipvs M) s w = (Inr (us, st), w)" "mset us = U" "distinct (map upkey us)"
proof -
  from GetRealServers_ok [OF assms] obtain us st where
    us: "im_GetRealServers (mm_Ipvs M) s w = (Inr (us, st), w)" "mset us = U" by blast
  moreover have "distinct (map upkey us)" using tbl_keys [OF assms] unfolding us(2) [symmetric] by simp
  ultimately show ?thesis using that by blast
qed

lemma map_getBalancer:
  assumes "ok w" and "\<forall>s\<in>set ss. v_tbl (abs w) s \<noteq> None \<and> wf_service s"
  shows "\<exists>bs. map_a (getBalancer M) ss w = (Inr bs, w) \<and> length bs = length ss \<and>
    (\<forall>i<length ss. lb_is (ss ! i) (bs ! i) \<and> bs_Name (bs ! i) = v_name (abs w) (ss ! i) \<and>
       v_tbl (abs w) (ss ! i) = Some (mset (bs_Upstreams (bs ! i))) \<and> distinct (map upkey (bs_Upstreams (bs ! i))))"
  using assms(2)
proof (induction ss)
  case (Cons s ss)
  from Cons.prems obtain U where U: "v_tbl (abs w) s = Some U" and wf: "wf_service s" by auto
  from real_servers [OF assms(1) U] obtain us st where
    us: "im_GetRealServers (mm_Ipvs M) s w = (Inr (us, st), w)" "mset us = U" "distinct (map upkey us)" .
  let ?b = "\<lparr>bs_Name = v_name (abs w) s, bs_LbService = Some (mk_lb s), bs_Upstreams = us\<rparr>"
  have get: "getBalancer M s w = (Inr ?b, w)"
    using ServiceLookup_ok [OF assms(1) wf] us(1) by (simp add: getBalancer_def)
  from Cons obtain bs where bs: "map_a (getBalancer M) ss w = (Inr bs, w)" "length bs = length ss"
    "\<forall>i<length ss. lb_is (ss ! i) (bs ! i) \<and> bs_Name (bs ! i) = v_name (abs w) (ss ! i) \<and>
       v_tbl (abs w) (ss ! i) = Some (mset (bs_Upstreams (bs ! i))) \<and> distinct (map upkey (bs_Upstreams (bs ! i)))" by auto
  have "map_a (getBalancer M) (s # ss) w = (Inr (?b # bs), w)" using get bs(1) by simp
  then show ?case using bs(2,3) U us by (auto simp: nth_Cons lb_is_def split: nat.splits)
qed simp

lemma GetBalancers_ok:
  assumes "ok w"
  shows "\<exists>bs. GetBalancers M w = (Inr bs, w) \<and> (\<forall>b\<in>set bs. wf_balancer b) \<and> distinct (map bs_LbService bs) \<and>
    (\<forall>b\<in>set bs. \<forall>s. lb_is s b \<longrightarrow> bs_Name b = v_name (abs w) s) \<and>
    (\<forall>s U. v_tbl (abs w) s = Some U \<longleftrightarrow> (\<exists>b\<in>set bs. lb_is s b \<and> mset (bs_Upstreams b) = U))"
proof -
  from ListServices_ok [OF assms] obtain ss st where ss: "im_ListServices (mm_Ipvs M) w = (Inr (ss, st), w)" "distinct ss"
    "set ss = dom (v_tbl (abs w))" "\<forall>s\<in>set ss. wf_service s" by blast
  from map_getBalancer [OF assms, of ss] ss obtain bs where bs: "map_a (getBalancer M) ss w = (Inr bs, w)" "length bs = length ss"
    and el: "\<And>i. i < length ss \<Longrightarrow> lb_is (ss ! i) (bs ! i) \<and> bs_Name (bs ! i) = v_name (abs w) (ss ! i) \<and>
       v_tbl (abs w) (ss ! i) = Some (mset (bs_Upstreams (bs ! i))) \<and> distinct (map upkey (bs_Upstreams (bs ! i)))"
    by blast
  have lbs: "map bs_LbService bs = map (Some \<circ> mk_lb) ss"
    using bs(2) el by (intro nth_equalityI) (simp_all add: lb_is_def)
  have "distinct (map bs_LbService bs)" unfolding lbs using ss(2) by (simp add: distinct_map inj_on_def)
  moreover have mem: "\<exists>i<length ss. b = bs ! i" if "b \<in> set bs" for b using that bs(2) by (metis in_set_conv_nth)
  then have "\<forall>b\<in>set bs. wf_balancer b"
    using el ss(4) by (metis nth_mem wf_balancer_def)
  moreover have "\<forall>b\<in>set bs. \<forall>s. lb_is s b \<longrightarrow> bs_Name b = v_name (abs w) s"
    using mem el lb_is_inj by metis
  moreover have "v_tbl (abs w) s = Some U \<longleftrightarrow> (\<exists>b\<in>set bs. lb_is s b \<and> mset (bs_Upstreams b) = U)" for s U
  proof
    assume U: "v_tbl (abs w) s = Some U"
    then obtain i where "i < length ss" "ss ! i = s" using ss(3) by (metis domI in_set_conv_nth)
    with el U bs(2) show "\<exists>b\<in>set bs. lb_is s b \<and> mset (bs_Upstreams b) = U" by (metis nth_mem option.inject)
  next
    assume "\<exists>b\<in>set bs. lb_is s b \<and> mset (bs_Upstreams b) = U"
    with mem el lb_is_inj show "v_tbl (abs w) s = Some U" by metis
  qed
  ultimately show ?thesis using ss(1) bs(1) by (auto simp: GetBalancers_def)
qed

lemma AddBalancer_ok:
  assumes "ok w" and "wf_balancer b" and "lb_is svc b" and "v_tbl (abs w) svc = None"
  shows "\<exists>w'. AddBalancer M b w = (Inr (), w') \<and> ok w' \<and>
    abs w' = (abs w)\<lparr>v_tbl := (v_tbl (abs w))(svc \<mapsto> mset (bs_Upstreams b))\<rparr>"
proof -
  have wf: "wf_service svc" "distinct (map upkey (bs_Upstreams b))" using assms(2,3) by (auto simp: wf_balancer_def dest: lb_is_inj)
  from AddService_ok [OF assms(1) wf(1) assms(4)] obtain w1 where w1: "im_AddService (mm_Ipvs M) svc w = (Inr (), w1)" "ok w1"
    "abs w1 = (abs w)\<lparr>v_tbl := (v_tbl (abs w))(svc \<mapsto> {#})\<rparr>" by blast
  from AddRealServers_ok [OF w1(2), of svc "{#}" "bs_Upstreams b"] wf(2) w1(3) obtain w2 where
    "im_AddRealServers (mm_Ipvs M) svc (bs_Upstreams b) w1 = (Inr (), w2)" "ok w2"
    "abs w2 = (abs w1)\<lparr>v_tbl := (v_tbl (abs w1))(svc \<mapsto> mset (bs_Upstreams b))\<rparr>" by auto
  then show ?thesis using w1 assms(3) by (simp add: AddBalancer_def)
qed

lemma AddBalancers_ok:
  assumes "ok w" and "\<forall>b\<in>set bs. wf_balancer b" and "distinct (map bs_LbService bs)"
    and "\<forall>b\<in>set bs. \<forall>s. lb_is s b \<longrightarrow> v_tbl (abs w) s = None"
  shows "\<exists>w'. AddBalancers M bs w = (Inr (), w') \<and> ok w' \<and> abs w' = (abs w)\<lparr>v_tbl := put_all bs (v_tbl (abs w))\<rparr>"
  using assms
proof (induction bs arbitrary: w)
  case (Cons b bs)
  from Cons.prems(2) obtain svc where svc: "lb_is svc b" by (auto simp: wf_balancer_def)
  from AddBalancer_ok [OF Cons.prems(1) _ svc] Cons.prems svc obtain w1 where
    w1: "AddBalancer M b w = (Inr (), w1)" "ok w1" "abs w1 = (abs w)\<lparr>v_tbl := (v_tbl (abs w))(svc \<mapsto> mset (bs_Upstreams b))\<rparr>" by auto
  have fresh: "\<forall>c\<in>set bs. \<not> lb_is svc c" using Cons.prems(3) svc by (auto simp: lb_is_def) (metis image_eqI)
  then have "\<forall>c\<in>set bs. \<forall>s. lb_is s c \<longrightarrow> v_tbl (abs w1) s = None" using Cons.prems(4) w1(3) by auto
  from Cons.IH [OF w1(2) _ _ this] Cons.prems(2,3) obtain w2 where
    "AddBalancers M bs w1 = (Inr (), w2)" "ok w2" "abs w2 = (abs w1)\<lparr>v_tbl := put_all bs (v_tbl (abs w1))\<rparr>" by auto
  then show ?case using w1 put_all_Cons [OF svc fresh] by (simp add: AddBalancers_def)
qed (simp add: AddBalancers_def)

lemma DeleteBalancers_ok:
  assumes "ok w" and "\<forall>b\<in>set bs. \<exists>s U. lb_is s b \<and> v_tbl (abs w) s = Some U" and "distinct (map bs_LbService bs)"
  shows "\<exists>w'. DeleteBalancers M bs w = (Inr (), w') \<and> ok w' \<and> abs w' = (abs w)\<lparr>v_tbl := drop_all bs (v_tbl (abs w))\<rparr>"
  using assms
proof (induction bs arbitrary: w)
  case (Cons b bs)
  from Cons.prems(2) obtain svc U where svc: "lb_is svc b" "v_tbl (abs w) svc = Some U" by auto
  from DeleteService_ok [OF Cons.prems(1) svc(2)] obtain w1 where
    w1: "im_DeleteService (mm_Ipvs M) svc w = (Inr (), w1)" "ok w1" "abs w1 = (abs w)\<lparr>v_tbl := (v_tbl (abs w))(svc := None)\<rparr>" by blast
  have "\<forall>c\<in>set bs. \<not> lb_is svc c" using Cons.prems(3) svc(1) by (auto simp: lb_is_def) (metis image_eqI)
  then have "\<forall>c\<in>set bs. \<exists>s U. lb_is s c \<and> v_tbl (abs w1) s = Some U" using Cons.prems(2) w1(3) by auto metis
  from Cons.IH [OF w1(2) this] Cons.prems(3) obtain w2 where
    "DeleteBalancers M bs w1 = (Inr (), w2)" "ok w2" "abs w2 = (abs w1)\<lparr>v_tbl := drop_all bs (v_tbl (abs w1))\<rparr>" by auto
  then show ?case using w1 svc(1) drop_all_Cons [OF svc(1)] by (simp add: DeleteBalancers_def DeleteBalancer_def)
qed (simp add: DeleteBalancers_def)

lemma upstream_steps:
  assumes "ok w" and "v_tbl (abs w) svc = Some U" and lb: "GetIpvsServiceFromLbService lb = Inr svc"
  shows "distinct (map upkey us) \<Longrightarrow> upkey ` set us \<inter> upkey ` set_mset U = {} \<Longrightarrow>
      \<exists>w'. when_a (length us > 0) (wrap_a t (on_snd (AddUpstreams M lb us))) (m, w) = (Inr (), (m, w')) \<and> ok w' \<and>
        abs w' = (abs w)\<lparr>v_tbl := (v_tbl (abs w))(svc \<mapsto> U + mset us)\<rparr>"
    and "distinct (map upkey us) \<Longrightarrow> \<forall>d\<in>set us. \<exists>u. u \<in># U \<and> same_but_weight u d \<Longrightarrow>
      \<exists>w'. when_a (length us > 0) (wrap_a t (on_snd (UpdateUpstreams M lb us))) (m, w) = (Inr (), (m, w')) \<and> ok w' \<and>
        abs w' = (abs w)\<lparr>v_tbl := (v_tbl (abs w))(svc \<mapsto> image_mset (replace_ups us) U)\<rparr>"
    and "mset us \<subseteq># U \<Longrightarrow>
      \<exists>w'. when_a (length us > 0) (wrap_a t (on_snd (DeleteUpstreams M lb us))) (m, w) = (Inr (), (m, w')) \<and> ok w' \<and>
        abs w' = (abs w)\<lparr>v_tbl := (v_tbl (abs w))(svc \<mapsto> U - mset us)\<rparr>"
proof -
  have id: "abs w = (abs w)\<lparr>v_tbl := (v_tbl (abs w))(svc \<mapsto> U)\<rparr>" using assms(2) by (simp add: fun_upd_idem)
  have rep: "image_mset (replace_ups []) U = U" by (simp add: replace_ups_def [abs_def])
  show "\<exists>w'. when_a (length us > 0) (wrap_a t (on_snd (AddUpstreams M lb us))) (m, w) = (Inr (), (m, w')) \<and> ok w' \<and>
        abs w' = (abs w)\<lparr>v_tbl := (v_tbl (abs w))(svc \<mapsto> U + mset us)\<rparr>"
    if "distinct (map upkey us)" "upkey ` set us \<inter> upkey ` set_mset U = {}"
  proof (cases "us = []")
    case False
    with AddRealServers_ok [OF assms(1,2) that] lb show ?thesis by (auto simp: AddUpstreams_def)
  qed (use assms(1) id in auto)
  show "\<exists>w'. when_a (length us > 0) (wrap_a t (on_snd (UpdateUpstreams M lb us))) (m, w) = (Inr (), (m, w')) \<and> ok w' \<and>
        abs w' = (abs w)\<lparr>v_tbl := (v_tbl (abs w))(svc \<mapsto> image_mset (replace_ups us) U)\<rparr>"
    if "distinct (map upkey us)" "\<forall>d\<in>set us. \<exists>u. u \<in># U \<and> same_but_weight u d"
  proof (cases "us = []")
    case False
    with UpdateRealServers_ok [OF assms(1,2) that] lb show ?thesis by (auto simp: UpdateUpstreams_def)
  qed (use assms(1) id rep in auto)
  show "\<exists>w'. when_a (length us > 0) (wrap_a t (on_snd (DeleteUpstreams M lb us))) (m, w) = (Inr (), (m, w')) \<and> ok w' \<and>
        abs w' = (abs w)\<lparr>v_tbl := (v_tbl (abs w))(svc \<mapsto> U - mset us)\<rparr>" if "mset us \<subseteq># U"
  proof (cases "us = []")
    case False
    with DeleteRealServers_ok [OF assms(1,2) that] lb show ?thesis by (auto simp: DeleteUpstreams_def)
  qed (use assms(1) id in auto)
qed

lemma updateBalancer_ok:
  assumes r: "\<forall>b. go_range (e_upstreams e b)" and "ok w" and lb: "lb_is svc (NewItem p)"
    and tbl: "v_tbl (abs w) svc = Some (mset (bs_Upstreams (OldItem p)))"
    and dx: "distinct (map upkey (bs_Upstreams (OldItem p)))" and dy: "distinct (map upkey (bs_Upstreams (NewItem p)))"
    and compat: "\<forall>x\<in>set (bs_Upstreams (OldItem p)). \<forall>y\<in>set (bs_Upstreams (NewItem p)). upkey x = upkey y \<longrightarrow> same_but_weight x y"
  shows "\<exists>w'. updateBalancer M e p (m, w) = (Inr (), (m, w')) \<and> ok w' \<and>
    abs w' = (abs w)\<lparr>v_tbl := (v_tbl (abs w))(svc \<mapsto> mset (bs_Upstreams (NewItem p)))\<rparr>"
proof -
  let ?xs = "bs_Upstreams (OldItem p)" and ?ys = "bs_Upstreams (NewItem p)" and ?lb = "bs_LbService (NewItem p)"
  let ?d = "CompareUpstreamState (e_upstreams e (NewItem p)) ?xs ?ys"
  have ru: "go_range (e_upstreams e (NewItem p))" using r by blast
  note diff = upstream_diff [OF ru dx dy] and patch = upstream_patch [OF ru dx dy]
  have lb': "GetIpvsServiceFromLbService ?lb = Inr svc" using lb by simp
  have "upkey ` set (Added ?d) \<inter> upkey ` set_mset (mset ?xs) = {}" unfolding diff(1) by auto
  from upstream_steps(1) [OF assms(2) tbl lb' diff(4) this, of "''fails to add upstreams''" m] obtain w1 where
    w1: "when_a (length (Added ?d) > 0) (wrap_a ''fails to add upstreams'' (on_snd (AddUpstreams M ?lb (Added ?d)))) (m, w) = (Inr (), (m, w1))"
    "ok w1" "abs w1 = (abs w)\<lparr>v_tbl := (v_tbl (abs w))(svc \<mapsto> mset ?xs + mset (Added ?d))\<rparr>" by blast
  have t1: "v_tbl (abs w1) svc = Some (mset ?xs + mset (Added ?d))" using w1(3) by simp
  have "\<forall>y\<in>set (NewChangedStates ?d). \<exists>u. u \<in># mset ?xs + mset (Added ?d) \<and> same_but_weight u y"
    using compat unfolding diff(3) by auto
  from upstream_steps(2) [OF w1(2) t1 lb' diff(6) this, of "''fails to update upstreams''" m] obtain w2 where
    w2: "when_a (length (NewChangedStates ?d) > 0) (wrap_a ''fails to update upstreams'' (on_snd (UpdateUpstreams M ?lb (NewChangedStates ?d)))) (m, w1) = (Inr (), (m, w2))"
    "ok w2" "abs w2 = (abs w1)\<lparr>v_tbl := (v_tbl (abs w1))(svc \<mapsto> image_mset (replace_ups (NewChangedStates ?d)) (mset ?xs + mset (Added ?d)))\<rparr>" by blast
  have t2: "v_tbl (abs w2) svc = Some (image_mset (replace_ups (NewChangedStates ?d)) (mset ?xs + mset (Added ?d)))" using w2(3) by simp
  from upstream_steps(3) [OF w2(2) t2 lb' patch(1), of "''fails to delete upstreams''" m] obtain w3 where
    w3: "when_a (length (Deleted ?d) > 0) (wrap_a ''fails to delete upstreams'' (on_snd (DeleteUpstreams M ?lb (Deleted ?d)))) (m, w2) = (Inr (), (m, w3))"
    "ok w3" "abs w3 = (abs w2)\<lparr>v_tbl := (v_tbl (abs w2))(svc \<mapsto> mset ?ys)\<rparr>" unfolding patch(2) by blast
  show ?thesis
  proof (cases "IsChanged ?d")
    case True
    then show ?thesis using w1 w2 w3 by (auto simp: updateBalancer_def Let_def)
  next
    case False
    then have "mset ?xs = mset ?ys" using unchanged_upstreams [OF ru dx dy] by simp
    then show ?thesis using False assms(2) tbl by (auto simp: updateBalancer_def Let_def fun_upd_idem)
  qed
qed

lemma updateBalancersPhase_ok:
  assumes r: "\<forall>b. go_range (e_upstreams e b)" and "ok w" and d: "distinct (map (bs_LbService \<circ> NewItem) ps)"
    and ps: "\<forall>p\<in>set ps. \<exists>svc. lb_is svc (NewItem p) \<and> v_tbl (abs w) svc = Some (mset (bs_Upstreams (OldItem p))) \<and>
      distinct (map upkey (bs_Upstreams (OldItem p))) \<and> distinct (map upkey (bs_Upstreams (NewItem p))) \<and>
      (\<forall>x\<in>set (bs_Upstreams (OldItem p)). \<forall>y\<in>set (bs_Upstreams (NewItem p)). upkey x = upkey y \<longrightarrow> same_but_weight x y)"
  shows "\<exists>w'. each_a (updateBalancer M e) ps (m, w) = (Inr (), (m, w')) \<and> ok w' \<and>
    abs w' = (abs w)\<lparr>v_tbl := put_all (map NewItem ps) (v_tbl (abs w))\<rparr>"
  using assms(2-4)
proof (induction ps arbitrary: w)
  case (Cons p ps)
  from Cons.prems(3) obtain svc where svc: "lb_is svc (NewItem p)" "v_tbl (abs w) svc = Some (mset (bs_Upstreams (OldItem p)))"
    "distinct (map upkey (bs_Upstreams (OldItem p)))" "distinct (map upkey (bs_Upstreams (NewItem p)))"
    "\<forall>x\<in>set (bs_Upstreams (OldItem p)). \<forall>y\<in>set (bs_Upstreams (NewItem p)). upkey x = upkey y \<longrightarrow> same_but_weight x y" by auto
  from updateBalancer_ok [OF r Cons.prems(1) svc] obtain w1 where w1: "updateBalancer M e p (m, w) = (Inr (), (m, w1))" "ok w1"
    "abs w1 = (abs w)\<lparr>v_tbl := (v_tbl (abs w))(svc \<mapsto> mset (bs_Upstreams (NewItem p)))\<rparr>" by blast
  have fresh: "\<forall>c\<in>set (map NewItem ps). \<not> lb_is svc c"
    using Cons.prems(2) svc(1) by (auto simp: lb_is_def image_iff)
  have "\<forall>q\<in>set ps. \<exists>svc. lb_is svc (NewItem q) \<and> v_tbl (abs w1) svc = Some (mset (bs_Upstreams (OldItem q))) \<and>
      distinct (map upkey (bs_Upstreams (OldItem q))) \<and> distinct (map upkey (bs_Upstreams (NewItem q))) \<and>
      (\<forall>x\<in>set (bs_Upstreams (OldItem q)). \<forall>y\<in>set (bs_Upstreams (NewItem q)). upkey x = upkey y \<longrightarrow> same_but_weight x y)"
  proof
    fix q assume q: "q \<in> set ps"
    with Cons.prems(3) obtain t where t: "lb_is t (NewItem q)" "v_tbl (abs w) t = Some (mset (bs_Upstreams (OldItem q)))"
      "distinct (map upkey (bs_Upstreams (OldItem q)))" "distinct (map upkey (bs_Upstreams (NewItem q)))"
      "\<forall>x\<in>set (bs_Upstreams (OldItem q)). \<forall>y\<in>set (bs_Upstreams (NewItem q)). upkey x = upkey y \<longrightarrow> same_but_weight x y" by auto
    have "t \<noteq> svc" using fresh q t(1) by auto
    with t w1(3) have "v_tbl (abs w1) t = Some (mset (bs_Upstreams (OldItem q)))" by simp
    with t show "\<exists>svc. lb_is svc (NewItem q) \<and> v_tbl (abs w1) svc = Some (mset (bs_Upstreams (OldItem q))) \<and>
      distinct (map upkey (bs_Upstreams (OldItem q))) \<and> distinct (map upkey (bs_Upstreams (NewItem q))) \<and>
      (\<forall>x\<in>set (bs_Upstreams (OldItem q)). \<forall>y\<in>set (bs_Upstreams (NewItem q)). upkey x = upkey y \<longrightarrow> same_but_weight x y)" by blast
  qed
  from Cons.IH [OF w1(2) _ this] Cons.prems(2) obtain w2 where
    "each_a (updateBalancer M e) ps (m, w1) = (Inr (), (m, w2))" "ok w2"
    "abs w2 = (abs w1)\<lparr>v_tbl := put_all (map NewItem ps) (v_tbl (abs w1))\<rparr>" by auto
  then show ?case using w1 put_all_Cons [OF svc(1) fresh] by simp
qed simp

end

end
