(* ===== verification/Dp_Routes.thy ===== *)
theory Dp_Routes
  imports Dp_Manager
begin

section \<open>Bringing routes and addresses to the wanted state\<close>

text \<open>
  The effect of the routing and the address manager on the abstract view of a world, for every set
  of modules that keeps the contract \<open>dp_modules\<close>. Routes are followed by the keys the comparator
  gives them.
\<close>

subsection \<open>Keys of routes and links\<close>

abbreviation rkey :: "(IP option \<Rightarrow> string) \<Rightarrow> BgpRouteAttributes option \<Rightarrow> string" where
  "rkey ip_text \<equiv> KeyFunc (BgpRoutingAttributesComparable ip_text)"

abbreviation rEqual :: "(IP option \<Rightarrow> string) \<Rightarrow> BgpRouteAttributes option \<Rightarrow> BgpRouteAttributes option \<Rightarrow> bool" where
  "rEqual ip_text \<equiv> EqualFunc (BgpRoutingAttributesComparable ip_text)"

abbreviation lkey :: "LinkAddress \<Rightarrow> string" where
  "lkey \<equiv> KeyFunc LocalLinkAddrComparable"

abbreviation link_ip :: "LinkAddress \<Rightarrow> net_ip" where
  "link_ip la \<equiv> KglbAddrToNetIp (la_Address la)"

lemma rEqual_rkey: "rEqual ip_text p q \<Longrightarrow> rkey ip_text p = rkey ip_text q"
  by (simp add: BgpRoutingAttributesComparable_def Let_def)

lemma rkey_hold [simp]: "rkey ip_text (Some (a\<lparr>bgp_HoldTimeMs := v\<rparr>)) = rkey ip_text (Some a)"
  by (simp add: BgpRoutingAttributesComparable_def Let_def GetPrefix_def GetPrefixlen_def)

lemma rEqual_hold [simp]: "rEqual ip_text p (Some (a\<lparr>bgp_HoldTimeMs := v\<rparr>)) = rEqual ip_text p (Some a)"
  by (simp add: BgpRoutingAttributesComparable_def Let_def GetPrefix_def GetPrefixlen_def)

lemma IP_String_norm: "norm_ip a = norm_ip b \<Longrightarrow> IP_String a = IP_String b"
proof -
  have "IP_String (norm_ip ip) = IP_String ip" for ip
    by (simp add: norm_ip_def IP_String_def To4_def)
  then show "norm_ip a = norm_ip b \<Longrightarrow> IP_String a = IP_String b" by metis
qed

lemma lkey_equal: "la_LinkName x = la_LinkName y \<Longrightarrow> IP_Equal (link_ip x) (link_ip y) \<Longrightarrow> lkey x = lkey y"
  by (auto simp: LocalLinkAddrComparable_def IP_Equal_norm dest: IP_String_norm)

subsection \<open>Routes\<close>

definition has_bgp :: "DynamicRoute \<Rightarrow> bool" where
  "has_bgp route \<longleftrightarrow> GetBgpAttributes route \<noteq> None"

lemma has_bgp_routing: "has_bgp route \<Longrightarrow> getBgpRouting route = Inr (GetBgpAttributes route)"
  by (auto simp: has_bgp_def getBgpRouting_def GetBgpAttributes_def split: option.splits DynamicRoute_Attributes.splits)

definition max_hold :: "DynamicRoute list \<Rightarrow> nat" where
  "max_hold routes = fold (\<lambda>r n. max n (unat (bgp_hold (GetBgpAttributes r)))) routes 0"

lemma max_hold_ge: "r \<in> set routes \<Longrightarrow> unat (bgp_hold (GetBgpAttributes r)) \<le> max_hold routes"
proof -
  have mono: "n \<le> fold (\<lambda>r n. max n (unat (bgp_hold (GetBgpAttributes r)))) rs n" for rs n
  proof (induction rs arbitrary: n)
    case (Cons a rs)
    from Cons [of "max n (unat (bgp_hold (GetBgpAttributes a)))"] show ?case by simp
  qed simp
  have "r \<in> set rs \<Longrightarrow> unat (bgp_hold (GetBgpAttributes r)) \<le> fold (\<lambda>r n. max n (unat (bgp_hold (GetBgpAttributes r)))) rs n" for rs n
  proof (induction rs arbitrary: n)
    case (Cons x rs)
    then show ?case using mono [of "max n (unat (bgp_hold (GetBgpAttributes r)))" rs] by auto
  qed simp
  then show "r \<in> set routes \<Longrightarrow> unat (bgp_hold (GetBgpAttributes r)) \<le> max_hold routes" by (simp add: max_hold_def)
qed

context dp_modules
begin

abbreviation route_key :: "DynamicRoute \<Rightarrow> string" where
  "route_key route \<equiv> rkey ip_text (GetBgpAttributes route)"

lemma ListRoutes_ok:
  assumes "ok w" and "None \<notin># v_paths (abs w)"
  shows "\<exists>rs. ListRoutes (mm_Bgp M) ip_text (m, w) = (Inr rs, (m, w)) \<and> (\<forall>r\<in>set rs. has_bgp r) \<and>
    image_mset route_key (mset rs) = image_mset (rkey ip_text) (v_paths (abs w)) \<and>
    (\<forall>r\<in>set rs. \<exists>p. p \<in># v_paths (abs w) \<and> rEqual ip_text p (GetBgpAttributes r))"
proof -
  from ListPaths_ok [OF assms(1)] obtain ps where ps: "bm_ListPaths (mm_Bgp M) w = (Inr ps, w)" "mset ps = v_paths (abs w)" by blast
  have one: "\<exists>r. holdRoute ip_text h p = Inr r \<and> has_bgp r \<and> route_key r = rkey ip_text p \<and> rEqual ip_text p (GetBgpAttributes r)"
    if "p \<noteq> None" for p h
    using that by (auto simp: holdRoute_def has_bgp_def GetBgpAttributes_def bgp_cmp.equal_refl split: option.splits)
  have "\<exists>rs. map_a (\<lambda>route. Pair (holdRoute ip_text h route)) qs s = (Inr rs, s) \<and> (\<forall>r\<in>set rs. has_bgp r) \<and>
      map route_key rs = map (rkey ip_text) qs \<and> (\<forall>r\<in>set rs. \<exists>p\<in>set qs. rEqual ip_text p (GetBgpAttributes r))"
    if "None \<notin> set qs" for qs h and s :: "DynamicRoutingManager \<times> 's"
    using that
  proof (induction qs)
    case (Cons q qs)
    have "q \<noteq> None" using Cons.prems by (metis list.set_intros(1))
    from one [OF this, of h] obtain r where r: "holdRoute ip_text h q = Inr r" "has_bgp r" "route_key r = rkey ip_text q" "rEqual ip_text q (GetBgpAttributes r)" by blast
    have "None \<notin> set qs" using Cons.prems by simp
    from Cons.IH [OF this] obtain rs where "map_a (\<lambda>route. Pair (holdRoute ip_text h route)) qs s = (Inr rs, s)" "\<forall>r\<in>set rs. has_bgp r"
      "map route_key rs = map (rkey ip_text) qs" "\<forall>r\<in>set rs. \<exists>p\<in>set qs. rEqual ip_text p (GetBgpAttributes r)" by blast
    then show ?case using r by (intro exI [of _ "r # rs"]) auto
  qed simp
  moreover have "None \<notin> set ps" using assms(2) ps(2) by (metis set_mset_mset)
  ultimately obtain rs where rs: "map_a (\<lambda>route. Pair (holdRoute ip_text (dr_holdTimeouts m) route)) ps (m, w) = (Inr rs, (m, w))"
    "\<forall>r\<in>set rs. has_bgp r" "map route_key rs = map (rkey ip_text) ps" "\<forall>r\<in>set rs. \<exists>p\<in>set ps. rEqual ip_text p (GetBgpAttributes r)" by blast
  have "image_mset route_key (mset rs) = image_mset (rkey ip_text) (v_paths (abs w))" using rs(3) ps(2) by (metis mset_map)
  moreover have "ListRoutes (mm_Bgp M) ip_text (m, w) = (Inr rs, (m, w))" using ps(1) rs(1) by (simp add: ListRoutes_def lift_r_def)
  moreover have "\<forall>r\<in>set rs. \<exists>p. p \<in># v_paths (abs w) \<and> rEqual ip_text p (GetBgpAttributes r)" using rs(4) ps(2) by (metis set_mset_mset)
  ultimately show ?thesis using rs(2) by blast
qed

lemma withdraw_ok:
  assumes "ok w" and "has_bgp route" and "p \<in># v_paths (abs w)" and "rEqual ip_text p (GetBgpAttributes route)"
  shows "\<exists>m' w' q. withdrawRouteLocked (mm_Bgp M) ip_text route (m, w) = (Inr (unat (bgp_hold (GetBgpAttributes route))), (m', w')) \<and>
    ok w' \<and> dr_slept m' = dr_slept m \<and> q \<in># v_paths (abs w) \<and> rkey ip_text q = route_key route \<and>
    abs w' = (abs w)\<lparr>v_paths := v_paths (abs w) - {#q#}\<rparr>"
proof -
  from Withdraw_ok [OF assms(1,3,4)] obtain q w' where w': "bm_Withdraw (mm_Bgp M) (GetBgpAttributes route) w = (Inr (), w')" "ok w'"
    "q \<in># v_paths (abs w)" "rEqual ip_text q (GetBgpAttributes route)" "abs w' = (abs w)\<lparr>v_paths := v_paths (abs w) - {#q#}\<rparr>" by blast
  then show ?thesis using has_bgp_routing [OF assms(2)] rEqual_rkey [OF w'(4)]
    by (auto simp: withdrawRouteLocked_def Let_def)
qed

lemma withdrawLoop_ok:
  assumes "ok w" and "\<forall>r\<in>set rs. has_bgp r" and "distinct (map route_key rs)"
    and "\<forall>r\<in>set rs. \<exists>p. p \<in># v_paths (abs w) \<and> rEqual ip_text p (GetBgpAttributes r)"
  shows "\<exists>m' w' P. withdrawLoop (mm_Bgp M) ip_text rs n (m, w) =
      (Inr (fold (\<lambda>r n. max n (unat (bgp_hold (GetBgpAttributes r)))) rs n), (m', w')) \<and> ok w' \<and> dr_slept m' = dr_slept m \<and>
    P \<subseteq># v_paths (abs w) \<and> abs w' = (abs w)\<lparr>v_paths := P\<rparr> \<and>
    image_mset (rkey ip_text) P = image_mset (rkey ip_text) (v_paths (abs w)) - mset (map route_key rs)"
  using assms
proof (induction rs arbitrary: n m w)
  case Nil
  then show ?case by (intro exI [of _ m] exI [of _ w] exI [of _ "v_paths (abs w)"]) simp
next
  case (Cons r rs)
  from Cons.prems obtain p where p: "p \<in># v_paths (abs w)" "rEqual ip_text p (GetBgpAttributes r)" by auto
  from withdraw_ok [OF Cons.prems(1) _ p, of m] Cons.prems(2) obtain m1 w1 q where
    w1: "withdrawRouteLocked (mm_Bgp M) ip_text r (m, w) = (Inr (unat (bgp_hold (GetBgpAttributes r))), (m1, w1))" "ok w1"
    "dr_slept m1 = dr_slept m" "q \<in># v_paths (abs w)" "rkey ip_text q = route_key r" "abs w1 = (abs w)\<lparr>v_paths := v_paths (abs w) - {#q#}\<rparr>" by auto
  have "\<exists>p. p \<in># v_paths (abs w1) \<and> rEqual ip_text p (GetBgpAttributes x)" if x: "x \<in> set rs" for x
  proof -
    from Cons.prems(4) x obtain p where p: "p \<in># v_paths (abs w)" "rEqual ip_text p (GetBgpAttributes x)" by auto
    have "rkey ip_text p \<noteq> rkey ip_text q" using rEqual_rkey [OF p(2)] w1(5) Cons.prems(3) x by auto (metis image_eqI)
    then have "p \<in># v_paths (abs w1)" using p(1) w1(6) by (auto simp: in_diff_count)
    with p(2) show ?thesis by blast
  qed
  with Cons.IH [OF w1(2), of "max n (unat (bgp_hold (GetBgpAttributes r)))" m1] Cons.prems(2,3) obtain m' w' P where
    IH: "withdrawLoop (mm_Bgp M) ip_text rs (max n (unat (bgp_hold (GetBgpAttributes r)))) (m1, w1) =
      (Inr (fold (\<lambda>r n. max n (unat (bgp_hold (GetBgpAttributes r)))) (r # rs) n), (m', w'))" "ok w'" "dr_slept m' = dr_slept m1"
    "P \<subseteq># v_paths (abs w1)" "abs w' = (abs w1)\<lparr>v_paths := P\<rparr>"
    "image_mset (rkey ip_text) P = image_mset (rkey ip_text) (v_paths (abs w1)) - mset (map route_key rs)" by auto
  have "withdrawLoop (mm_Bgp M) ip_text (r # rs) n (m, w) = (Inr (fold (\<lambda>r n. max n (unat (bgp_hold (GetBgpAttributes r)))) (r # rs) n), (m', w'))"
  proof -
    have "(if h > n then h else n) = max n h" for h :: nat by simp
    then show ?thesis using w1(1) IH(1) by simp
  qed
  moreover have "P \<subseteq># v_paths (abs w)" using IH(4) w1(6) by (auto intro: subset_mset.order_trans)
  moreover have "image_mset (rkey ip_text) P = image_mset (rkey ip_text) (v_paths (abs w)) - mset (map route_key (r # rs))"
    using IH(6) w1(4-6) by (simp add: image_mset_Diff)
  ultimately show ?case using IH(2,3,5) w1(3,6) by auto
qed

lemma WithdrawRoutes_ok:
  assumes "ok w" and "\<forall>r\<in>set rs. has_bgp r" and "distinct (map route_key rs)"
    and "\<forall>r\<in>set rs. \<exists>p. p \<in># v_paths (abs w) \<and> rEqual ip_text p (GetBgpAttributes r)"
  shows "\<exists>m' w' P. WithdrawRoutes (mm_Bgp M) ip_text rs (m, w) = (Inr (), (m', w')) \<and> ok w' \<and>
    dr_slept m' = dr_slept m + max_hold rs \<and> P \<subseteq># v_paths (abs w) \<and> abs w' = (abs w)\<lparr>v_paths := P\<rparr> \<and>
    image_mset (rkey ip_text) P = image_mset (rkey ip_text) (v_paths (abs w)) - mset (map route_key rs)"
proof -
  from withdrawLoop_ok [OF assms, of 0 m] obtain m1 w1 P where
    "withdrawLoop (mm_Bgp M) ip_text rs 0 (m, w) = (Inr (max_hold rs), (m1, w1))" "ok w1" "dr_slept m1 = dr_slept m"
    "P \<subseteq># v_paths (abs w)" "abs w1 = (abs w)\<lparr>v_paths := P\<rparr>"
    "image_mset (rkey ip_text) P = image_mset (rkey ip_text) (v_paths (abs w)) - mset (map route_key rs)"
    unfolding max_hold_def [symmetric] by blast
  then show ?thesis by (cases "max_hold rs > 0") (auto simp: WithdrawRoutes_def)
qed

lemma AdvertiseRoutes_ok:
  assumes "ok w" and "\<forall>r\<in>set rs. has_bgp r" and "distinct (map route_key rs)"
    and "\<forall>r\<in>set rs. route_key r \<notin> rkey ip_text ` set_mset (v_paths (abs w))"
  shows "\<exists>m' w'. AdvertiseRoutes (mm_Bgp M) ip_text rs (m, w) = (Inr (), (m', w')) \<and> ok w' \<and> dr_slept m' = dr_slept m \<and>
    abs w' = (abs w)\<lparr>v_paths := v_paths (abs w) + mset (map GetBgpAttributes rs)\<rparr>"
  using assms
proof (induction rs arbitrary: m w)
  case Nil
  then show ?case by (simp add: AdvertiseRoutes_def)
next
  case (Cons r rs)
  let ?b = "GetBgpAttributes r"
  from Init_ok [OF Cons.prems(1), of "bgp_asn ?b"] obtain w0 where
    w0: "bm_Init (mm_Bgp M) (bgp_asn ?b) w = (Inr (), w0)" "ok w0" "abs w0 = abs w" by blast
  have "\<forall>p. p \<in># v_paths (abs w0) \<longrightarrow> \<not> rEqual ip_text p ?b"
    using Cons.prems(4) w0(3) rEqual_rkey by (metis image_eqI list.set_intros(1))
  from Advertise_ok [OF w0(2) this] obtain w1 where
    w1: "bm_Advertise (mm_Bgp M) ?b w0 = (Inr (), w1)" "ok w1" "abs w1 = (abs w0)\<lparr>v_paths := add_mset ?b (v_paths (abs w0))\<rparr>" by blast
  let ?m = "m\<lparr>dr_holdTimeouts := AList.update (ip_text (GetPrefix ?b)) (bgp_hold ?b) (dr_holdTimeouts m)\<rparr>"
  have step: "advertiseRouteLocked (mm_Bgp M) ip_text r (m, w) = (Inr (), (?m, w1))"
    using has_bgp_routing Cons.prems(2) w0(1) w1(1) by (simp add: advertiseRouteLocked_def)
  have "\<forall>x\<in>set rs. route_key x \<notin> rkey ip_text ` set_mset (v_paths (abs w1))"
    using Cons.prems(3,4) w0(3) w1(3) by (auto simp: image_iff)
  with Cons.IH [OF w1(2), of ?m] Cons.prems(2,3) obtain m' w' where
    "AdvertiseRoutes (mm_Bgp M) ip_text rs (?m, w1) = (Inr (), (m', w'))" "ok w'" "dr_slept m' = dr_slept m"
    "abs w' = (abs w1)\<lparr>v_paths := v_paths (abs w1) + mset (map GetBgpAttributes rs)\<rparr>" by auto
  then show ?case using step w0(3) w1(3) by (auto simp: AdvertiseRoutes_def)
qed

end

subsection \<open>Addresses\<close>

definition am_inv :: "(LinkAddress \<Rightarrow> 'l) \<Rightarrow> 'l AddressManager \<Rightarrow> bool" where
  "am_inv link_text m \<longleftrightarrow> inj link_text \<and> wf_map (am_state m) \<and> (\<forall>(k, la)\<in>set (am_state m). k = link_text la)"

definition tracked :: "'l AddressManager \<Rightarrow> LinkAddress set" where
  "tracked m = snd ` set (am_state m)"

lemma am_lookup:
  assumes "am_inv link_text m"
  shows "map_of (am_state m) k = Some la \<longleftrightarrow> la \<in> tracked m \<and> k = link_text la"
proof -
  have "(k, la) \<in> set (am_state m) \<longleftrightarrow> la \<in> tracked m \<and> k = link_text la"
    using assms by (force simp: am_inv_def tracked_def)
  moreover have "wf_map (am_state m)" using assms by (simp add: am_inv_def)
  ultimately show ?thesis using wf_map_lookup by metis
qed

lemma am_from_lookup:
  assumes "wf_map st" and "\<And>k la. map_of st k = Some la \<longleftrightarrow> la \<in> A \<and> k = link_text la"
  shows "snd ` set st = A" and "\<forall>(k, la)\<in>set st. k = link_text la"
proof -
  have mem: "(k, la) \<in> set st \<longleftrightarrow> la \<in> A \<and> k = link_text la" for k la using assms wf_map_lookup by metis
  then show "snd ` set st = A" by force
  show "\<forall>(k, la)\<in>set st. k = link_text la" using mem by auto
qed

lemma am_update:
  fixes la :: LinkAddress
  assumes "am_inv link_text m"
  defines "m' \<equiv> m\<lparr>am_state := AList.update (link_text la) la (am_state m)\<rparr>"
  shows "am_inv link_text m'" and "tracked m' = insert la (tracked m)"
proof -
  have wf: "wf_map (am_state m')" "inj link_text" using assms by (simp_all add: am_inv_def)
  have look: "map_of (am_state m') k = Some x \<longleftrightarrow> x \<in> insert la (tracked m) \<and> k = link_text x" for k x
    using am_lookup [OF assms(1)] wf(2) by (auto simp: m'_def inj_eq)
  show "am_inv link_text m'" "tracked m' = insert la (tracked m)"
    using wf am_from_lookup [OF wf(1) look] by (simp_all add: am_inv_def tracked_def)
qed

lemma am_delete:
  fixes la :: LinkAddress
  assumes "am_inv link_text m"
  defines "m' \<equiv> m\<lparr>am_state := AList.delete (link_text la) (am_state m)\<rparr>"
  shows "am_inv link_text m'" and "tracked m' = tracked m - {la}"
proof -
  have wf: "wf_map (am_state m')" "inj link_text" using assms by (simp_all add: am_inv_def)
  have look: "map_of (am_state m') k = Some x \<longleftrightarrow> x \<in> tracked m - {la} \<and> k = link_text x" for k x
    using am_lookup [OF assms(1)] wf(2) by (auto simp: m'_def inj_eq)
  show "am_inv link_text m'" "tracked m' = tracked m - {la}"
    using wf am_from_lookup [OF wf(1) look] by (simp_all add: am_inv_def tracked_def)
qed

lemma am_delete_if:
  fixes la :: LinkAddress
  assumes "am_inv link_text m"
  defines "m' \<equiv> if map_of (am_state m) (link_text la) \<noteq> None then m\<lparr>am_state := AList.delete (link_text la) (am_state m)\<rparr> else m"
  shows "am_inv link_text m'" and "tracked m' = tracked m - {la}"
proof -
  have inj: "inj link_text" using assms(1) by (simp add: am_inv_def)
  have "map_of (am_state m) (link_text la) \<noteq> None \<longleftrightarrow> la \<in> tracked m"
    unfolding not_None_eq am_lookup [OF assms(1)] by (auto simp: inj_eq [OF inj])
  then show "am_inv link_text m'" "tracked m' = tracked m - {la}"
    using am_delete [OF assms(1), of la] assms(1) by (simp_all add: m'_def)
qed

context dp_modules
begin

abbreviation has_link :: "'s \<Rightarrow> LinkAddress \<Rightarrow> bool" where
  "has_link w la \<equiv> v_addrs (abs w) (link_ip la) (la_LinkName la)"

lemma AddressManager_State_ok:
  assumes "ok w" and "go_range r" and "\<forall>la\<in>tracked m. la_LinkName la \<in> ifaces"
  shows "\<exists>ls. AddressManager_State (mm_AddressTable M) r (m, w) = (Inr ls, (m, w)) \<and> set ls = {la \<in> tracked m. has_link w la}"
proof -
  have "stateLoop (mm_AddressTable M) ls w = (Inr (filter (has_link w) ls), w)" if "\<forall>la\<in>set ls. la_LinkName la \<in> ifaces" for ls
    using that by (induction ls) (auto simp: IsExists_ok [OF assms(1)])
  moreover have "\<forall>la\<in>set (map snd (r 0 (am_state m))). la_LinkName la \<in> ifaces"
    using assms(2,3) by (simp add: tracked_def)
  ultimately show ?thesis using assms(2) by (auto simp: AddressManager_State_def tracked_def)
qed

lemma AddAddress_ok:
  assumes "ok w" and "am_inv link_text m" and "la_LinkName la \<in> ifaces"
  shows "\<exists>m' w'. AddAddress (mm_AddressTable M) link_text la (m, w) = (Inr (), (m', w')) \<and> ok w' \<and> am_inv link_text m' \<and>
    tracked m' = insert la (tracked m) \<and>
    abs w' = (abs w)\<lparr>v_addrs := (\<lambda>b j. v_addrs (abs w) b j \<or> (j = la_LinkName la \<and> IP_Equal (link_ip la) b))\<rparr>"
proof (cases "has_link w la")
  case True
  then have "abs w = (abs w)\<lparr>v_addrs := (\<lambda>b j. v_addrs (abs w) b j \<or> (j = la_LinkName la \<and> IP_Equal (link_ip la) b))\<rparr>"
    using addrs_equal [OF assms(1)] by (auto simp: fun_eq_iff intro!: dp_view.equality)
  then show ?thesis using True assms(1) am_update [OF assms(2), of la] IsExists_ok [OF assms(1,3)]
    by (auto simp: AddAddress_def Let_def)
next
  case False
  from Add_ok [OF assms(1,3) False] obtain w' where
    "at_Add (mm_AddressTable M) (link_ip la) (la_LinkName la) w = (Inr (), w')" "ok w'"
    "abs w' = (abs w)\<lparr>v_addrs := (\<lambda>b j. v_addrs (abs w) b j \<or> (j = la_LinkName la \<and> IP_Equal (link_ip la) b))\<rparr>" by blast
  then show ?thesis using False am_update [OF assms(2), of la] IsExists_ok [OF assms(1,3)]
    by (auto simp: AddAddress_def Let_def)
qed

lemma DeleteAddress_ok:
  assumes "ok w" and "am_inv link_text m" and "la_LinkName la \<in> ifaces"
  shows "\<exists>m' w'. DeleteAddress (mm_AddressTable M) link_text la (m, w) = (Inr (), (m', w')) \<and> ok w' \<and> am_inv link_text m' \<and>
    tracked m' = tracked m - {la} \<and>
    abs w' = (abs w)\<lparr>v_addrs := (\<lambda>b j. v_addrs (abs w) b j \<and> \<not> (j = la_LinkName la \<and> IP_Equal (link_ip la) b))\<rparr>"
proof (cases "has_link w la")
  case False
  then have "abs w = (abs w)\<lparr>v_addrs := (\<lambda>b j. v_addrs (abs w) b j \<and> \<not> (j = la_LinkName la \<and> IP_Equal (link_ip la) b))\<rparr>"
    using addrs_equal [OF assms(1)] by (auto simp: fun_eq_iff intro!: dp_view.equality)
  then show ?thesis using False assms(1) am_delete_if [OF assms(2), of la] IsExists_ok [OF assms(1,3)]
    by (auto simp: DeleteAddress_def Let_def)
next
  case True
  from Delete_ok [OF assms(1,3) True] obtain w' where
    "at_Delete (mm_AddressTable M) (link_ip la) (la_LinkName la) w = (Inr (), w')" "ok w'"
    "abs w' = (abs w)\<lparr>v_addrs := (\<lambda>b j. v_addrs (abs w) b j \<and> \<not> (j = la_LinkName la \<and> IP_Equal (link_ip la) b))\<rparr>" by blast
  then show ?thesis using True am_delete_if [OF assms(2), of la] IsExists_ok [OF assms(1,3)]
    by (auto simp: DeleteAddress_def Let_def)
qed

lemma AddAddresses_ok:
  assumes "ok w" and "am_inv link_text m" and "\<forall>la\<in>set ls. la_LinkName la \<in> ifaces"
  shows "\<exists>m' w'. AddAddresses (mm_AddressTable M) link_text ls (m, w) = (Inr (), (m', w')) \<and> ok w' \<and> am_inv link_text m' \<and>
    tracked m' = set ls \<union> tracked m \<and>
    abs w' = (abs w)\<lparr>v_addrs := (\<lambda>b j. v_addrs (abs w) b j \<or> (\<exists>la\<in>set ls. j = la_LinkName la \<and> IP_Equal (link_ip la) b))\<rparr>"
  using assms
proof (induction ls arbitrary: m w)
  case (Cons la ls)
  from AddAddress_ok [OF Cons.prems(1,2), of la] Cons.prems(3) obtain m1 w1 where
    s1: "AddAddress (mm_AddressTable M) link_text la (m, w) = (Inr (), (m1, w1))" "ok w1" "am_inv link_text m1" "tracked m1 = insert la (tracked m)"
    "abs w1 = (abs w)\<lparr>v_addrs := (\<lambda>b j. v_addrs (abs w) b j \<or> (j = la_LinkName la \<and> IP_Equal (link_ip la) b))\<rparr>" by auto
  from Cons.IH [OF s1(2,3)] Cons.prems(3) obtain m2 w2 where
    s2: "AddAddresses (mm_AddressTable M) link_text ls (m1, w1) = (Inr (), (m2, w2))" "ok w2" "am_inv link_text m2" "tracked m2 = set ls \<union> tracked m1"
    "abs w2 = (abs w1)\<lparr>v_addrs := (\<lambda>b j. v_addrs (abs w1) b j \<or> (\<exists>la\<in>set ls. j = la_LinkName la \<and> IP_Equal (link_ip la) b))\<rparr>" by auto
  then show ?case using s1 by (auto simp: AddAddresses_def fun_eq_iff intro!: dp_view.equality)
qed (simp add: AddAddresses_def)

lemma DeleteAddresses_ok:
  assumes "ok w" and "am_inv link_text m" and "\<forall>la\<in>set ls. la_LinkName la \<in> ifaces"
  shows "\<exists>m' w'. DeleteAddresses (mm_AddressTable M) link_text ls (m, w) = (Inr (), (m', w')) \<and> ok w' \<and> am_inv link_text m' \<and>
    tracked m' = tracked m - set ls \<and>
    abs w' = (abs w)\<lparr>v_addrs := (\<lambda>b j. v_addrs (abs w) b j \<and> \<not> (\<exists>la\<in>set ls. j = la_LinkName la \<and> IP_Equal (link_ip la) b))\<rparr>"
  using assms
proof (induction ls arbitrary: m w)
  case (Cons la ls)
  from DeleteAddress_ok [OF Cons.prems(1,2), of la] Cons.prems(3) obtain m1 w1 where
    s1: "DeleteAddress (mm_AddressTable M) link_text la (m, w) = (Inr (), (m1, w1))" "ok w1" "am_inv link_text m1" "tracked m1 = tracked m - {la}"
    "abs w1 = (abs w)\<lparr>v_addrs := (\<lambda>b j. v_addrs (abs w) b j \<and> \<not> (j = la_LinkName la \<and> IP_Equal (link_ip la) b))\<rparr>" by auto
  from Cons.IH [OF s1(2,3)] Cons.prems(3) obtain m2 w2 where
    s2: "DeleteAddresses (mm_AddressTable M) link_text ls (m1, w1) = (Inr (), (m2, w2))" "ok w2" "am_inv link_text m2" "tracked m2 = tracked m1 - set ls"
    "abs w2 = (abs w1)\<lparr>v_addrs := (\<lambda>b j. v_addrs (abs w1) b j \<and> \<not> (\<exists>la\<in>set ls. j = la_LinkName la \<and> IP_Equal (link_ip la) b))\<rparr>" by auto
  then show ?case using s1 by (auto simp: DeleteAddresses_def fun_eq_iff intro!: dp_view.equality)
qed (simp add: DeleteAddresses_def)

end

end
