(* ===== verification/Dp_Converge.thy ===== *)
theory Dp_Converge
  imports Dp_Balancers Dp_Routes
begin

section \<open>SetState reaches the wanted state\<close>

text \<open>
  For modules that keep the contract, \<open>SetState\<close> succeeds and afterwards the state read through the
  modules does not differ from the wanted one. What is needed of the world and of the wanted state
  is collected in \<open>dp_ready\<close> and \<open>dp_wanted\<close>.
\<close>

lemma keyGen_inj:
  assumes "\<forall>x\<in>set xs. \<forall>y\<in>set xs. KeyFunc c x = KeyFunc c y \<longrightarrow> x = y"
  shows "map_of (keyGen c xs) k = Some x \<longleftrightarrow> x \<in> set xs \<and> KeyFunc c x = k"
proof
  assume x: "x \<in> set xs \<and> KeyFunc c x = k"
  then obtain y where y: "map_of (keyGen c xs) k = Some y" using keyGen_None [of c xs k] by fastforce
  from keyGen_key [OF y] x assms show "map_of (keyGen c xs) k = Some x" using y by metis
qed (auto dest: keyGen_key)

subsection \<open>The phases without their guards\<close>

lemma on_routing_apply [simp]: "f (dm_dynRoutingMng m, w) = (r, (d, w')) \<Longrightarrow> on_routing f (m, w) = (r, (m\<lparr>dm_dynRoutingMng := d\<rparr>, w'))"
  by (simp add: on_routing_def)

lemma on_addresses_apply [simp]: "f (dm_addressManager m, w) = (r, (a, w')) \<Longrightarrow> on_addresses f (m, w) = (r, (m\<lparr>dm_addressManager := a\<rparr>, w'))"
  by (simp add: on_addresses_def)

lemma guard_routing:
  "(\<And>s. f [] s = (Inr (), s)) \<Longrightarrow> when_a (length xs > 0) (wrap_a t (on_routing (f xs))) = wrap_a t (on_routing (f xs))"
  by (cases xs) (auto simp: fun_eq_iff wrap_a_def)

lemma guard_addresses:
  "(\<And>s. f [] s = (Inr (), s)) \<Longrightarrow> when_a (length xs > 0) (wrap_a t (on_addresses (f xs))) = wrap_a t (on_addresses (f xs))"
  by (cases xs) (auto simp: fun_eq_iff wrap_a_def)

lemma guard_world:
  "(\<And>s. f [] s = (Inr (), s)) \<Longrightarrow> when_a (length xs > 0) (wrap_a t (on_snd (f xs))) = wrap_a t (on_snd (f xs))"
  by (cases xs) (auto simp: fun_eq_iff wrap_a_def)

lemmas no_work = WithdrawRoutes_def AddBalancers_def AddAddresses_def AdvertiseRoutes_def DeleteBalancers_def DeleteAddresses_def

lemma phases_unguarded:
  "withdrawPhase M e rd = wrap_a ''fails to withdraw routing path: '' (on_routing (WithdrawRoutes (mm_Bgp M) (e_ip_text e) (Deleted rd)))"
  "addBalancersPhase M bd = wrap_a ''fails to add balancer: '' (on_snd (AddBalancers M (Added bd)))"
  "addAddressesPhase M e ld = wrap_a ''fails to add addresses: '' (on_addresses (AddAddresses (mm_AddressTable M) (e_link_text e) (Added ld)))"
  "advertisePhase M e rd = wrap_a ''fails to advertise routing path: '' (on_routing (AdvertiseRoutes (mm_Bgp M) (e_ip_text e) (Added rd)))"
  "deleteBalancersPhase M bd = wrap_a ''fails to delete balancers: '' (on_snd (DeleteBalancers M (Deleted bd)))"
  "deleteAddressesPhase M e ld = wrap_a ''fails to delete addresses: '' (on_addresses (DeleteAddresses (mm_AddressTable M) (e_link_text e) (Deleted ld)))"
  unfolding withdrawPhase_def addBalancersPhase_def addAddressesPhase_def advertisePhase_def deleteBalancersPhase_def
    deleteAddressesPhase_def conv_defs list.map_ident
  by (rule guard_routing guard_addresses guard_world, simp add: no_work)+

lemma applyDiff_phases:
  fixes M e cur state
  defines "bd \<equiv> CompareBalancerState (e_lb_text e) (e_balancers e) (dp_Balancers cur) (dp_Balancers state)"
    and "rd \<equiv> CompareDynamicRouting (e_ip_text e) (e_routes e) (dp_DynamicRoutes cur) (dp_DynamicRoutes state)"
    and "ld \<equiv> CompareLocalLinkAddresses (e_links e) (dp_LinkAddresses cur) (dp_LinkAddresses state)"
  shows "applyDiff M e cur state =
    bind_a (withdrawPhase M e rd) (\<lambda>_. bind_a (addBalancersPhase M bd) (\<lambda>_. bind_a (addAddressesPhase M e ld) (\<lambda>_.
    bind_a (updateBalancersPhase M e bd) (\<lambda>_. bind_a (advertisePhase M e rd) (\<lambda>_. bind_a (deleteBalancersPhase M bd) (\<lambda>_.
    deleteAddressesPhase M e ld))))))"
proof (cases "\<not> IsChanged bd \<and> \<not> IsChanged rd \<and> \<not> IsChanged ld")
  case True
  then have "Added bd = []" "Deleted bd = []" "Changed bd = []" "Added rd = []" "Deleted rd = []" "Added ld = []" "Deleted ld = []"
    by (auto simp: IsChanged_def)
  then show ?thesis using True
    by (simp add: applyDiff_def Let_def bd_def [symmetric] rd_def [symmetric] ld_def [symmetric] fun_eq_iff
        withdrawPhase_def addBalancersPhase_def addAddressesPhase_def updateBalancersPhase_def advertisePhase_def
        deleteBalancersPhase_def deleteAddressesPhase_def)
next
  case False
  then show ?thesis unfolding applyDiff_def Let_def bd_def [symmetric] rd_def [symmetric] ld_def [symmetric] by (rule if_not_P)
qed

subsection \<open>The plan for the balancers\<close>

abbreviation BC :: "(LoadBalancerService option \<Rightarrow> 'k) \<Rightarrow> (BalancerState, 'k) ComparableImpl" where
  "BC \<equiv> BalancerStateComparable"

lemma BC_key [simp]: "KeyFunc (BC lb_text) b = lb_text (bs_LbService b)"
  by (simp add: BalancerStateComparable_def LoadBalancerServiceComparable_def)

lemma BC_equal:
  assumes "distinct (map upkey (bs_Upstreams b))" and "distinct (map upkey (bs_Upstreams c))"
  shows "EqualFunc (BC lb_text) b c \<longleftrightarrow> bs_Name b = bs_Name c \<and> mset (bs_Upstreams b) = mset (bs_Upstreams c)"
  using unchanged_upstreams [OF go_range_id assms] by (simp add: BalancerStateComparable_def)

definition wanted_lb :: "(LoadBalancerService option \<Rightarrow> 'k) \<Rightarrow> BalancerState list \<Rightarrow> IpvsService \<Rightarrow> BalancerState option" where
  "wanted_lb lb_text ws s = map_of (keyGen (BC lb_text) ws) (lb_text (Some (mk_lb s)))"

definition wanted_tbl :: "(LoadBalancerService option \<Rightarrow> 'k) \<Rightarrow> BalancerState list \<Rightarrow> IpvsService \<rightharpoonup> UpstreamState multiset" where
  "wanted_tbl lb_text ws s = map_option (\<lambda>b. mset (bs_Upstreams b)) (wanted_lb lb_text ws s)"

lemma wanted_lb_Some: "inj lb_text \<Longrightarrow> wanted_lb lb_text ws s = Some b \<Longrightarrow> b \<in> set ws \<and> lb_is s b"
  by (auto simp: wanted_lb_def lb_is_def inj_eq dest: keyGen_key)

lemma wanted_lb_None: "inj lb_text \<Longrightarrow> wanted_lb lb_text ws s = None \<longleftrightarrow> (\<forall>b\<in>set ws. \<not> lb_is s b)"
  by (auto simp: wanted_lb_def keyGen_None lb_is_def inj_eq image_iff)

lemma current_lb:
  assumes "inj lb_text" and "distinct (map bs_LbService bs)"
  shows "map_of (keyGen (BC lb_text) bs) (lb_text (Some (mk_lb s))) = Some b \<longleftrightarrow> b \<in> set bs \<and> lb_is s b"
proof -
  have "distinct (map (KeyFunc (BC lb_text)) bs)"
    using assms by (simp add: distinct_map comp_inj_on_iff [symmetric] inj_on_def)
  from keyGen_distinct [OF this] show ?thesis using assms(1) by (auto simp: lb_is_def inj_eq)
qed

definition balancer_plan ::
  "(LoadBalancerService option \<Rightarrow> 'k) \<Rightarrow> ('k \<times> BalancerState) range_order \<Rightarrow> BalancerState list \<Rightarrow> BalancerState list \<Rightarrow>
   (IpvsService \<rightharpoonup> UpstreamState multiset) \<Rightarrow> bool" where
  "balancer_plan lb_text r bs ws T \<longleftrightarrow> inj lb_text \<and> go_range r \<and> (\<forall>b\<in>set bs. wf_balancer b) \<and> distinct (map bs_LbService bs) \<and>
     (\<forall>s U. T s = Some U \<longleftrightarrow> (\<exists>b\<in>set bs. lb_is s b \<and> mset (bs_Upstreams b) = U)) \<and> (\<forall>b\<in>set ws. wf_balancer b)"

lemma planD:
  assumes "balancer_plan lb_text r bs ws T"
  shows "inj lb_text" and "go_range r" and "\<forall>b\<in>set bs. wf_balancer b" and "distinct (map bs_LbService bs)"
    and "T s = Some U \<longleftrightarrow> (\<exists>b\<in>set bs. lb_is s b \<and> mset (bs_Upstreams b) = U)" and "\<forall>b\<in>set ws. wf_balancer b"
  using assms by (simp_all add: balancer_plan_def)

lemma lookup_svc:
  "\<forall>b\<in>set bs. wf_balancer b \<Longrightarrow> map_of (keyGen (BC lb_text) bs) k = Some b \<Longrightarrow> \<exists>s. lb_is s b \<and> k = lb_text (Some (mk_lb s)) \<and> b \<in> set bs"
  by (fastforce dest: keyGen_key simp: wf_balancer_def lb_is_def)

lemma plan_None:
  assumes "balancer_plan lb_text r bs ws T"
  shows "T s = None \<longleftrightarrow> map_of (keyGen (BC lb_text) bs) (lb_text (Some (mk_lb s))) = None"
  using planD(5) [OF assms, of s] current_lb [OF planD(1,4) [OF assms], of s] by (metis not_None_eq)

lemma plan_added:
  assumes "balancer_plan lb_text r bs ws T"
  shows "n \<in> set (Added (CompareBalancerState lb_text r bs ws)) \<longleftrightarrow> (\<exists>s. wanted_lb lb_text ws s = Some n \<and> T s = None)"
  unfolding CompareBalancerState_def conv_defs list.map_ident Added_set [OF planD(2) [OF assms]] plan_None [OF assms] wanted_lb_def
  using lookup_svc [OF planD(6) [OF assms], where lb_text = lb_text] by blast

lemma plan_deleted:
  assumes "balancer_plan lb_text r bs ws T"
  shows "b \<in> set (Deleted (CompareBalancerState lb_text r bs ws)) \<longleftrightarrow> (\<exists>s. b \<in> set bs \<and> lb_is s b \<and> wanted_lb lb_text ws s = None)"
  unfolding CompareBalancerState_def conv_defs list.map_ident Deleted_set [OF planD(2) [OF assms]] wanted_lb_def
  using lookup_svc [OF planD(3) [OF assms], where lb_text = lb_text] current_lb [OF planD(1,4) [OF assms]] by metis

lemma plan_changed:
  assumes "balancer_plan lb_text r bs ws T"
  shows "p \<in> set (Changed (CompareBalancerState lb_text r bs ws)) \<longleftrightarrow>
    (\<exists>s. OldItem p \<in> set bs \<and> lb_is s (OldItem p) \<and> wanted_lb lb_text ws s = Some (NewItem p) \<and> \<not> EqualFunc (BC lb_text) (OldItem p) (NewItem p))"
  unfolding CompareBalancerState_def conv_defs list.map_ident Changed_set [OF planD(2) [OF assms]] wanted_lb_def
  using lookup_svc [OF planD(3) [OF assms], where lb_text = lb_text] current_lb [OF planD(1,4) [OF assms]] by metis

lemma plan_distinct:
  assumes "balancer_plan lb_text r bs ws T"
  shows "distinct (map bs_LbService (Added (CompareBalancerState lb_text r bs ws)))"
    and "distinct (map bs_LbService (Deleted (CompareBalancerState lb_text r bs ws)))"
    and "distinct (map (bs_LbService \<circ> NewItem) (Changed (CompareBalancerState lb_text r bs ws)))"
proof -
  let ?d = "CompareBalancerState lb_text r bs ws" and ?K = "KeyFunc (BC lb_text)"
  note r = planD(2) [OF assms]
  have d: "distinct (map (?K \<circ> f) xs) \<Longrightarrow> distinct (map (bs_LbService \<circ> f) xs)" for f and xs :: "'x list"
    by (auto simp: distinct_map inj_on_def)
  show "distinct (map bs_LbService (Added ?d))"
    using d [of id] Added_distinct [OF r, of "BC lb_text" bs ws] by (simp add: CompareBalancerState_def conv_defs)
  show "distinct (map bs_LbService (Deleted ?d))"
    using d [of id] Deleted_distinct [OF r, of "BC lb_text" bs ws] by (simp add: CompareBalancerState_def conv_defs)
  have "distinct (map (bs_LbService \<circ> OldItem) (Changed ?d))"
    using d [of OldItem] Changed_distinct [OF r, of "BC lb_text" bs ws] by (simp add: CompareBalancerState_def conv_defs)
  moreover have "map (bs_LbService \<circ> NewItem) (Changed ?d) = map (bs_LbService \<circ> OldItem) (Changed ?d)"
    using wanted_lb_Some [OF planD(1) [OF assms]] by (auto simp: plan_changed [OF assms] lb_is_def)
  ultimately show "distinct (map (bs_LbService \<circ> NewItem) (Changed ?d))" by (simp only:)
qed

lemma find_added:
  assumes "balancer_plan lb_text r bs ws T"
  shows "find (lb_is s) (Added (CompareBalancerState lb_text r bs ws)) = (if T s = None then wanted_lb lb_text ws s else None)"
proof (cases "find (lb_is s) (Added (CompareBalancerState lb_text r bs ws))")
  case None
  then have "\<not> (wanted_lb lb_text ws s = Some n \<and> T s = None)" for n
    using plan_added [OF assms] wanted_lb_Some [OF planD(1) [OF assms]] by (metis find_None_iff)
  with None show ?thesis by (metis not_None_eq)
next
  case (Some n)
  from find_SomeD [OF this] obtain t where "lb_is s n" "wanted_lb lb_text ws t = Some n" "T t = None" using plan_added [OF assms] by blast
  moreover from this have "t = s" using wanted_lb_Some [OF planD(1) [OF assms]] lb_is_inj by metis
  ultimately show ?thesis using Some by simp
qed

lemma find_changed:
  assumes "balancer_plan lb_text r bs ws T"
  shows "find (lb_is s) (map NewItem (Changed (CompareBalancerState lb_text r bs ws))) =
     (case wanted_lb lb_text ws s of
        None \<Rightarrow> None
      | Some n \<Rightarrow> if \<exists>b\<in>set bs. lb_is s b \<and> \<not> EqualFunc (BC lb_text) b n then Some n else None)"
proof (cases "find (lb_is s) (map NewItem (Changed (CompareBalancerState lb_text r bs ws)))")
  case None
  have "\<not> (\<exists>b\<in>set bs. lb_is s b \<and> \<not> EqualFunc (BC lb_text) b n)" if n: "wanted_lb lb_text ws s = Some n" for n
  proof
    assume "\<exists>b\<in>set bs. lb_is s b \<and> \<not> EqualFunc (BC lb_text) b n"
    then obtain b where "b \<in> set bs" "lb_is s b" "\<not> EqualFunc (BC lb_text) b n" by blast
    then have "\<lparr>OldItem = b, NewItem = n\<rparr> \<in> set (Changed (CompareBalancerState lb_text r bs ws))" unfolding plan_changed [OF assms] using n by auto
    then have "n \<in> set (map NewItem (Changed (CompareBalancerState lb_text r bs ws)))" by force
    with None wanted_lb_Some [OF planD(1) [OF assms] n] show False by (auto simp: find_None_iff)
  qed
  with None show ?thesis by (auto split: option.splits)
next
  case (Some n)
  from find_SomeD [OF this] obtain p where p: "p \<in> set (Changed (CompareBalancerState lb_text r bs ws))" "n = NewItem p" "lb_is s n" by auto
  then obtain t where t: "OldItem p \<in> set bs" "lb_is t (OldItem p)" "wanted_lb lb_text ws t = Some n" "\<not> EqualFunc (BC lb_text) (OldItem p) n"
    unfolding plan_changed [OF assms] by blast
  have "t = s" using wanted_lb_Some [OF planD(1) [OF assms] t(3)] p(3) lb_is_inj by blast
  with t Some show ?thesis by auto
qed

lemma plan_reaches:
  assumes plan: "balancer_plan lb_text r bs ws T"
    and names: "\<And>s b n. b \<in> set bs \<Longrightarrow> lb_is s b \<Longrightarrow> wanted_lb lb_text ws s = Some n \<Longrightarrow> bs_Name b = bs_Name n"
  shows "drop_all (Deleted (CompareBalancerState lb_text r bs ws)) (put_all (map NewItem (Changed (CompareBalancerState lb_text r bs ws))) (put_all (Added (CompareBalancerState lb_text r bs ws)) T)) = wanted_tbl lb_text ws"
proof
  fix s
  have drop: "(\<exists>b\<in>set (Deleted (CompareBalancerState lb_text r bs ws)). lb_is s b) \<longleftrightarrow> T s \<noteq> None \<and> wanted_lb lb_text ws s = None"
    unfolding plan_deleted [OF plan] Bex_def using planD(5) [OF plan, of s] lb_is_inj by (metis not_None_eq)
  show "drop_all (Deleted (CompareBalancerState lb_text r bs ws)) (put_all (map NewItem (Changed (CompareBalancerState lb_text r bs ws))) (put_all (Added (CompareBalancerState lb_text r bs ws)) T)) s = wanted_tbl lb_text ws s"
  proof (cases "wanted_lb lb_text ws s")
    case None
    then show ?thesis by (auto simp: drop_all_def drop put_all_def find_changed [OF plan] find_added [OF plan] wanted_tbl_def)
  next
    case (Some n)
    show ?thesis
    proof (cases "\<exists>b\<in>set bs. lb_is s b \<and> EqualFunc (BC lb_text) b n")
      case True
      then obtain b where b: "b \<in> set bs" "lb_is s b" "EqualFunc (BC lb_text) b n" by blast
      have only: "c = b" if "c \<in> set bs" "lb_is s c" for c
        using that b planD(4) [OF plan] by (metis distinct_map inj_on_eq_iff lb_is_def)
      have "distinct (map upkey (bs_Upstreams b))" "distinct (map upkey (bs_Upstreams n))"
        using b(1) wanted_lb_Some [OF planD(1) [OF plan] Some] planD(3,6) [OF plan] by (auto simp: wf_balancer_def)
      then have "mset (bs_Upstreams b) = mset (bs_Upstreams n)" using b(3) BC_equal by blast
      moreover have "T s = Some (mset (bs_Upstreams b))" using planD(5) [OF plan] b(1,2) by blast
      moreover have "\<not> (\<exists>c\<in>set bs. lb_is s c \<and> \<not> EqualFunc (BC lb_text) c n)" using only b(3) by blast
      ultimately show ?thesis using Some by (simp add: drop_all_def drop put_all_def find_changed [OF plan] find_added [OF plan] wanted_tbl_def)
    next
      case False
      then have "T s \<noteq> None \<Longrightarrow> \<exists>c\<in>set bs. lb_is s c \<and> \<not> EqualFunc (BC lb_text) c n" using planD(5) [OF plan] by blast
      then show ?thesis using Some by (auto simp: drop_all_def drop put_all_def find_changed [OF plan] find_added [OF plan] wanted_tbl_def split: if_splits)
    qed
  qed
qed

text \<open>Every phase finds what it needs: the added services are new, the changed and deleted ones are there.\<close>

lemma put_all_other: "\<forall>b\<in>set bs. \<not> lb_is s b \<Longrightarrow> put_all bs T s = T s"
  by (auto simp: put_all_def find_None_iff split: option.splits dest: find_SomeD)

lemma put_all_dom: "T s \<noteq> None \<Longrightarrow> put_all bs T s \<noteq> None"
  by (simp add: put_all_def split: option.splits)

lemma plan_can_add:
  assumes "balancer_plan lb_text r bs ws T"
  shows "\<forall>b\<in>set (Added (CompareBalancerState lb_text r bs ws)). wf_balancer b"
    and "\<forall>b\<in>set (Added (CompareBalancerState lb_text r bs ws)). \<forall>s. lb_is s b \<longrightarrow> T s = None"
  using wanted_lb_Some [OF planD(1) [OF assms]] planD(6) [OF assms] lb_is_inj by (auto simp: plan_added [OF assms]) metis+

lemma plan_can_update:
  assumes "balancer_plan lb_text r bs ws T"
    and compat: "\<And>b s U x y. b \<in> set ws \<Longrightarrow> lb_is s b \<Longrightarrow> T s = Some U \<Longrightarrow> x \<in># U \<Longrightarrow> y \<in> set (bs_Upstreams b) \<Longrightarrow>
      upkey x = upkey y \<Longrightarrow> same_but_weight x y"
  shows "\<forall>p\<in>set (Changed (CompareBalancerState lb_text r bs ws)). \<exists>svc. lb_is svc (NewItem p) \<and>
      put_all (Added (CompareBalancerState lb_text r bs ws)) T svc = Some (mset (bs_Upstreams (OldItem p))) \<and>
      distinct (map upkey (bs_Upstreams (OldItem p))) \<and> distinct (map upkey (bs_Upstreams (NewItem p))) \<and>
      (\<forall>x\<in>set (bs_Upstreams (OldItem p)). \<forall>y\<in>set (bs_Upstreams (NewItem p)). upkey x = upkey y \<longrightarrow> same_but_weight x y)"
proof
  fix p assume "p \<in> set (Changed (CompareBalancerState lb_text r bs ws))"
  then obtain s where s: "OldItem p \<in> set bs" "lb_is s (OldItem p)" "wanted_lb lb_text ws s = Some (NewItem p)"
    unfolding plan_changed [OF assms(1)] by blast
  note new = wanted_lb_Some [OF planD(1) [OF assms(1)] s(3)]
  have T: "T s = Some (mset (bs_Upstreams (OldItem p)))" using planD(5) [OF assms(1)] s(1,2) by blast
  then have "put_all (Added (CompareBalancerState lb_text r bs ws)) T s = Some (mset (bs_Upstreams (OldItem p)))"
    by (simp add: put_all_def find_added [OF assms(1)])
  moreover have "distinct (map upkey (bs_Upstreams (OldItem p)))" "distinct (map upkey (bs_Upstreams (NewItem p)))"
    using planD(3,6) [OF assms(1)] s(1) new by (auto simp: wf_balancer_def)
  moreover have "\<forall>x\<in>set (bs_Upstreams (OldItem p)). \<forall>y\<in>set (bs_Upstreams (NewItem p)). upkey x = upkey y \<longrightarrow> same_but_weight x y"
    using compat [OF _ _ T] new by auto
  ultimately show "\<exists>svc. lb_is svc (NewItem p) \<and>
      put_all (Added (CompareBalancerState lb_text r bs ws)) T svc = Some (mset (bs_Upstreams (OldItem p))) \<and>
      distinct (map upkey (bs_Upstreams (OldItem p))) \<and> distinct (map upkey (bs_Upstreams (NewItem p))) \<and>
      (\<forall>x\<in>set (bs_Upstreams (OldItem p)). \<forall>y\<in>set (bs_Upstreams (NewItem p)). upkey x = upkey y \<longrightarrow> same_but_weight x y)"
    using new by blast
qed

lemma plan_can_delete:
  assumes "balancer_plan lb_text r bs ws T"
  shows "\<forall>b\<in>set (Deleted (CompareBalancerState lb_text r bs ws)). \<exists>s U. lb_is s b \<and> put_all cs (put_all as T) s = Some U"
proof
  fix b assume "b \<in> set (Deleted (CompareBalancerState lb_text r bs ws))"
  then obtain s where s: "b \<in> set bs" "lb_is s b" unfolding plan_deleted [OF assms] by blast
  then have "T s \<noteq> None" using planD(5) [OF assms] by blast
  then have "put_all cs (put_all as T) s \<noteq> None" by (intro put_all_dom)
  with s show "\<exists>s U. lb_is s b \<and> put_all cs (put_all as T) s = Some U" by blast
qed

text \<open>A table that is the wanted one is read back as no difference.\<close>

lemma plan_done:
  assumes "balancer_plan lb_text r bs ws (wanted_tbl lb_text ws)"
    and names: "\<And>s b n. b \<in> set bs \<Longrightarrow> lb_is s b \<Longrightarrow> wanted_lb lb_text ws s = Some n \<Longrightarrow> bs_Name b = bs_Name n"
    and "go_range r'"
  shows "\<not> IsChanged (CompareBalancerState lb_text r' bs ws)"
proof -
  have "CompareBalancerState lb_text r bs ws = CompareArrays r (BC lb_text) bs ws"
    "CompareBalancerState lb_text r' bs ws = CompareArrays r' (BC lb_text) bs ws" by (simp_all add: CompareBalancerState_def)
  then have order: "IsChanged (CompareBalancerState lb_text r' bs ws) = IsChanged (CompareBalancerState lb_text r bs ws)"
    using IsChanged_order planD(2) [OF assms(1)] assms(3) by metis
  have "x \<notin> set (Added (CompareBalancerState lb_text r bs ws))" for x
    by (auto simp: plan_added [OF assms(1)] wanted_tbl_def)
  moreover have tbl: "wanted_tbl lb_text ws s \<noteq> None" if "b \<in> set bs" "lb_is s b" for b s
    using planD(5) [OF assms(1), of s "mset (bs_Upstreams b)"] that by auto
  then have "x \<notin> set (Deleted (CompareBalancerState lb_text r bs ws))" for x
    by (fastforce simp: plan_deleted [OF assms(1)] wanted_tbl_def)
  moreover have "EqualFunc (BC lb_text) b n" if "b \<in> set bs" "lb_is s b" "wanted_lb lb_text ws s = Some n" for s b n
  proof -
    have "distinct (map upkey (bs_Upstreams b))" "distinct (map upkey (bs_Upstreams n))"
      using planD(3,6) [OF assms(1)] that wanted_lb_Some [OF planD(1) [OF assms(1)]] by (auto simp: wf_balancer_def)
    moreover have "wanted_tbl lb_text ws s = Some (mset (bs_Upstreams b))" using planD(5) [OF assms(1)] that(1,2) by blast
    ultimately show ?thesis using names [OF that] that(3) by (simp add: BC_equal wanted_tbl_def)
  qed
  then have "p \<notin> set (Changed (CompareBalancerState lb_text r bs ws))" for p
    by (auto simp: plan_changed [OF assms(1)])
  ultimately show ?thesis unfolding order by (metis IsChanged_def length_0_conv list.set_intros(1) neq_Nil_conv)
qed

end
