(* ===== verification/Dp_Plans.thy ===== *)
theory Dp_Plans
  imports Dp_Routes
begin

section \<open>The plans for routes and addresses\<close>

text \<open>
  What the differences of routes and of link addresses ask for, and that doing it turns what is
  there into what is wanted.
\<close>

subsection \<open>Routes\<close>

abbreviation DC :: "(IP option \<Rightarrow> string) \<Rightarrow> (DynamicRoute, string) ComparableImpl" where
  "DC \<equiv> DynamicRoutingComparable"

lemma DC_key [simp]: "KeyFunc (DC ip_text) = (\<lambda>r. rkey ip_text (GetBgpAttributes r))"
  by (simp add: DynamicRoutingComparable_def)

lemma DC_equal [simp]: "EqualFunc (DC ip_text) r q = rEqual ip_text (GetBgpAttributes r) (GetBgpAttributes q)"
  by (simp add: DynamicRoutingComparable_def)

text \<open>\<open>P\<close> is what is advertised, \<open>rs\<close> what \<open>ListRoutes\<close> made of it, \<open>ws\<close> what is wanted.\<close>

definition route_plan ::
  "(IP option \<Rightarrow> string) \<Rightarrow> (string \<times> DynamicRoute) range_order \<Rightarrow> DynamicRoute list \<Rightarrow> DynamicRoute list \<Rightarrow>
   BgpRouteAttributes option multiset \<Rightarrow> bool" where
  "route_plan ip_text r rs ws P \<longleftrightarrow> go_range r \<and> uniq (rkey ip_text) P \<and>
     image_mset (\<lambda>r. rkey ip_text (GetBgpAttributes r)) (mset rs) = image_mset (rkey ip_text) P \<and>
     (\<forall>r\<in>set rs. has_bgp r \<and> (\<exists>p. p \<in># P \<and> rEqual ip_text p (GetBgpAttributes r))) \<and> (\<forall>w\<in>set ws. has_bgp w)"

lemma route_planD:
  assumes "route_plan ip_text r rs ws P"
  shows "go_range r" and "distinct (map (KeyFunc (DC ip_text)) rs)"
    and "KeyFunc (DC ip_text) ` set rs = rkey ip_text ` set_mset P" and "x \<in> set rs \<Longrightarrow> has_bgp x"
    and "x \<in> set rs \<Longrightarrow> \<exists>p. p \<in># P \<and> rEqual ip_text p (GetBgpAttributes x)" and "y \<in> set ws \<Longrightarrow> has_bgp y"
proof -
  from assms obtain ps where ps: "mset ps = P" "distinct (map (rkey ip_text) ps)" by (auto simp: route_plan_def uniq_def)
  have eq: "mset (map (KeyFunc (DC ip_text)) rs) = mset (map (rkey ip_text) ps)" using assms ps(1) by (simp add: route_plan_def)
  with ps(2) show "distinct (map (KeyFunc (DC ip_text)) rs)" by (metis mset_eq_imp_distinct_iff)
  have "set (map (KeyFunc (DC ip_text)) rs) = set (map (rkey ip_text) ps)" using eq by (rule mset_eq_setD)
  then show "KeyFunc (DC ip_text) ` set rs = rkey ip_text ` set_mset P" using ps(1) by auto
qed (use assms in \<open>auto simp: route_plan_def\<close>)

lemma route_added:
  assumes "route_plan ip_text r rs ws P"
  shows "x \<in> set (Added (CompareDynamicRouting ip_text r rs ws)) \<Longrightarrow> x \<in> set ws \<and> rkey ip_text (GetBgpAttributes x) \<notin> rkey ip_text ` set_mset P"
    and "rkey ip_text ` GetBgpAttributes ` set (Added (CompareDynamicRouting ip_text r rs ws)) =
      rkey ip_text ` GetBgpAttributes ` set ws - rkey ip_text ` set_mset P"
    and "distinct (map (\<lambda>r. rkey ip_text (GetBgpAttributes r)) (Added (CompareDynamicRouting ip_text r rs ws)))"
proof -
  let ?K = "\<lambda>x. rkey ip_text (GetBgpAttributes x)" and ?A = "Added (CompareDynamicRouting ip_text r rs ws)"
  note r = route_planD(1) [OF assms]
  have mem: "x \<in> set ?A \<longleftrightarrow> map_of (keyGen (DC ip_text) ws) (?K x) = Some x \<and> ?K x \<notin> rkey ip_text ` set_mset P" for x
    unfolding CompareDynamicRouting_def conv_defs list.map_ident Added_set [OF r] keyGen_None route_planD(3) [OF assms]
    using keyGen_key [of "DC ip_text" ws] by (auto simp: image_iff)
  then show "x \<in> set ?A \<Longrightarrow> x \<in> set ws \<and> ?K x \<notin> rkey ip_text ` set_mset P" by (auto dest: keyGen_key)
  have "\<exists>a\<in>set ?A. ?K a = ?K y" if y: "y \<in> set ws" "?K y \<notin> rkey ip_text ` set_mset P" for y
  proof -
    have "map_of (keyGen (DC ip_text) ws) (?K y) \<noteq> None" using y(1) by (simp add: keyGen_None)
    then obtain a where "map_of (keyGen (DC ip_text) ws) (?K y) = Some a" by blast
    moreover from this have "?K a = ?K y" by (auto dest: keyGen_key)
    ultimately show ?thesis using y(2) mem by auto
  qed
  moreover have "a \<in> set ws \<and> ?K a \<notin> rkey ip_text ` set_mset P" if "a \<in> set ?A" for a
    using that mem by (auto dest: keyGen_key)
  ultimately show "rkey ip_text ` GetBgpAttributes ` set ?A = rkey ip_text ` GetBgpAttributes ` set ws - rkey ip_text ` set_mset P"
    unfolding image_image by (auto simp: image_iff) metis+
  have "distinct (map (KeyFunc (DC ip_text)) ?A)"
    unfolding CompareDynamicRouting_def by (rule Added_distinct [OF r])
  then show "distinct (map ?K ?A)" by simp
qed

lemma route_deleted:
  assumes "route_plan ip_text r rs ws P"
  shows "x \<in> set (Deleted (CompareDynamicRouting ip_text r rs ws)) \<longleftrightarrow>
      x \<in> set rs \<and> rkey ip_text (GetBgpAttributes x) \<notin> rkey ip_text ` GetBgpAttributes ` set ws"
    and "distinct (map (\<lambda>r. rkey ip_text (GetBgpAttributes r)) (Deleted (CompareDynamicRouting ip_text r rs ws)))"
proof -
  let ?K = "\<lambda>x. rkey ip_text (GetBgpAttributes x)" and ?D = "Deleted (CompareDynamicRouting ip_text r rs ws)"
  note r = route_planD(1) [OF assms]
  show "x \<in> set ?D \<longleftrightarrow> x \<in> set rs \<and> ?K x \<notin> rkey ip_text ` GetBgpAttributes ` set ws"
    unfolding CompareDynamicRouting_def conv_defs list.map_ident Deleted_set [OF r] keyGen_None keyGen_distinct [OF route_planD(2) [OF assms]]
    by (auto simp: image_image)
  have "distinct (map (KeyFunc (DC ip_text)) ?D)"
    unfolding CompareDynamicRouting_def by (rule Deleted_distinct [OF r])
  then show "distinct (map ?K ?D)" by simp
qed

lemma route_withdrawn:
  assumes "route_plan ip_text r rs ws P" and "Q \<subseteq># P"
    and "image_mset (rkey ip_text) Q = image_mset (rkey ip_text) P -
      mset (map (\<lambda>r. rkey ip_text (GetBgpAttributes r)) (Deleted (CompareDynamicRouting ip_text r rs ws)))"
  shows "uniq (rkey ip_text) Q" and "rkey ip_text ` set_mset Q = rkey ip_text ` set_mset P \<inter> rkey ip_text ` GetBgpAttributes ` set ws"
proof -
  let ?D = "Deleted (CompareDynamicRouting ip_text r rs ws)"
  have P: "uniq (rkey ip_text) P" using assms(1) by (simp add: route_plan_def)
  then show "uniq (rkey ip_text) Q" using assms(2) by (rule uniq_sub)
  from P obtain ps where ps: "mset ps = P" "distinct (map (rkey ip_text) ps)" by (auto simp: uniq_def)
  have "rkey ip_text ` GetBgpAttributes ` set ?D = KeyFunc (DC ip_text) ` set rs - rkey ip_text ` GetBgpAttributes ` set ws"
  proof (intro set_eqI iffI)
    fix k assume "k \<in> rkey ip_text ` GetBgpAttributes ` set ?D"
    then obtain x where "x \<in> set ?D" "k = rkey ip_text (GetBgpAttributes x)" by blast
    then show "k \<in> KeyFunc (DC ip_text) ` set rs - rkey ip_text ` GetBgpAttributes ` set ws"
      unfolding route_deleted(1) [OF assms(1)] by simp
  next
    fix k assume "k \<in> KeyFunc (DC ip_text) ` set rs - rkey ip_text ` GetBgpAttributes ` set ws"
    then obtain x where x: "x \<in> set rs" "k = rkey ip_text (GetBgpAttributes x)" "k \<notin> rkey ip_text ` GetBgpAttributes ` set ws"
      unfolding DC_key by blast
    then have "x \<in> set ?D" unfolding route_deleted(1) [OF assms(1)] by simp
    with x(2) show "k \<in> rkey ip_text ` GetBgpAttributes ` set ?D" by blast
  qed
  then have gone: "rkey ip_text ` GetBgpAttributes ` set ?D = rkey ip_text ` set_mset P - rkey ip_text ` GetBgpAttributes ` set ws"
    unfolding route_planD(3) [OF assms(1)] .
  have "rkey ip_text ` set_mset Q = set_mset (image_mset (rkey ip_text) Q)" by simp
  also have "\<dots> = set_mset (mset (map (rkey ip_text) ps) - mset (map (\<lambda>r. rkey ip_text (GetBgpAttributes r)) ?D))"
    unfolding assms(3) ps(1) [symmetric] by simp
  also have "\<dots> = rkey ip_text ` set_mset P - rkey ip_text ` GetBgpAttributes ` set ?D"
    unfolding set_mset_distinct_diff [OF ps(2)] using ps(1) by (auto simp: image_image)
  also have "\<dots> = rkey ip_text ` set_mset P \<inter> rkey ip_text ` GetBgpAttributes ` set ws"
    unfolding gone by (rule Diff_Diff_Int)
  finally show "rkey ip_text ` set_mset Q = rkey ip_text ` set_mset P \<inter> rkey ip_text ` GetBgpAttributes ` set ws" .
qed

text \<open>
  What is advertised afterwards: the kept routes and the added ones. The keys are those of the wanted
  routes, once each, and nothing is left to do.
\<close>

lemma route_reaches:
  assumes plan: "route_plan ip_text r rs ws P" and "Q \<subseteq># P"
    and Q: "image_mset (rkey ip_text) Q = image_mset (rkey ip_text) P -
      mset (map (\<lambda>r. rkey ip_text (GetBgpAttributes r)) (Deleted (CompareDynamicRouting ip_text r rs ws)))"
    and P': "P' = Q + mset (map GetBgpAttributes (Added (CompareDynamicRouting ip_text r rs ws)))"
  shows "uniq (rkey ip_text) P'" and "rkey ip_text ` set_mset P' = rkey ip_text ` GetBgpAttributes ` set ws"
    and "None \<notin># P \<Longrightarrow> None \<notin># P'" and "p \<in># P' \<Longrightarrow> p \<in># P \<or> p \<in> GetBgpAttributes ` set ws"
proof -
  let ?A = "Added (CompareDynamicRouting ip_text r rs ws)"
  note kept = route_withdrawn [OF plan assms(2) Q] and add = route_added [OF plan]
  have sub: "set_mset Q \<subseteq> set_mset P" using assms(2) by (rule set_mset_mono)
  have "(W - K) \<inter> (K \<inter> W) = {}" for K W :: "string set" by blast
  then have "rkey ip_text ` set (map GetBgpAttributes ?A) \<inter> rkey ip_text ` set_mset Q = {}"
    unfolding set_map add(2) kept(2) by (simp only:)
  moreover have "distinct (map (rkey ip_text) (map GetBgpAttributes ?A))" using add(3) by (simp add: comp_def)
  ultimately show "uniq (rkey ip_text) P'" unfolding P' by (intro uniq_add [OF kept(1)])
  have "rkey ip_text ` set_mset P' = rkey ip_text ` set_mset Q \<union> rkey ip_text ` GetBgpAttributes ` set ?A" by (simp add: P' image_Un)
  moreover have "(K \<inter> W) \<union> (W - K) = W" for K W :: "string set" by blast
  ultimately show "rkey ip_text ` set_mset P' = rkey ip_text ` GetBgpAttributes ` set ws" unfolding add(2) kept(2) by (simp only:)
  have mem: "p \<in># P \<or> p \<in> GetBgpAttributes ` set ws" if "p \<in># P'" for p
  proof (cases "p \<in># Q")
    case False
    with that have "p \<in> GetBgpAttributes ` set ?A" unfolding P' by simp
    then show ?thesis using add(1) by blast
  qed (use sub in blast)
  then show "p \<in># P \<or> p \<in> GetBgpAttributes ` set ws" if "p \<in># P'" using that .
  have "None \<notin> GetBgpAttributes ` set ws" using route_planD(6) [OF plan] by (fastforce simp: has_bgp_def image_iff)
  with mem show "None \<notin># P'" if "None \<notin># P" using that by blast
qed

lemma route_done:
  assumes plan: "route_plan ip_text r rs ws P" and keys: "rkey ip_text ` set_mset P = rkey ip_text ` GetBgpAttributes ` set ws"
    and eq: "\<And>p w. p \<in># P \<Longrightarrow> w \<in> set ws \<Longrightarrow> rkey ip_text p = rkey ip_text (GetBgpAttributes w) \<Longrightarrow> rEqual ip_text p (GetBgpAttributes w)"
    and "go_range r'"
  shows "\<not> IsChanged (CompareDynamicRouting ip_text r' rs ws)"
proof -
  have "same_entry (DC ip_text) (map_of (keyGen (DC ip_text) rs) k) (map_of (keyGen (DC ip_text) ws) k)" for k
  proof (cases "map_of (keyGen (DC ip_text) rs) k")
    case None
    then have "k \<notin> rkey ip_text ` GetBgpAttributes ` set ws"
      unfolding keyGen_None route_planD(3) [OF plan] keys .
    then have "map_of (keyGen (DC ip_text) ws) k = None" unfolding keyGen_None by (simp add: image_image)
    with None show ?thesis by simp
  next
    case (Some x)
    then have x: "x \<in> set rs" "rkey ip_text (GetBgpAttributes x) = k" by (auto dest: keyGen_key)
    from route_planD(5) [OF plan x(1)] obtain p where p: "p \<in># P" "rEqual ip_text p (GetBgpAttributes x)" by blast
    have "k \<in> rkey ip_text ` set_mset P" using p(1) rEqual_rkey [OF p(2)] x(2) by (metis imageI)
    then have "k \<in> KeyFunc (DC ip_text) ` set ws" unfolding keys image_image DC_key .
    then have "map_of (keyGen (DC ip_text) ws) k \<noteq> None" unfolding keyGen_None by simp
    then obtain w where w: "map_of (keyGen (DC ip_text) ws) k = Some w" by blast
    from keyGen_key [OF w] have "rEqual ip_text p (GetBgpAttributes w)" using eq [OF p(1)] rEqual_rkey [OF p(2)] x(2) by simp
    then have "rEqual ip_text (GetBgpAttributes x) (GetBgpAttributes w)"
      using p(2) bgp_cmp.equal_sym bgp_cmp.equal_trans by blast
    then show ?thesis using Some w by simp
  qed
  then show ?thesis by (simp add: CompareDynamicRouting_def IsChanged_iff [OF assms(4)])
qed

subsection \<open>Addresses\<close>

lemma link_lookup:
  assumes "inj_on lkey (set ls)"
  shows "map_of (keyGen LocalLinkAddrComparable ls) k = Some x \<longleftrightarrow> x \<in> set ls \<and> lkey x = k"
proof
  assume x: "x \<in> set ls \<and> lkey x = k"
  then obtain y where y: "map_of (keyGen LocalLinkAddrComparable ls) k = Some y"
    using keyGen_None [of LocalLinkAddrComparable ls k] by fastforce
  from keyGen_key [OF y] x assms have "y = x" by (metis inj_onD)
  with y show "map_of (keyGen LocalLinkAddrComparable ls) k = Some x" by simp
qed (auto dest: keyGen_key)

lemma link_diff:
  assumes "go_range r" and "inj_on lkey (set ls \<union> set ws)"
  shows "set (Added (CompareLocalLinkAddresses r ls ws)) = set ws - set ls"
    and "set (Deleted (CompareLocalLinkAddresses r ls ws)) = set ls - set ws"
    and "IsChanged (CompareLocalLinkAddresses r ls ws) \<longleftrightarrow> set ls \<noteq> set ws"
proof -
  have inj: "inj_on lkey (set ls)" "inj_on lkey (set ws)" using assms(2) by (auto intro: inj_on_subset)
  note look = link_lookup [OF inj(1)] link_lookup [OF inj(2)]
  have key: "lkey x = lkey y \<longleftrightarrow> x = y" if "x \<in> set ls \<union> set ws" "y \<in> set ls \<union> set ws" for x y
    using that assms(2) by (simp add: inj_on_eq_iff)
  show add: "set (Added (CompareLocalLinkAddresses r ls ws)) = set ws - set ls"
    by (rule set_eqI) (auto simp: CompareLocalLinkAddresses_def Added_set [OF assms(1)] look keyGen_None key image_iff)
  show del: "set (Deleted (CompareLocalLinkAddresses r ls ws)) = set ls - set ws"
    by (rule set_eqI) (auto simp: CompareLocalLinkAddresses_def Deleted_set [OF assms(1)] look keyGen_None key image_iff)
  have "p \<notin> set (Changed (CompareLocalLinkAddresses r ls ws))" for p
    by (auto simp: CompareLocalLinkAddresses_def Changed_set [OF assms(1)] look key) (simp add: LocalLinkAddrComparable_def)
  then have "Changed (CompareLocalLinkAddresses r ls ws) = []" by (metis list.set_intros(1) neq_Nil_conv)
  moreover have "Added (CompareLocalLinkAddresses r ls ws) = [] \<longleftrightarrow> set ws \<subseteq> set ls"
    "Deleted (CompareLocalLinkAddresses r ls ws) = [] \<longleftrightarrow> set ls \<subseteq> set ws"
    using add del by (metis Diff_eq_empty_iff set_empty)+
  ultimately show "IsChanged (CompareLocalLinkAddresses r ls ws) \<longleftrightarrow> set ls \<noteq> set ws" by (auto simp: IsChanged_def)
qed

text \<open>
  \<open>V\<close> tells which address is on which interface, \<open>A\<close> are the tracked links; adding and deleting what
  the difference says leaves exactly the wanted links.
\<close>

definition on_links :: "LinkAddress set \<Rightarrow> net_ip \<Rightarrow> string \<Rightarrow> bool" where
  "on_links L b j \<longleftrightarrow> (\<exists>la\<in>L. j = la_LinkName la \<and> IP_Equal (link_ip la) b)"

lemma on_links_self: "la \<in> L \<Longrightarrow> on_links L (link_ip la) (la_LinkName la)"
  by (auto simp: on_links_def IP_Equal_norm)

lemma on_links_mem:
  assumes "inj_on lkey K" and "L \<subseteq> K" and "la \<in> K" and "on_links L (link_ip la) (la_LinkName la)"
  shows "la \<in> L"
proof -
  from assms(4) obtain x where "x \<in> L" "la_LinkName x = la_LinkName la" "IP_Equal (link_ip x) (link_ip la)" by (auto simp: on_links_def)
  then show ?thesis using lkey_equal assms(1-3) by (metis inj_onD subsetD)
qed

lemma link_reaches:
  assumes inj: "inj_on lkey (A \<union> set ws)" and ls: "ls = {la \<in> A. V (link_ip la) (la_LinkName la)}"
  shows "{la \<in> ((set ws - ls) \<union> A) - (ls - set ws).
      (V (link_ip la) (la_LinkName la) \<or> on_links (set ws - ls) (link_ip la) (la_LinkName la)) \<and>
      \<not> on_links (ls - set ws) (link_ip la) (la_LinkName la)} = set ws"
proof -
  have sub: "set ws - ls \<subseteq> A \<union> set ws" "ls - set ws \<subseteq> A \<union> set ws" using ls by auto
  have iff: "on_links (set ws - ls) (link_ip la) (la_LinkName la) \<longleftrightarrow> la \<in> set ws - ls"
    "on_links (ls - set ws) (link_ip la) (la_LinkName la) \<longleftrightarrow> la \<in> ls - set ws" if "la \<in> A \<union> set ws" for la
    using on_links_mem [OF inj sub(1) that] on_links_mem [OF inj sub(2) that] on_links_self by blast+
  show ?thesis
  proof (intro set_eqI iffI)
    fix la assume la: "la \<in> set ws"
    then have "la \<in> A \<union> set ws" by simp
    from iff [OF this] la ls show "la \<in> {la \<in> ((set ws - ls) \<union> A) - (ls - set ws).
      (V (link_ip la) (la_LinkName la) \<or> on_links (set ws - ls) (link_ip la) (la_LinkName la)) \<and>
      \<not> on_links (ls - set ws) (link_ip la) (la_LinkName la)}" by blast
  next
    fix la assume la: "la \<in> {la \<in> ((set ws - ls) \<union> A) - (ls - set ws).
      (V (link_ip la) (la_LinkName la) \<or> on_links (set ws - ls) (link_ip la) (la_LinkName la)) \<and>
      \<not> on_links (ls - set ws) (link_ip la) (la_LinkName la)}"
    then have "la \<in> A \<union> set ws" by blast
    from iff [OF this] la ls show "la \<in> set ws" by blast
  qed
qed

end
