(* ===== verification/Cache_Resolver.thy ===== *)
theory Cache_Resolver
  imports Dp_Modules
begin

section \<open>kglb/data\_plane: cache\_resolver.go, resolver.go\<close>

text \<open>
  The resolver of the data plane answers from what the control plane sent: \<open>UpdateCache\<close> remembers
  the name of every service and the hosts of the real servers. A missed key is answered with a
  default value and never removed. The system resolver of resolver.go asks the operating system,
  whose answers are parameters.
\<close>

subsection \<open>CacheResolver\<close>

record CacheResolver =
  cr_reverseCache :: "string \<rightharpoonup> string"
  cr_hostnameCache :: "string \<rightharpoonup> HostnameCacheEntry"
  cr_serviceCache :: "string \<rightharpoonup> string"

definition NewCacheResolver :: CacheResolver where
  "NewCacheResolver = \<lparr>cr_reverseCache = Map.empty, cr_hostnameCache = Map.empty, cr_serviceCache = Map.empty\<rparr>"

definition defaultService :: string where
  "defaultService = ''default''"

definition defaultHostname :: string where
  "defaultHostname = ''default''"

definition defaultRealCluster :: string where
  "defaultRealCluster = ''default''"

definition CacheResolver_Lookup :: "string \<Rightarrow> (CacheResolver, HostnameCacheEntry) act" where
  "CacheResolver_Lookup name = (\<lambda>r.
     case cr_hostnameCache r name of
       Some val \<Rightarrow> (Inr val, r)
     | None \<Rightarrow> (fail ''missed lookup cache'', r))"

text \<open>\<open>strings.Split(hostname, "-")[0]\<close> of a hostname that contains a dash.\<close>

definition CacheResolver_Cluster :: "string \<Rightarrow> string" where
  "CacheResolver_Cluster hostname =
     (if length hostname = 0 \<or> CHR ''-'' \<notin> set hostname then defaultRealCluster
      else takeWhile (\<lambda>c. c \<noteq> CHR ''-'') hostname)"

definition CacheResolver_ReverseLookup :: "net_ip \<Rightarrow> (CacheResolver, string) act" where
  "CacheResolver_ReverseLookup ip = (\<lambda>r.
     case cr_reverseCache r (IP_String ip) of
       Some val \<Rightarrow> (Inr val, r)
     | None \<Rightarrow> (Inr defaultHostname, r))"

definition keyByService :: "IpvsService option \<Rightarrow> string result" where
  "keyByService srv =
     (case srv of
        None \<Rightarrow> nilDeref
      | Some s \<Rightarrow>
          (case ipvs_Attributes s of
             Some (TcpAttributes None) \<Rightarrow> nilDeref
           | Some (TcpAttributes (Some a)) \<Rightarrow>
               Inr (''tcp-'' @ IP_String (KglbAddrToNetIp (tcp_Address a)) @ '':'' @ dec (unat (tcp_Port a)))
           | Some (UdpAttributes None) \<Rightarrow> nilDeref
           | Some (UdpAttributes (Some a)) \<Rightarrow>
               Inr (''udp-'' @ IP_String (KglbAddrToNetIp (udp_Address a)) @ '':'' @ dec (unat (udp_Port a)))
           | Some (FwmarkAttributes f) \<Rightarrow> Inr (''fwmark-'' @ dec (unat (GetFwmark (Some s))))
           | None \<Rightarrow> Inr defaultService))"

definition CacheResolver_ServiceLookup :: "IpvsService option \<Rightarrow> (CacheResolver, string) act" where
  "CacheResolver_ServiceLookup srv = (\<lambda>r.
     if srv = None then (Inr defaultService, r)
     else (bind_r (keyByService srv) (\<lambda>key.
             case cr_serviceCache r key of Some val \<Rightarrow> Inr val | None \<Rightarrow> Inr defaultService), r))"

definition cacheUpstream :: "UpstreamState \<Rightarrow> CacheResolver \<Rightarrow> CacheResolver" where
  "cacheUpstream upstreamState r =
     (let hostname = us_Hostname upstreamState;
          address = KglbAddrToNetIp (us_Address upstreamState)
      in if length hostname = 0 then r
         else if length address = 0 then r
         else
           let entry = (case cr_hostnameCache r hostname of None \<Rightarrow> \<lparr>hce_IPv4 = [], hce_IPv6 = []\<rparr> | Some e \<Rightarrow> e);
               entry1 =
                 (if To4 address \<noteq> None \<and> \<not> IP_Equal (hce_IPv4 entry) address then entry\<lparr>hce_IPv4 := address\<rparr>
                  else if To4 address = None \<and> \<not> IP_Equal (hce_IPv6 entry) address then entry\<lparr>hce_IPv6 := address\<rparr>
                  else entry);
               r1 = r\<lparr>cr_hostnameCache := (cr_hostnameCache r)(hostname \<mapsto> entry1)\<rparr>
           in if cr_reverseCache r1 (IP_String address) \<noteq> Some hostname
              then r1\<lparr>cr_reverseCache := (cr_reverseCache r1)(IP_String address \<mapsto> hostname)\<rparr>
              else r1)"

definition cacheBalancer :: "BalancerState \<Rightarrow> (CacheResolver, unit) act" where
  "cacheBalancer service = (\<lambda>r.
     case keyByService (GetIpvsService (bs_LbService service)) of
       Inl e \<Rightarrow> (Inl e, r)
     | Inr key \<Rightarrow>
         (Inr (), fold cacheUpstream (bs_Upstreams service)
            (r\<lparr>cr_serviceCache := (cr_serviceCache r)(key \<mapsto> bs_Name service)\<rparr>)))"

definition UpdateCache :: "DataPlaneState option \<Rightarrow> (CacheResolver, unit) act" where
  "UpdateCache state =
     (case state of None \<Rightarrow> ret_a () | Some st \<Rightarrow> each_a cacheBalancer (dp_Balancers st))"

subsection \<open>Resolver\<close>

definition unknownService :: string where
  "unknownService = ''default''"

definition unknownHostname :: string where
  "unknownHostname = ''unknown''"

definition unknownRealCluster :: string where
  "unknownRealCluster = ''none''"

definition Resolver_Lookup :: "(string \<Rightarrow> net_ip list result) \<Rightarrow> string \<Rightarrow> HostnameCacheEntry result" where
  "Resolver_Lookup LookupIPAddr name =
     bind_r (LookupIPAddr name) (\<lambda>addrs.
       if length addrs = 0 then fail ''fails to resolve name''
       else Inr (fold (\<lambda>addr result. if To4 addr \<noteq> None then result\<lparr>hce_IPv4 := addr\<rparr> else result\<lparr>hce_IPv6 := addr\<rparr>)
                  addrs \<lparr>hce_IPv4 = [], hce_IPv6 = []\<rparr>))"

definition Resolver_Cluster :: "string \<Rightarrow> string" where
  "Resolver_Cluster hostname = (if length hostname > 3 then take 3 hostname else unknownRealCluster)"

text \<open>On an error \<open>ReverseLookup\<close> returns the default name along with it.\<close>

definition Resolver_ReverseLookup :: "(string \<Rightarrow> string list result) \<Rightarrow> net_ip \<Rightarrow> string \<times> unit result" where
  "Resolver_ReverseLookup LookupAddr ip =
     (case LookupAddr (IP_String ip) of
        Inl e \<Rightarrow> (unknownHostname, Inl e)
      | Inr names \<Rightarrow>
          (case names of
             [] \<Rightarrow> (unknownHostname, fail ''fails to resolve addr'')
           | name # _ \<Rightarrow> (name, Inr ())))"

definition Resolver_ServiceLookup :: "IpvsService option \<Rightarrow> string" where
  "Resolver_ServiceLookup srv = unknownService"

subsection \<open>Names\<close>

lemma cacheUpstream_service [simp]: "cr_serviceCache (cacheUpstream u r) = cr_serviceCache r"
  by (simp add: cacheUpstream_def Let_def)

lemma cacheUpstreams_service [simp]: "cr_serviceCache (fold cacheUpstream us r) = cr_serviceCache r"
  by (induction us arbitrary: r) simp_all

lemma fwmark_key_panics: "keyByService srv = nilDeref \<longleftrightarrow>
    srv = None \<or> (\<exists>s. srv = Some s \<and> (ipvs_Attributes s = Some (TcpAttributes None) \<or> ipvs_Attributes s = Some (UdpAttributes None)))"
  by (cases srv; cases "ipvs_Attributes (the srv)" rule: attrs_cases) (auto simp: keyByService_def nilDeref_def)

text \<open>The states whose services the cache can tell apart by name.\<close>

definition cache_names_ok :: "DataPlaneState \<Rightarrow> bool" where
  "cache_names_ok state \<longleftrightarrow>
     (\<forall>b\<in>set (dp_Balancers state). is_ok (keyByService (GetIpvsService (bs_LbService b)))) \<and>
     (\<forall>a\<in>set (dp_Balancers state). \<forall>b\<in>set (dp_Balancers state).
        keyByService (GetIpvsService (bs_LbService a)) = keyByService (GetIpvsService (bs_LbService b)) \<longrightarrow> bs_Name a = bs_Name b)"

lemma keyByService_wf: "wf_service s \<Longrightarrow> is_ok (keyByService (Some s))"
  by (cases "ipvs_Attributes s" rule: attrs_cases) (auto simp: wf_service_def attr_ident_def keyByService_def)

lemma cacheBalancers_service:
  assumes "\<forall>b\<in>set bs. is_ok (keyByService (GetIpvsService (bs_LbService b)))"
  shows "\<exists>r'. each_a cacheBalancer bs r = (Inr (), r') \<and>
    (\<forall>k. cr_serviceCache r' k =
      (case find (\<lambda>b. keyByService (GetIpvsService (bs_LbService b)) = Inr k) (rev bs) of
         Some b \<Rightarrow> Some (bs_Name b)
       | None \<Rightarrow> cr_serviceCache r k))"
  using assms
proof (induction bs arbitrary: r)
  case (Cons b bs)
  from Cons.prems obtain key where key: "keyByService (GetIpvsService (bs_LbService b)) = Inr key" by (auto simp: is_ok_iff)
  let ?r = "fold cacheUpstream (bs_Upstreams b) (r\<lparr>cr_serviceCache := (cr_serviceCache r)(key \<mapsto> bs_Name b)\<rparr>)"
  have step: "cacheBalancer b r = (Inr (), ?r)" by (simp add: cacheBalancer_def key)
  from Cons.IH [of ?r] Cons.prems obtain r' where
    r': "each_a cacheBalancer bs ?r = (Inr (), r')"
    "\<And>k. cr_serviceCache r' k =
      (case find (\<lambda>b. keyByService (GetIpvsService (bs_LbService b)) = Inr k) (rev bs) of
         Some b \<Rightarrow> Some (bs_Name b) | None \<Rightarrow> cr_serviceCache ?r k)" by auto
  have "cr_serviceCache r' k =
      (case find (\<lambda>b. keyByService (GetIpvsService (bs_LbService b)) = Inr k) (rev (b # bs)) of
         Some b \<Rightarrow> Some (bs_Name b) | None \<Rightarrow> cr_serviceCache r k)" for k
    unfolding r'(2) by (auto simp: find_append key split: option.splits)
  with r'(1) step show ?case by auto
qed simp

lemma find_rev_name:
  assumes "b \<in> set bs" and "P b" and "\<And>a. a \<in> set bs \<Longrightarrow> P a \<Longrightarrow> f a = f b"
  shows "\<exists>a. find P (rev bs) = Some a \<and> f a = f b"
proof -
  obtain a where "find P (rev bs) = Some a" using assms(1,2) by (cases "find P (rev bs)") (auto simp: find_None_iff)
  with find_SomeD [OF this] assms(3) show ?thesis by auto
qed

lemma UpdateCache_names:
  assumes "cache_names_ok state"
  shows "\<exists>r'. UpdateCache (Some state) r = (Inr (), r') \<and>
    (\<forall>b\<in>set (dp_Balancers state). \<forall>svc. GetIpvsService (bs_LbService b) = Some svc \<longrightarrow>
       CacheResolver_ServiceLookup (Some svc) r' = (Inr (bs_Name b), r')) \<and>
    (\<forall>k. (\<forall>b\<in>set (dp_Balancers state). keyByService (GetIpvsService (bs_LbService b)) \<noteq> Inr k) \<longrightarrow>
       cr_serviceCache r' k = cr_serviceCache r k)"
proof -
  let ?key = "\<lambda>b. keyByService (GetIpvsService (bs_LbService b))"
  from assms cacheBalancers_service [of "dp_Balancers state" r] obtain r' where
    upd: "each_a cacheBalancer (dp_Balancers state) r = (Inr (), r')" and
    look: "\<And>k. cr_serviceCache r' k = (case find (\<lambda>b. ?key b = Inr k) (rev (dp_Balancers state)) of
      Some b \<Rightarrow> Some (bs_Name b) | None \<Rightarrow> cr_serviceCache r k)"
    by (auto simp: cache_names_ok_def)
  have "CacheResolver_ServiceLookup (Some svc) r' = (Inr (bs_Name b), r')"
    if b: "b \<in> set (dp_Balancers state)" "GetIpvsService (bs_LbService b) = Some svc" for b svc
  proof -
    from assms b obtain k where k: "?key b = Inr k" by (auto simp: cache_names_ok_def is_ok_iff)
    have same: "a \<in> set (dp_Balancers state) \<Longrightarrow> ?key a = Inr k \<Longrightarrow> bs_Name a = bs_Name b" for a
      using assms b(1) k unfolding cache_names_ok_def by metis
    from find_rev_name [OF b(1), of "\<lambda>b. ?key b = Inr k" bs_Name, OF k same]
    have "cr_serviceCache r' k = Some (bs_Name b)" by (auto simp: look)
    with k b(2) show ?thesis by (simp add: CacheResolver_ServiceLookup_def)
  qed
  moreover have "cr_serviceCache r' k = cr_serviceCache r k"
    if "\<forall>b\<in>set (dp_Balancers state). ?key b \<noteq> Inr k" for k
  proof -
    have "find (\<lambda>b. ?key b = Inr k) (rev (dp_Balancers state)) = None" using that by (auto simp: find_None_iff)
    then show ?thesis by (simp add: look)
  qed
  ultimately show ?thesis using upd by (auto simp: UpdateCache_def)
qed

end
