(* ===== verification/Mock_Modules.thy ===== *)
theory Mock_Modules
  imports Cache_Resolver "HOL-Library.List_Lexorder" "HOL-Library.Char_ord"
begin

section \<open>kglb/data\_plane: mock\_modules.go, mock\_modules\_with\_state.go; kglbd/bgp\_module.go\<close>

text \<open>
  The modules of the repository that keep their state in memory: the mocks the data plane is tested
  with and the BGP module of kglbd, which only remembers the routes. A mock is a record of optional
  functions behind the interface. The state of the stateful mocks is an explicit store. Their
  functions keep the quirks of the source: \<open>DeleteRealServerFunc\<close> shifts the slice it ranges over,
  and \<open>Init\<close> and \<open>ListPaths\<close> test for the wrong function.
\<close>

subsection \<open>mock\_modules.go\<close>

definition notImplErr :: "'a result" where
  "notImplErr = fail ''not implemented''"

text \<open>Calling a function value that is nil panics.\<close>

definition call_func :: "('s, 'a) act option \<Rightarrow> ('s, 'a) act" where
  "call_func f = (case f of Some g \<Rightarrow> g | None \<Rightarrow> lift_r nilDeref)"

record 's MockBgpModule =
  bg_InitFunc :: "(u32 \<Rightarrow> ('s, unit) act) option"
  bg_AdvertiseFunc :: "(BgpRouteAttributes option \<Rightarrow> ('s, unit) act) option"
  bg_WithdrawFunc :: "(BgpRouteAttributes option \<Rightarrow> ('s, unit) act) option"
  bg_ListPathsFunc :: "('s, BgpRouteAttributes option list) act option"
  bg_IsSessionEstablishedFunc :: "('s, bool) act option"

definition MockBgp_Init :: "'s MockBgpModule \<Rightarrow> u32 \<Rightarrow> ('s, unit) act" where
  "MockBgp_Init m asn =
     (if bg_AdvertiseFunc m = None then lift_r notImplErr else call_func (map_option (\<lambda>f. f asn) (bg_InitFunc m)))"

definition MockBgp_Advertise :: "'s MockBgpModule \<Rightarrow> BgpRouteAttributes option \<Rightarrow> ('s, unit) act" where
  "MockBgp_Advertise m bgpConfig = (case bg_AdvertiseFunc m of None \<Rightarrow> lift_r notImplErr | Some f \<Rightarrow> f bgpConfig)"

definition MockBgp_Withdraw :: "'s MockBgpModule \<Rightarrow> BgpRouteAttributes option \<Rightarrow> ('s, unit) act" where
  "MockBgp_Withdraw m bgpConfig = (case bg_WithdrawFunc m of None \<Rightarrow> lift_r notImplErr | Some f \<Rightarrow> f bgpConfig)"

definition MockBgp_ListPaths :: "'s MockBgpModule \<Rightarrow> ('s, BgpRouteAttributes option list) act" where
  "MockBgp_ListPaths m = (if bg_WithdrawFunc m = None then lift_r notImplErr else call_func (bg_ListPathsFunc m))"

definition MockBgp_IsSessionEstablished :: "'s MockBgpModule \<Rightarrow> ('s, bool) act" where
  "MockBgp_IsSessionEstablished m = (case bg_IsSessionEstablishedFunc m of None \<Rightarrow> lift_r notImplErr | Some f \<Rightarrow> f)"

definition mock_bgp :: "'s MockBgpModule \<Rightarrow> 's BgpModule" where
  "mock_bgp m = \<lparr>bm_Init = MockBgp_Init m, bm_Advertise = MockBgp_Advertise m, bm_Withdraw = MockBgp_Withdraw m,
     bm_ListPaths = MockBgp_ListPaths m, bm_IsSessionEstablished = MockBgp_IsSessionEstablished m\<rparr>"

record 's MockAddressTableModule =
  ad_AddFunc :: "(net_ip \<Rightarrow> string \<Rightarrow> ('s, unit) act) option"
  ad_DeleteFunc :: "(net_ip \<Rightarrow> string \<Rightarrow> ('s, unit) act) option"
  ad_IsExistsFunc :: "(net_ip \<Rightarrow> string \<Rightarrow> ('s, bool) act) option"
  ad_ListFunc :: "(string \<Rightarrow> ('s, net_ip list) act) option"

definition MockAddr_Add :: "'s MockAddressTableModule \<Rightarrow> net_ip \<Rightarrow> string \<Rightarrow> ('s, unit) act" where
  "MockAddr_Add m addr iface = (case ad_AddFunc m of None \<Rightarrow> lift_r notImplErr | Some f \<Rightarrow> f addr iface)"

definition MockAddr_Delete :: "'s MockAddressTableModule \<Rightarrow> net_ip \<Rightarrow> string \<Rightarrow> ('s, unit) act" where
  "MockAddr_Delete m addr iface = (case ad_DeleteFunc m of None \<Rightarrow> lift_r notImplErr | Some f \<Rightarrow> f addr iface)"

definition MockAddr_IsExists :: "'s MockAddressTableModule \<Rightarrow> net_ip \<Rightarrow> string \<Rightarrow> ('s, bool) act" where
  "MockAddr_IsExists m addr iface = (case ad_IsExistsFunc m of None \<Rightarrow> lift_r notImplErr | Some f \<Rightarrow> f addr iface)"

definition MockAddr_List :: "'s MockAddressTableModule \<Rightarrow> string \<Rightarrow> ('s, net_ip list) act" where
  "MockAddr_List m iface = (case ad_ListFunc m of None \<Rightarrow> lift_r notImplErr | Some f \<Rightarrow> f iface)"

definition mock_addresses :: "'s MockAddressTableModule \<Rightarrow> 's AddressTableModule" where
  "mock_addresses m = \<lparr>at_Add = MockAddr_Add m, at_Delete = MockAddr_Delete m, at_IsExists = MockAddr_IsExists m, at_List = MockAddr_List m\<rparr>"

record 's MockIpvsModule =
  ip_AddServiceFunc :: "(IpvsService \<Rightarrow> ('s, unit) act) option"
  ip_DeleteServiceFunc :: "(IpvsService \<Rightarrow> ('s, unit) act) option"
  ip_ListServicesFunc :: "('s, IpvsService list \<times> Stats list) act option"
  ip_AddRealServerFunc :: "(IpvsService \<Rightarrow> UpstreamState \<Rightarrow> ('s, unit) act) option"
  ip_DeleteRealServerFunc :: "(IpvsService \<Rightarrow> UpstreamState \<Rightarrow> ('s, unit) act) option"
  ip_UpdateRealServerFunc :: "(IpvsService \<Rightarrow> UpstreamState \<Rightarrow> ('s, unit) act) option"
  ip_GetRealServersFunc :: "(IpvsService \<Rightarrow> ('s, UpstreamState list \<times> Stats list) act) option"

definition MockIpvs_AddService :: "'s MockIpvsModule \<Rightarrow> IpvsService \<Rightarrow> ('s, unit) act" where
  "MockIpvs_AddService m service = (case ip_AddServiceFunc m of Some f \<Rightarrow> f service | None \<Rightarrow> lift_r notImplErr)"

definition MockIpvs_DeleteService :: "'s MockIpvsModule \<Rightarrow> IpvsService \<Rightarrow> ('s, unit) act" where
  "MockIpvs_DeleteService m service = (case ip_DeleteServiceFunc m of Some f \<Rightarrow> f service | None \<Rightarrow> lift_r notImplErr)"

definition MockIpvs_ListServices :: "'s MockIpvsModule \<Rightarrow> ('s, IpvsService list \<times> Stats list) act" where
  "MockIpvs_ListServices m = (case ip_ListServicesFunc m of Some f \<Rightarrow> f | None \<Rightarrow> lift_r notImplErr)"

definition MockIpvs_AddRealServers :: "'s MockIpvsModule \<Rightarrow> IpvsService \<Rightarrow> UpstreamState list \<Rightarrow> ('s, unit) act" where
  "MockIpvs_AddRealServers m service dsts =
     (case ip_AddRealServerFunc m of Some f \<Rightarrow> each_a (f service) dsts | None \<Rightarrow> lift_r notImplErr)"

definition MockIpvs_DeleteRealServers :: "'s MockIpvsModule \<Rightarrow> IpvsService \<Rightarrow> UpstreamState list \<Rightarrow> ('s, unit) act" where
  "MockIpvs_DeleteRealServers m service dsts =
     (case ip_DeleteRealServerFunc m of Some f \<Rightarrow> each_a (f service) dsts | None \<Rightarrow> lift_r notImplErr)"

definition MockIpvs_UpdateRealServers :: "'s MockIpvsModule \<Rightarrow> IpvsService \<Rightarrow> UpstreamState list \<Rightarrow> ('s, unit) act" where
  "MockIpvs_UpdateRealServers m service dsts =
     (case ip_UpdateRealServerFunc m of Some f \<Rightarrow> each_a (f service) dsts | None \<Rightarrow> lift_r notImplErr)"

definition MockIpvs_GetRealServers :: "'s MockIpvsModule \<Rightarrow> IpvsService \<Rightarrow> ('s, UpstreamState list \<times> Stats list) act" where
  "MockIpvs_GetRealServers m service = (case ip_GetRealServersFunc m of Some f \<Rightarrow> f service | None \<Rightarrow> lift_r notImplErr)"

definition mock_ipvs :: "'s MockIpvsModule \<Rightarrow> 's IpvsModule" where
  "mock_ipvs m = \<lparr>im_AddService = MockIpvs_AddService m, im_DeleteService = MockIpvs_DeleteService m,
     im_ListServices = MockIpvs_ListServices m, im_GetRealServers = MockIpvs_GetRealServers m,
     im_AddRealServers = MockIpvs_AddRealServers m, im_DeleteRealServers = MockIpvs_DeleteRealServers m,
     im_UpdateRealServers = MockIpvs_UpdateRealServers m\<rparr>"

subsection \<open>mock\_modules\_with\_state.go\<close>

definition NewEmptyBgpModuleWithState :: "'s MockBgpModule" where
  "NewEmptyBgpModuleWithState =
     \<lparr>bg_InitFunc = Some (\<lambda>asn. ret_a ()), bg_AdvertiseFunc = Some (\<lambda>bgpConfig. lift_r notImplErr),
      bg_WithdrawFunc = Some (\<lambda>bgpConfig. lift_r notImplErr), bg_ListPathsFunc = Some (ret_a []),
      bg_IsSessionEstablishedFunc = Some (ret_a True)\<rparr>"

text \<open>Removing the first element that satisfies a test, as \<open>append(s[:i], s[i+1:]...)\<close> does.\<close>

fun remove_first :: "('x \<Rightarrow> bool) \<Rightarrow> 'x list \<Rightarrow> 'x list option" where
  "remove_first P [] = None"
| "remove_first P (x # xs) = (if P x then Some xs else map_option (Cons x) (remove_first P xs))"

definition NewMockBgpModuleWithState :: "(IP option \<Rightarrow> string) \<Rightarrow> BgpRouteAttributes option list MockBgpModule" where
  "NewMockBgpModuleWithState ip_text =
     (let Equal = EqualFunc (BgpRoutingAttributesComparable ip_text) in
      \<lparr>bg_InitFunc = Some (\<lambda>asn. ret_a ()),
       bg_AdvertiseFunc = Some (\<lambda>bgpConfig st.
         if list_ex (\<lambda>cfg. Equal cfg bgpConfig) st then (fail ''Bgp route already advertised'', st)
         else (Inr (), st @ [bgpConfig])),
       bg_WithdrawFunc = Some (\<lambda>bgpConfig st.
         case remove_first (\<lambda>cfg. Equal cfg bgpConfig) st of
           Some st' \<Rightarrow> (Inr (), st')
         | None \<Rightarrow> (fail ''Bgp route not found'', st)),
       bg_ListPathsFunc = Some (gets_a (\<lambda>st. st)),
       bg_IsSessionEstablishedFunc = Some (ret_a True)\<rparr>)"

record mockIpvsData =
  mi_service :: IpvsService
  mi_reals :: "UpstreamState list"

text \<open>An operation on the service that \<open>findService\<close> returns, the first one that matches.\<close>

fun findService :: "IpvsService \<Rightarrow> mockIpvsData list \<Rightarrow> mockIpvsData option" where
  "findService service [] = None"
| "findService service (configuredService # Services) =
     (if IPVSServicesEqual (mi_service configuredService) service then Some configuredService
      else findService service Services)"

fun putReals :: "IpvsService \<Rightarrow> UpstreamState list \<Rightarrow> mockIpvsData list \<Rightarrow> mockIpvsData list" where
  "putReals service reals [] = []"
| "putReals service reals (configuredService # Services) =
     (if IPVSServicesEqual (mi_service configuredService) service then configuredService\<lparr>mi_reals := reals\<rparr> # Services
      else configuredService # putReals service reals Services)"

definition withService ::
  "IpvsService \<Rightarrow> (UpstreamState list, unit) act \<Rightarrow> (mockIpvsData list, unit) act" where
  "withService service f = (\<lambda>Services.
     case findService service Services of
       None \<Rightarrow> (fail ''no service'', Services)
     | Some cService \<Rightarrow> (case f (mi_reals cService) of (r, reals) \<Rightarrow> (r, putReals service reals Services)))"

text \<open>
  The loop of \<open>DeleteRealServerFunc\<close>: it ranges over the slice as it was, whose array the deletions
  shift; \<open>arr\<close> is that array, \<open>len\<close> the length of \<open>cService.reals\<close> and \<open>k\<close> the number of positions
  left. Slicing from a position behind the length panics.
\<close>

fun deleteLoop :: "UpstreamState \<Rightarrow> nat \<Rightarrow> nat \<Rightarrow> UpstreamState list \<Rightarrow> nat \<Rightarrow> unit result \<times> UpstreamState list" where
  "deleteLoop dst 0 i arr len = (Inr (), take len arr)"
| "deleteLoop dst (Suc k) i arr len =
     (if UpstreamsEqual (arr ! i) dst
      then if len < Suc i then (Inl (Panic ''slice bounds out of range''), take len arr)
           else deleteLoop dst k (Suc i) (take i arr @ drop (Suc i) (take len arr) @ drop (len - 1) arr) (len - 1)
      else deleteLoop dst k (Suc i) arr len)"

definition zeroStats :: Stats where
  "zeroStats = \<lparr>st_ConnectionsCount = 0, st_PacketsInCount = 0, st_PacketsOutCount = 0, st_BytesInCount = 0,
     st_BytesOutCount = 0, st_ConnectionsRate = 0, st_PacketsInRate = 0, st_PacketsOutRate = 0, st_BytesInRate = 0,
     st_BytesOutRate = 0, st_ActiveConnsCount = 0, st_InactConnsCount = 0, st_PersistConnsCount = 0\<rparr>"

definition NewMockIpvsModuleWithState :: "mockIpvsData list MockIpvsModule" where
  "NewMockIpvsModuleWithState =
     \<lparr>ip_AddServiceFunc = Some (\<lambda>service. modify_a (\<lambda>Services. Services @ [\<lparr>mi_service = service, mi_reals = []\<rparr>])),
      ip_DeleteServiceFunc = Some (\<lambda>service Services.
        case remove_first (\<lambda>configuredService. IPVSServicesEqual (mi_service configuredService) service) Services of
          Some Services' \<Rightarrow> (Inr (), Services')
        | None \<Rightarrow> (fail ''no service'', Services)),
      ip_ListServicesFunc = Some (gets_a (\<lambda>Services. (map mi_service Services, map (\<lambda>_. zeroStats) Services))),
      ip_AddRealServerFunc = Some (\<lambda>service dst. withService service (modify_a (\<lambda>reals. reals @ [dst]))),
      ip_DeleteRealServerFunc = Some (\<lambda>service dst.
        withService service (\<lambda>reals. deleteLoop dst (length reals) 0 reals (length reals))),
      ip_UpdateRealServerFunc = Some (\<lambda>service dst.
        withService service (modify_a (map (\<lambda>real. if UpstreamsEqual real dst then real\<lparr>us_Weight := us_Weight dst\<rparr> else real)))),
      ip_GetRealServersFunc = Some (\<lambda>service Services.
        case findService service Services of
          None \<Rightarrow> (fail ''no service'', Services)
        | Some cService \<Rightarrow> (Inr (mi_reals cService, map (\<lambda>_. zeroStats) (mi_reals cService)), Services))\<rparr>"

text \<open>\<open>ListFunc\<close> sorts the stored slice in place.\<close>

definition onIface ::
  "string \<Rightarrow> (net_ip list, 'a) act \<Rightarrow> (string \<rightharpoonup> net_ip list, 'a) act" where
  "onIface iface f = (\<lambda>addrMap.
     case addrMap iface of
       None \<Rightarrow> (fail ''wrong interface'', addrMap)
     | Some ifaceState \<Rightarrow> (case f ifaceState of (r, ifaceState') \<Rightarrow> (r, addrMap(iface \<mapsto> ifaceState'))))"

definition mockAddrMap :: "string \<rightharpoonup> net_ip list" where
  "mockAddrMap = [''lo'' \<mapsto> [ParseIP ''127.0.0.1'']]"

definition NewMockAddressTableWithState :: "(string \<rightharpoonup> net_ip list) MockAddressTableModule" where
  "NewMockAddressTableWithState =
     \<lparr>ad_AddFunc = Some (\<lambda>addr iface. onIface iface (modify_a (\<lambda>ifaceState. ifaceState @ [addr]))),
      ad_DeleteFunc = Some (\<lambda>addr iface. onIface iface (\<lambda>ifaceState.
        case remove_first (\<lambda>existentAddr. IP_Equal existentAddr addr) ifaceState of
          Some ifaceState' \<Rightarrow> (Inr (), ifaceState')
        | None \<Rightarrow> (fail ''address does not exist'', ifaceState))),
      ad_IsExistsFunc = Some (\<lambda>addr iface. onIface iface (gets_a (list_ex (\<lambda>existentAddr. IP_Equal existentAddr addr)))),
      ad_ListFunc = Some (\<lambda>iface. onIface iface (\<lambda>ifaceState.
        let sorted = sort_key IP_String ifaceState in (Inr sorted, sorted)))\<rparr>"

subsection \<open>kglbd/bgp\_module.go\<close>

definition NoOp_Init :: "u32 \<Rightarrow> (BgpRouteAttributes option list, unit) act" where
  "NoOp_Init asn = ret_a ()"

definition NoOp_Advertise :: "BgpRouteAttributes option \<Rightarrow> (BgpRouteAttributes option list, unit) act" where
  "NoOp_Advertise config = modify_a (\<lambda>st. st @ [config])"

definition NoOp_Withdraw ::
  "(IP option \<Rightarrow> string) \<Rightarrow> BgpRouteAttributes option \<Rightarrow> (BgpRouteAttributes option list, unit) act" where
  "NoOp_Withdraw ip_text config = modify_a (\<lambda>st.
     case remove_first (\<lambda>cfg. EqualFunc (BgpRoutingAttributesComparable ip_text) cfg config) st of
       Some st' \<Rightarrow> st' | None \<Rightarrow> st)"

definition NoOp_ListPaths :: "(BgpRouteAttributes option list, BgpRouteAttributes option list) act" where
  "NoOp_ListPaths = gets_a (\<lambda>st. st)"

definition NoOp_IsSessionEstablished :: "(BgpRouteAttributes option list, bool) act" where
  "NoOp_IsSessionEstablished = ret_a True"

definition NoOpBgpModule :: "(IP option \<Rightarrow> string) \<Rightarrow> BgpRouteAttributes option list BgpModule" where
  "NoOpBgpModule ip_text = \<lparr>bm_Init = NoOp_Init, bm_Advertise = NoOp_Advertise, bm_Withdraw = NoOp_Withdraw ip_text,
     bm_ListPaths = NoOp_ListPaths, bm_IsSessionEstablished = NoOp_IsSessionEstablished\<rparr>"

end
