(* ===== verification/Mock_World.thy ===== *)
theory Mock_World
  imports Mock_Modules Dp_Manager
begin

section \<open>The data plane over the modules that keep their state in memory\<close>

text \<open>
  The world behind the stateful modules, one field per module, and the proof that they keep the
  contract \<open>dp_modules\<close> the manager is verified against: the mock ipvs module, the mock address
  table, the cache resolver, and as BGP module either the mock or the one of kglbd.
\<close>

record mock_world =
  mw_Services :: "mockIpvsData list"
  mw_bgp :: "BgpRouteAttributes option list"
  mw_addrMap :: "string \<rightharpoonup> net_ip list"
  mw_resolver :: CacheResolver

definition new_mock_world :: mock_world where
  "new_mock_world = \<lparr>mw_Services = [], mw_bgp = [], mw_addrMap = mockAddrMap, mw_resolver = NewCacheResolver\<rparr>"

definition zoom_ipvs :: "('w \<Rightarrow> 's) \<Rightarrow> ('s \<Rightarrow> 'w \<Rightarrow> 'w) \<Rightarrow> 's IpvsModule \<Rightarrow> 'w IpvsModule" where
  "zoom_ipvs get put m =
     \<lparr>im_AddService = (\<lambda>s. zoom get put (im_AddService m s)), im_DeleteService = (\<lambda>s. zoom get put (im_DeleteService m s)),
      im_ListServices = zoom get put (im_ListServices m), im_GetRealServers = (\<lambda>s. zoom get put (im_GetRealServers m s)),
      im_AddRealServers = (\<lambda>s us. zoom get put (im_AddRealServers m s us)),
      im_DeleteRealServers = (\<lambda>s us. zoom get put (im_DeleteRealServers m s us)),
      im_UpdateRealServers = (\<lambda>s us. zoom get put (im_UpdateRealServers m s us))\<rparr>"

definition zoom_bgp :: "('w \<Rightarrow> 's) \<Rightarrow> ('s \<Rightarrow> 'w \<Rightarrow> 'w) \<Rightarrow> 's BgpModule \<Rightarrow> 'w BgpModule" where
  "zoom_bgp get put m =
     \<lparr>bm_Init = (\<lambda>asn. zoom get put (bm_Init m asn)), bm_Advertise = (\<lambda>r. zoom get put (bm_Advertise m r)),
      bm_Withdraw = (\<lambda>r. zoom get put (bm_Withdraw m r)), bm_ListPaths = zoom get put (bm_ListPaths m),
      bm_IsSessionEstablished = zoom get put (bm_IsSessionEstablished m)\<rparr>"

definition zoom_addresses :: "('w \<Rightarrow> 's) \<Rightarrow> ('s \<Rightarrow> 'w \<Rightarrow> 'w) \<Rightarrow> 's AddressTableModule \<Rightarrow> 'w AddressTableModule" where
  "zoom_addresses get put m =
     \<lparr>at_Add = (\<lambda>a i. zoom get put (at_Add m a i)), at_Delete = (\<lambda>a i. zoom get put (at_Delete m a i)),
      at_IsExists = (\<lambda>a i. zoom get put (at_IsExists m a i)), at_List = (\<lambda>i. zoom get put (at_List m i))\<rparr>"

definition cache_resolver :: "('w \<Rightarrow> CacheResolver) \<Rightarrow> (CacheResolver \<Rightarrow> 'w \<Rightarrow> 'w) \<Rightarrow> 'w ResolverModule" where
  "cache_resolver get put =
     \<lparr>rm_Lookup = (\<lambda>n. zoom get put (CacheResolver_Lookup n)), rm_ReverseLookup = (\<lambda>ip. zoom get put (CacheResolver_ReverseLookup ip)),
      rm_ServiceLookup = (\<lambda>s. zoom get put (CacheResolver_ServiceLookup s)), rm_Cluster = CacheResolver_Cluster,
      rm_UpdateCache = (\<lambda>st. zoom get put (UpdateCache st))\<rparr>"

definition mock_modules :: "BgpRouteAttributes option list BgpModule \<Rightarrow> mock_world ManagerModules" where
  "mock_modules bgp =
     \<lparr>mm_Bgp = zoom_bgp mw_bgp (\<lambda>x. mw_bgp_update (\<lambda>_. x)) bgp,
      mm_AddressTable = zoom_addresses mw_addrMap (\<lambda>x. mw_addrMap_update (\<lambda>_. x)) (mock_addresses NewMockAddressTableWithState),
      mm_Ipvs = zoom_ipvs mw_Services (\<lambda>x. mw_Services_update (\<lambda>_. x)) (mock_ipvs NewMockIpvsModuleWithState),
      mm_Resolver = cache_resolver mw_resolver (\<lambda>x. mw_resolver_update (\<lambda>_. x)),
      mm_ShutdownHandler = None\<rparr>"

definition mock_view :: "mock_world \<Rightarrow> dp_view" where
  "mock_view w =
     \<lparr>v_tbl = (\<lambda>s. map_option (\<lambda>d. mset (mi_reals d)) (findService s (mw_Services w))),
      v_paths = mset (mw_bgp w),
      v_addrs = (\<lambda>a i. case mw_addrMap w i of None \<Rightarrow> False | Some as \<Rightarrow> list_ex (\<lambda>x. IP_Equal x a) as),
      v_name = (\<lambda>s. projr (fst (CacheResolver_ServiceLookup (Some s) (mw_resolver w))))\<rparr>"

definition mock_ok :: "mock_world \<Rightarrow> bool" where
  "mock_ok w \<longleftrightarrow>
     distinct (map mi_service (mw_Services w)) \<and>
     (\<forall>d\<in>set (mw_Services w). wf_service (mi_service d) \<and> distinct (map upkey (mi_reals d))) \<and>
     (\<forall>i as. mw_addrMap w i = Some as \<longrightarrow> distinct (map norm_ip as)) \<and>
     mw_addrMap w ''lo'' \<noteq> None"

lemmas zoom_module_defs = mock_modules_def zoom_ipvs_def zoom_bgp_def zoom_addresses_def cache_resolver_def

lemmas mock_call_defs =
  mock_bgp_def mock_addresses_def mock_ipvs_def MockIpvs_AddService_def MockIpvs_DeleteService_def
  MockIpvs_ListServices_def MockIpvs_GetRealServers_def MockIpvs_AddRealServers_def MockIpvs_DeleteRealServers_def
  MockIpvs_UpdateRealServers_def MockAddr_Add_def MockAddr_Delete_def MockAddr_IsExists_def MockAddr_List_def
  MockBgp_Init_def MockBgp_Advertise_def MockBgp_Withdraw_def MockBgp_ListPaths_def MockBgp_IsSessionEstablished_def
  call_func_def NewMockIpvsModuleWithState_def NewMockAddressTableWithState_def NewMockBgpModuleWithState_def Let_def

subsection \<open>Services and real servers\<close>

lemma findService_Some: "findService s Ss = Some d \<Longrightarrow> d \<in> set Ss \<and> mi_service d = s"
  by (induction Ss) (auto simp: IPVSServicesEqual_def split: if_splits)

lemma findService_None: "findService s Ss = None \<longleftrightarrow> s \<notin> mi_service ` set Ss"
  by (induction Ss) (auto simp: IPVSServicesEqual_def)

lemma findService_mem: "distinct (map mi_service Ss) \<Longrightarrow> d \<in> set Ss \<Longrightarrow> findService (mi_service d) Ss = Some d"
  by (induction Ss) (auto simp: IPVSServicesEqual_def)

lemma findService_append: "findService s (Ss @ Ts) = (case findService s Ss of Some d \<Rightarrow> Some d | None \<Rightarrow> findService s Ts)"
  by (induction Ss) auto

lemma remove_first_None: "remove_first P xs = None \<longleftrightarrow> (\<forall>x\<in>set xs. \<not> P x)"
  by (induction xs) auto

lemma remove_first_Some:
  "remove_first P xs = Some ys \<Longrightarrow> \<exists>as x bs. xs = as @ x # bs \<and> P x \<and> (\<forall>a\<in>set as. \<not> P a) \<and> ys = as @ bs"
proof (induction xs arbitrary: ys)
  case (Cons x xs)
  show ?case
  proof (cases "P x")
    case True
    with Cons.prems have "x # xs = [] @ x # xs \<and> P x \<and> (\<forall>a\<in>set []. \<not> P a) \<and> ys = [] @ xs" by simp
    then show ?thesis by blast
  next
    case False
    with Cons.prems obtain zs where zs: "remove_first P xs = Some zs" "ys = x # zs" by auto
    from Cons.IH [OF zs(1)] obtain as y bs where
      "xs = as @ y # bs" "P y" "\<forall>a\<in>set as. \<not> P a" "zs = as @ bs" by blast
    with False zs(2) have "x # xs = (x # as) @ y # bs \<and> P y \<and> (\<forall>a\<in>set (x # as). \<not> P a) \<and> ys = (x # as) @ bs" by simp
    then show ?thesis by blast
  qed
qed simp

lemma putReals_service [simp]: "map mi_service (putReals s us Ss) = map mi_service Ss"
  by (induction Ss) auto

lemma findService_put:
  "findService t (putReals s us Ss) = (if t = s then map_option (\<lambda>d. d\<lparr>mi_reals := us\<rparr>) (findService s Ss) else findService t Ss)"
  by (induction Ss) (auto simp: IPVSServicesEqual_def)

lemma putReals_set: "d \<in> set (putReals s us Ss) \<Longrightarrow> d \<in> set Ss \<or> (\<exists>c\<in>set Ss. d = c\<lparr>mi_reals := us\<rparr>)"
  by (induction Ss) (auto split: if_splits)

lemma UpstreamsEqual_key: "UpstreamsEqual u d \<Longrightarrow> upkey u = upkey d"
proof -
  assume "UpstreamsEqual u d"
  then have "us_Address u = us_Address d" "us_Port u = us_Port d"
    by (cases u; cases d; simp add: UpstreamsEqual_def)+
  then show ?thesis by (simp add: UpstreamStateComparable_def)
qed

lemma UpstreamsEqual_refl [simp]: "UpstreamsEqual u u"
  by (simp add: UpstreamsEqual_def)

lemma same_but_weight_equal: "same_but_weight u d \<Longrightarrow> UpstreamsEqual u d"
proof -
  assume "same_but_weight u d"
  then have "d = u\<lparr>us_Weight := us_Weight d\<rparr>" by (simp add: same_but_weight_def)
  then obtain w where "d = u\<lparr>us_Weight := w\<rparr>" by blast
  then show ?thesis by (simp add: UpstreamsEqual_def)
qed

text \<open>When only one real server matches, the shifting loop removes exactly that one.\<close>

lemma deleteLoop_none:
  "(\<forall>j. i \<le> j \<and> j < i + k \<longrightarrow> \<not> UpstreamsEqual (arr ! j) dst) \<Longrightarrow> deleteLoop dst k i arr len = (Inr (), take len arr)"
  by (induction k arbitrary: i) auto

lemma deleteLoop_skip:
  "(\<forall>j. i \<le> j \<and> j < i + n \<longrightarrow> \<not> UpstreamsEqual (arr ! j) dst) \<Longrightarrow>
     deleteLoop dst (n + k) i arr len = deleteLoop dst k (i + n) arr len"
proof (induction n arbitrary: i)
  case (Suc n)
  then show ?case by (simp add: Suc.IH [of "Suc i"])
qed simp

lemma deleteLoop_one:
  assumes "UpstreamsEqual u dst" and "\<forall>x\<in>set as \<union> set bs. \<not> UpstreamsEqual x dst"
  shows "deleteLoop dst (length (as @ u # bs)) 0 (as @ u # bs) (length (as @ u # bs)) = (Inr (), as @ bs)"
proof -
  let ?arr = "as @ u # bs" and ?n = "length as"
  have pre: "\<forall>j. 0 \<le> j \<and> j < 0 + ?n \<longrightarrow> \<not> UpstreamsEqual (?arr ! j) dst" using assms(2) by (simp add: nth_append)
  have "deleteLoop dst (length ?arr) 0 ?arr (length ?arr) = deleteLoop dst (Suc (length bs)) ?n ?arr (length ?arr)"
    using deleteLoop_skip [OF pre, of "Suc (length bs)" "length ?arr"] by (simp del: deleteLoop.simps)
  also have "\<dots> = deleteLoop dst (length bs) (Suc ?n) (as @ bs @ drop (length (as @ bs)) ?arr) (length (as @ bs))"
    using assms(1) by simp
  also have "\<dots> = (Inr (), take (length (as @ bs)) (as @ bs @ drop (length (as @ bs)) ?arr))"
  proof (rule deleteLoop_none, intro allI impI)
    fix j assume j: "Suc ?n \<le> j \<and> j < Suc ?n + length bs"
    have "(as @ bs @ drop (length (as @ bs)) ?arr) ! j \<in> set bs"
    proof (cases "j < ?n + length bs")
      case True
      with j obtain d where "j = ?n + d" "d < length bs" by (metis Suc_leD add_less_imp_less_left le_Suc_ex)
      then show ?thesis by (simp add: nth_append)
    next
      case False
      with j have j': "j = ?n + length bs" and b: "bs \<noteq> []" by auto
      from b obtain cs c where bs: "bs = cs @ [c]" by (cases bs rule: rev_cases) auto
      show ?thesis unfolding j' bs by (simp add: nth_append)
    qed
    then show "\<not> UpstreamsEqual ((as @ bs @ drop (length (as @ bs)) ?arr) ! j) dst" using assms(2) by blast
  qed
  finally show ?thesis by (simp del: deleteLoop.simps)
qed

lemma putReals_same [simp]: "findService s Ss = Some d \<Longrightarrow> putReals s (mi_reals d) Ss = Ss"
  by (induction Ss) (auto split: if_splits)

lemma putReals_put [simp]: "putReals s us (putReals s vs Ss) = putReals s us Ss"
  by (induction Ss) auto

lemma each_withService:
  "findService s Ss = Some d \<Longrightarrow> each_a f xs (mi_reals d) = (Inr (), reals) \<Longrightarrow>
     each_a (\<lambda>x. withService s (f x)) xs Ss = (Inr (), putReals s reals Ss)"
proof (induction xs arbitrary: Ss d)
  case (Cons x xs)
  from Cons.prems(2) obtain r1 where r1: "f x (mi_reals d) = (Inr (), r1)" "each_a f xs r1 = (Inr (), reals)"
    by (auto simp: bind_a_ok)
  have step: "withService s (f x) Ss = (Inr (), putReals s r1 Ss)" using Cons.prems(1) r1(1) by (simp add: withService_def)
  have "findService s (putReals s r1 Ss) = Some (d\<lparr>mi_reals := r1\<rparr>)" using Cons.prems(1) by (simp add: findService_put)
  from Cons.IH [OF this] r1(2) show ?case using step by simp
qed auto

lemma each_append: "each_a (\<lambda>dst. modify_a (\<lambda>reals. reals @ [dst])) us reals = (Inr (), reals @ us)"
  by (induction us arbitrary: reals) simp_all

lemma each_delete:
  assumes "mset us \<subseteq># mset reals" and "distinct (map upkey reals)"
  shows "\<exists>reals'. each_a (\<lambda>dst reals. deleteLoop dst (length reals) 0 reals (length reals)) us reals = (Inr (), reals') \<and>
    mset reals' = mset reals - mset us"
  using assms
proof (induction us arbitrary: reals)
  case (Cons u us)
  from Cons.prems(1) have "u \<in> set reals" by (metis insert_subset_eq_iff mset.simps(2) set_mset_mset)
  then obtain as bs where reals: "reals = as @ u # bs" by (metis split_list)
  have keys: "upkey x \<noteq> upkey u" if "x \<in> set as \<union> set bs" for x
    using Cons.prems(2) that unfolding reals by (auto simp: rev_image_eqI)
  then have no: "\<forall>x\<in>set as \<union> set bs. \<not> UpstreamsEqual x u" using UpstreamsEqual_key by blast
  have "mset us \<subseteq># mset (as @ bs)" using Cons.prems(1) unfolding reals by simp
  moreover have "distinct (map upkey (as @ bs))" using Cons.prems(2) unfolding reals by auto
  ultimately obtain reals' where r': "each_a (\<lambda>dst reals. deleteLoop dst (length reals) 0 reals (length reals)) us (as @ bs) = (Inr (), reals')"
    "mset reals' = mset (as @ bs) - mset us" using Cons.IH by blast
  have "mset reals' = mset reals - mset (u # us)" using r'(2) unfolding reals by simp
  then show ?case using r'(1) deleteLoop_one [OF UpstreamsEqual_refl no] unfolding reals by auto
qed simp

lemma update_one:
  assumes "distinct (map upkey reals)" and "u \<in> set reals" and "same_but_weight u d"
  shows "map (\<lambda>real. if UpstreamsEqual real d then real\<lparr>us_Weight := us_Weight d\<rparr> else real) reals =
    map (\<lambda>real. if upkey real = upkey d then d else real) reals"
proof (rule map_cong [OF refl])
  fix r assume r: "r \<in> set reals"
  have ud: "UpstreamsEqual u d" "u\<lparr>us_Weight := us_Weight d\<rparr> = d" "upkey u = upkey d"
    using assms(3) same_but_weight_equal UpstreamsEqual_key by (auto simp: same_but_weight_def)
  show "(if UpstreamsEqual r d then r\<lparr>us_Weight := us_Weight d\<rparr> else r) = (if upkey r = upkey d then d else r)"
  proof (cases "upkey r = upkey d")
    case True
    then have "r = u" using assms(1,2) r ud(3) by (metis distinct_map inj_on_eq_iff)
    then show ?thesis using ud by simp
  next
    case False
    then show ?thesis using UpstreamsEqual_key by metis
  qed
qed

lemma each_update:
  assumes "distinct (map upkey reals)" and "distinct (map upkey us)" and "\<forall>d\<in>set us. \<exists>u\<in>set reals. same_but_weight u d"
  shows "each_a (\<lambda>dst. modify_a (map (\<lambda>real. if UpstreamsEqual real dst then real\<lparr>us_Weight := us_Weight dst\<rparr> else real))) us reals =
    (Inr (), map (replace_ups us) reals)"
  using assms
proof (induction us arbitrary: reals)
  case Nil
  then show ?case by (simp add: replace_ups_def)
next
  case (Cons d us)
  let ?upd = "\<lambda>real. if upkey real = upkey d then d else real"
  from Cons.prems(3) obtain u where u: "u \<in> set reals" "same_but_weight u d" by auto
  have keys: "map upkey (map ?upd reals) = map upkey reals" by simp
  have "\<exists>v\<in>set (map ?upd reals). same_but_weight v x" if x: "x \<in> set us" for x
  proof -
    from Cons.prems(3) x obtain v where v: "v \<in> set reals" "same_but_weight v x" by auto
    have "upkey v = upkey x" using v(2) same_but_weight_equal UpstreamsEqual_key by blast
    moreover have "upkey x \<noteq> upkey d" using Cons.prems(2) x by (auto simp: rev_image_eqI)
    ultimately show ?thesis using v by force
  qed
  moreover have "distinct (map upkey (map ?upd reals))" "distinct (map upkey us)" using Cons.prems(1,2) unfolding keys by simp_all
  ultimately have IH: "each_a (\<lambda>dst. modify_a (map (\<lambda>real. if UpstreamsEqual real dst then real\<lparr>us_Weight := us_Weight dst\<rparr> else real))) us (map ?upd reals) =
      (Inr (), map (replace_ups us) (map ?upd reals))" by (intro Cons.IH) auto
  have "replace_ups us (?upd r) = replace_ups (d # us) r" for r
  proof (cases "upkey d = upkey r")
    case True
    then have "find (\<lambda>x. upkey x = upkey d) us = None" using Cons.prems(2) by (auto simp: find_None_iff rev_image_eqI)
    with True show ?thesis by (simp add: replace_ups_def)
  next
    case False
    then show ?thesis by (simp add: replace_ups_def eq_commute [of "upkey r"])
  qed
  then have "map (replace_ups us) (map ?upd reals) = map (replace_ups (d # us)) reals" by simp
  with IH show ?case
    unfolding each_a.simps bind_a_Inr [OF modify_a_apply] update_one [OF Cons.prems(1) u] by simp
qed

subsection \<open>The contract of a BGP module that remembers the routes\<close>

locale bgp_store =
  fixes bgp :: "BgpRouteAttributes option list BgpModule"
    and ip_text :: "IP option \<Rightarrow> string"
  assumes store_list: "bm_ListPaths bgp st = (Inr st, st)"
    and store_init: "bm_Init bgp asn st = (Inr (), st)"
    and store_advertise: "\<forall>p\<in>set st. \<not> EqualFunc (BgpRoutingAttributesComparable ip_text) p route \<Longrightarrow>
      bm_Advertise bgp route st = (Inr (), st @ [route])"
    and store_withdraw: "remove_first (\<lambda>cfg. EqualFunc (BgpRoutingAttributesComparable ip_text) cfg route) st = Some st' \<Longrightarrow>
      bm_Withdraw bgp route st = (Inr (), st')"

interpretation noop_store: bgp_store "NoOpBgpModule ip_text" ip_text for ip_text
  by unfold_locales
     (simp_all add: NoOpBgpModule_def NoOp_Init_def NoOp_Advertise_def NoOp_Withdraw_def NoOp_ListPaths_def)

interpretation mock_store: bgp_store "mock_bgp (NewMockBgpModuleWithState ip_text)" ip_text for ip_text
  by unfold_locales (auto simp: mock_call_defs list_ex_iff)

subsection \<open>The modules keep the contract\<close>

lemma mock_reals:
  assumes "mock_ok w" and "v_tbl (mock_view w) s = Some U"
  obtains d where "findService s (mw_Services w) = Some d" "mset (mi_reals d) = U" "distinct (map upkey (mi_reals d))" "wf_service s"
proof -
  from assms(2) obtain d where d: "findService s (mw_Services w) = Some d" "mset (mi_reals d) = U" by (auto simp: mock_view_def)
  from findService_Some [OF d(1)] assms(1) have "distinct (map upkey (mi_reals d))" "wf_service s" by (auto simp: mock_ok_def)
  with d that show ?thesis by blast
qed

lemma put_view:
  assumes "findService s (mw_Services w) = Some d"
  shows "mock_view (w\<lparr>mw_Services := putReals s us (mw_Services w)\<rparr>) = (mock_view w)\<lparr>v_tbl := (v_tbl (mock_view w))(s \<mapsto> mset us)\<rparr>"
  using assms by (simp add: mock_view_def findService_put fun_eq_iff)

lemma put_ok:
  assumes "mock_ok w" and "distinct (map upkey us)"
  shows "mock_ok (w\<lparr>mw_Services := putReals s us (mw_Services w)\<rparr>)"
  using assms by (auto simp: mock_ok_def dest!: putReals_set)

lemma mock_AddRealServers:
  assumes "mock_ok w" and "v_tbl (mock_view w) s = Some U" and "distinct (map upkey us)" and "upkey ` set us \<inter> upkey ` set_mset U = {}"
  shows "\<exists>w'. im_AddRealServers (mm_Ipvs (mock_modules bgp)) s us w = (Inr (), w') \<and> mock_ok w' \<and>
    mock_view w' = (mock_view w)\<lparr>v_tbl := (v_tbl (mock_view w))(s \<mapsto> U + mset us)\<rparr>"
proof -
  from mock_reals [OF assms(1,2)] obtain d where d: "findService s (mw_Services w) = Some d" "mset (mi_reals d) = U"
    "distinct (map upkey (mi_reals d))" .
  have "set (mi_reals d) = set_mset U" using d(2) by (metis set_mset_mset)
  then have "distinct (map upkey (mi_reals d @ us))" using d(3) assms(3,4) by auto
  from put_ok [OF assms(1) this] put_view [OF d(1), of "mi_reals d @ us"] d(2)
    each_withService [OF d(1) each_append]
  show ?thesis by (simp add: zoom_module_defs mock_call_defs)
qed

lemma mock_DeleteRealServers:
  assumes "mock_ok w" and "v_tbl (mock_view w) s = Some U" and "mset us \<subseteq># U"
  shows "\<exists>w'. im_DeleteRealServers (mm_Ipvs (mock_modules bgp)) s us w = (Inr (), w') \<and> mock_ok w' \<and>
    mock_view w' = (mock_view w)\<lparr>v_tbl := (v_tbl (mock_view w))(s \<mapsto> U - mset us)\<rparr>"
proof -
  from mock_reals [OF assms(1,2)] obtain d where d: "findService s (mw_Services w) = Some d" "mset (mi_reals d) = U"
    "distinct (map upkey (mi_reals d))" .
  from each_delete [of us "mi_reals d"] assms(3) d(2,3) obtain reals where
    del: "each_a (\<lambda>dst reals. deleteLoop dst (length reals) 0 reals (length reals)) us (mi_reals d) = (Inr (), reals)" "mset reals = U - mset us"
    by auto
  have "mset (map upkey reals) \<subseteq># mset (map upkey (mi_reals d))"
    using del(2) d(2) by (metis diff_subset_eq_self image_mset_subseteq_mono mset_map)
  then have "distinct (map upkey reals)" using d(3) by (rule mset_sub_distinct)
  from put_ok [OF assms(1) this] put_view [OF d(1), of reals] del each_withService [OF d(1) del(1)]
  show ?thesis by (simp add: zoom_module_defs mock_call_defs)
qed

lemma mock_UpdateRealServers:
  assumes "mock_ok w" and "v_tbl (mock_view w) s = Some U" and "distinct (map upkey us)"
    and "\<forall>d\<in>set us. \<exists>u. u \<in># U \<and> same_but_weight u d"
  shows "\<exists>w'. im_UpdateRealServers (mm_Ipvs (mock_modules bgp)) s us w = (Inr (), w') \<and> mock_ok w' \<and>
    mock_view w' = (mock_view w)\<lparr>v_tbl := (v_tbl (mock_view w))(s \<mapsto> image_mset (replace_ups us) U)\<rparr>"
proof -
  from mock_reals [OF assms(1,2)] obtain d where d: "findService s (mw_Services w) = Some d" "mset (mi_reals d) = U"
    "distinct (map upkey (mi_reals d))" .
  have match: "\<forall>x\<in>set us. \<exists>u\<in>set (mi_reals d). same_but_weight u x" using assms(4) d(2) by (metis set_mset_mset)
  have "upkey (replace_ups us u) = upkey u" for u
    by (auto simp: replace_ups_def split: option.splits dest: find_SomeD)
  then have "map upkey (map (replace_ups us) (mi_reals d)) = map upkey (mi_reals d)" by simp
  then have "distinct (map upkey (map (replace_ups us) (mi_reals d)))" using d(3) by (simp only:)
  from put_ok [OF assms(1) this] put_view [OF d(1), of "map (replace_ups us) (mi_reals d)"] d(2)
    each_withService [OF d(1) each_update [OF d(3) assms(3) match]]
  show ?thesis by (simp add: zoom_module_defs mock_call_defs)
qed

lemma mock_AddService:
  assumes "mock_ok w" and "wf_service s" and "v_tbl (mock_view w) s = None"
  shows "\<exists>w'. im_AddService (mm_Ipvs (mock_modules bgp)) s w = (Inr (), w') \<and> mock_ok w' \<and>
    mock_view w' = (mock_view w)\<lparr>v_tbl := (v_tbl (mock_view w))(s \<mapsto> {#})\<rparr>"
proof -
  let ?w = "w\<lparr>mw_Services := mw_Services w @ [\<lparr>mi_service = s, mi_reals = []\<rparr>]\<rparr>"
  from assms(3) have fresh: "findService s (mw_Services w) = None" by (simp add: mock_view_def)
  have "mock_view ?w = (mock_view w)\<lparr>v_tbl := (v_tbl (mock_view w))(s \<mapsto> {#})\<rparr>"
    using fresh by (auto simp: mock_view_def findService_append IPVSServicesEqual_def fun_eq_iff split: option.splits)
  moreover have "mock_ok ?w" using assms(1,2) fresh by (auto simp: mock_ok_def findService_None)
  ultimately show ?thesis by (simp add: zoom_module_defs mock_call_defs)
qed

lemma mock_DeleteService:
  assumes "mock_ok w" and "v_tbl (mock_view w) s = Some U"
  shows "\<exists>w'. im_DeleteService (mm_Ipvs (mock_modules bgp)) s w = (Inr (), w') \<and> mock_ok w' \<and>
    mock_view w' = (mock_view w)\<lparr>v_tbl := (v_tbl (mock_view w))(s := None)\<rparr>"
proof -
  let ?P = "\<lambda>d. IPVSServicesEqual (mi_service d) s"
  from mock_reals [OF assms] obtain d where d: "findService s (mw_Services w) = Some d" .
  with findService_Some have "\<exists>d\<in>set (mw_Services w). ?P d" by (auto simp: IPVSServicesEqual_def)
  then obtain Ss where Ss: "remove_first ?P (mw_Services w) = Some Ss" by (cases "remove_first ?P (mw_Services w)") (auto simp: remove_first_None)
  from remove_first_Some [OF this] obtain as x bs where split: "mw_Services w = as @ x # bs" "mi_service x = s" "Ss = as @ bs"
    by (auto simp: IPVSServicesEqual_def)
  have uniq: "s \<notin> mi_service ` set (as @ bs)" using assms(1) split(1,2) by (auto simp: mock_ok_def)
  have "findService t Ss = (if t = s then None else findService t (mw_Services w))" for t
  proof (cases "t = s")
    case True
    then show ?thesis using uniq split(3) by (simp add: findService_None)
  next
    case False
    then show ?thesis unfolding split(1,3) findService_append using split(2) by (auto simp: IPVSServicesEqual_def split: option.splits)
  qed
  then have "mock_view (w\<lparr>mw_Services := Ss\<rparr>) = (mock_view w)\<lparr>v_tbl := (v_tbl (mock_view w))(s := None)\<rparr>"
    by (simp add: mock_view_def fun_eq_iff)
  moreover have "mock_ok (w\<lparr>mw_Services := Ss\<rparr>)" using assms(1) split by (auto simp: mock_ok_def)
  ultimately show ?thesis using Ss by (simp add: zoom_module_defs mock_call_defs)
qed

lemma mock_IsExists:
  assumes "mock_ok w" and "i \<in> {''lo''}"
  shows "at_IsExists (mm_AddressTable (mock_modules bgp)) a i w = (Inr (v_addrs (mock_view w) a i), w)"
proof -
  from assms obtain as where "mw_addrMap w ''lo'' = Some as" by (auto simp: mock_ok_def)
  with assms(2) show ?thesis
    by (simp add: zoom_module_defs mock_call_defs onIface_def mock_view_def fun_upd_idem)
qed

lemma mock_Add:
  assumes "mock_ok w" and "i \<in> {''lo''}" and "\<not> v_addrs (mock_view w) a i"
  shows "\<exists>w'. at_Add (mm_AddressTable (mock_modules bgp)) a i w = (Inr (), w') \<and> mock_ok w' \<and>
    mock_view w' = (mock_view w)\<lparr>v_addrs := (\<lambda>b j. v_addrs (mock_view w) b j \<or> (j = i \<and> IP_Equal a b))\<rparr>"
proof -
  from assms obtain as where as: "mw_addrMap w i = Some as" by (auto simp: mock_ok_def)
  let ?w = "w\<lparr>mw_addrMap := (mw_addrMap w)(i \<mapsto> as @ [a])\<rparr>"
  have "mock_view ?w = (mock_view w)\<lparr>v_addrs := (\<lambda>b j. v_addrs (mock_view w) b j \<or> (j = i \<and> IP_Equal a b))\<rparr>"
    using as by (auto simp: mock_view_def fun_eq_iff)
  moreover have "norm_ip a \<notin> norm_ip ` set as" using assms(3) as by (auto simp: mock_view_def list_ex_iff IP_Equal_norm)
  then have "mock_ok ?w" using assms(1) as by (auto simp: mock_ok_def)
  ultimately show ?thesis using as by (simp add: zoom_module_defs mock_call_defs onIface_def)
qed

lemma mock_Delete:
  assumes "mock_ok w" and "i \<in> {''lo''}" and "v_addrs (mock_view w) a i"
  shows "\<exists>w'. at_Delete (mm_AddressTable (mock_modules bgp)) a i w = (Inr (), w') \<and> mock_ok w' \<and>
    mock_view w' = (mock_view w)\<lparr>v_addrs := (\<lambda>b j. v_addrs (mock_view w) b j \<and> \<not> (j = i \<and> IP_Equal a b))\<rparr>"
proof -
  let ?P = "\<lambda>x. IP_Equal x a"
  from assms obtain as where as: "mw_addrMap w i = Some as" "list_ex ?P as" by (auto simp: mock_ok_def mock_view_def)
  then obtain as' where rm: "remove_first ?P as = Some as'" by (cases "remove_first ?P as") (auto simp: remove_first_None list_ex_iff)
  from remove_first_Some [OF rm] obtain xs x ys where split: "as = xs @ x # ys" "norm_ip x = norm_ip a" "as' = xs @ ys"
    by (auto simp: IP_Equal_norm)
  have d: "distinct (map norm_ip as)" using assms(1) as(1) by (auto simp: mock_ok_def)
  then have uniq: "norm_ip a \<notin> norm_ip ` set (xs @ ys)" using split(1,2) by auto
  let ?w = "w\<lparr>mw_addrMap := (mw_addrMap w)(i \<mapsto> as')\<rparr>"
  have "list_ex (\<lambda>x. IP_Equal x b) as' \<longleftrightarrow> list_ex (\<lambda>x. IP_Equal x b) as \<and> \<not> IP_Equal a b" for b
    using uniq split by (auto simp: list_ex_iff IP_Equal_norm image_iff ball_Un)
  then have "mock_view ?w = (mock_view w)\<lparr>v_addrs := (\<lambda>b j. v_addrs (mock_view w) b j \<and> \<not> (j = i \<and> IP_Equal a b))\<rparr>"
    using as(1) by (auto simp: mock_view_def fun_eq_iff)
  moreover have "mock_ok ?w" using assms(1) as(1) d split by (auto simp: mock_ok_def)
  ultimately show ?thesis using as(1) rm by (simp add: zoom_module_defs mock_call_defs onIface_def)
qed

lemma mock_ServiceLookup:
  assumes "wf_service s"
  shows "rm_ServiceLookup (mm_Resolver (mock_modules bgp)) (Some s) w = (Inr (v_name (mock_view w) s), w)"
proof -
  from keyByService_wf [OF assms] obtain k where "keyByService (Some s) = Inr k" by (auto simp: is_ok_iff)
  then show ?thesis
    by (simp add: zoom_module_defs mock_view_def CacheResolver_ServiceLookup_def split: option.splits)
qed

sublocale bgp_store \<subseteq> world: dp_modules "mock_modules bgp" ip_text mock_view mock_ok "{''lo''}" cache_names_ok
proof
  fix w :: mock_world and s U route p asn state
  note mock_simps = zoom_module_defs
  show "uniq upkey U" if "mock_ok w" "v_tbl (mock_view w) s = Some U"
    by (rule mock_reals [OF that]) (auto simp: uniq_def)
  show "v_addrs (mock_view w) a i = v_addrs (mock_view w) b i" if "IP_Equal a b" for a b i
    using that by (auto simp: mock_view_def IP_Equal_norm list_ex_iff split: option.splits)
  show "\<exists>ss st. im_ListServices (mm_Ipvs (mock_modules bgp)) w = (Inr (ss, st), w) \<and> distinct ss \<and>
      set ss = dom (v_tbl (mock_view w)) \<and> (\<forall>s\<in>set ss. wf_service s)" if "mock_ok w"
  proof -
    have "dom (v_tbl (mock_view w)) = mi_service ` set (mw_Services w)"
      by (simp add: mock_view_def dom_def findService_None)
    then show ?thesis using that by (auto simp: mock_simps mock_call_defs mock_ok_def)
  qed
  show "\<exists>us st. im_GetRealServers (mm_Ipvs (mock_modules bgp)) s w = (Inr (us, st), w) \<and> mset us = U"
    if "mock_ok w" "v_tbl (mock_view w) s = Some U"
    by (rule mock_reals [OF that]) (auto simp: mock_simps mock_call_defs zoom_def)
  show "\<exists>ps. bm_ListPaths (mm_Bgp (mock_modules bgp)) w = (Inr ps, w) \<and> mset ps = v_paths (mock_view w)"
    by (simp add: mock_simps store_list zoom_def mock_view_def)
  show "\<exists>w'. bm_Init (mm_Bgp (mock_modules bgp)) asn w = (Inr (), w') \<and> mock_ok w' \<and> mock_view w' = mock_view w" if "mock_ok w"
    using that by (simp add: mock_simps store_init zoom_def)
  show "\<exists>w'. bm_Advertise (mm_Bgp (mock_modules bgp)) route w = (Inr (), w') \<and> mock_ok w' \<and>
      mock_view w' = (mock_view w)\<lparr>v_paths := add_mset route (v_paths (mock_view w))\<rparr>"
    if "mock_ok w" "\<forall>p. p \<in># v_paths (mock_view w) \<longrightarrow> \<not> EqualFunc (BgpRoutingAttributesComparable ip_text) p route"
  proof -
    have "bm_Advertise bgp route (mw_bgp w) = (Inr (), mw_bgp w @ [route])"
      using that(2) by (intro store_advertise) (simp add: mock_view_def)
    then show ?thesis using that(1) by (simp add: mock_simps mock_ok_def mock_view_def)
  qed
  show "\<exists>q w'. bm_Withdraw (mm_Bgp (mock_modules bgp)) route w = (Inr (), w') \<and> mock_ok w' \<and> q \<in># v_paths (mock_view w) \<and>
      EqualFunc (BgpRoutingAttributesComparable ip_text) q route \<and> mock_view w' = (mock_view w)\<lparr>v_paths := v_paths (mock_view w) - {#q#}\<rparr>"
    if "mock_ok w" "p \<in># v_paths (mock_view w)" and eq: "EqualFunc (BgpRoutingAttributesComparable ip_text) p route"
  proof -
    let ?P = "\<lambda>cfg. EqualFunc (BgpRoutingAttributesComparable ip_text) cfg route"
    have "p \<in> set (mw_bgp w)" using that(2) by (simp add: mock_view_def)
    then obtain st where st: "remove_first ?P (mw_bgp w) = Some st"
      using eq by (cases "remove_first ?P (mw_bgp w)") (auto simp: remove_first_None)
    from remove_first_Some [OF st] obtain as q bs where split: "mw_bgp w = as @ q # bs" "?P q" "st = as @ bs" by blast
    have "mock_view (w\<lparr>mw_bgp := st\<rparr>) = (mock_view w)\<lparr>v_paths := v_paths (mock_view w) - {#q#}\<rparr>"
      by (simp add: mock_view_def split(1,3))
    moreover have "q \<in># v_paths (mock_view w)" by (simp add: mock_view_def split(1))
    moreover have "mock_ok (w\<lparr>mw_bgp := st\<rparr>)" using that(1) by (simp add: mock_ok_def)
    ultimately show ?thesis using store_withdraw [OF st] split(2) by (auto simp: mock_simps)
  qed
  show "\<exists>w'. rm_UpdateCache (mm_Resolver (mock_modules bgp)) (Some state) w = (Inr (), w') \<and> mock_ok w' \<and>
      v_paths (mock_view w') = v_paths (mock_view w) \<and> v_addrs (mock_view w') = v_addrs (mock_view w) \<and>
      v_tbl (mock_view w') = v_tbl (mock_view w) \<and> (\<forall>svc name. lb_named state svc name \<longrightarrow> v_name (mock_view w') svc = name)"
    if "mock_ok w" "cache_names_ok state"
  proof -
    from UpdateCache_names [OF that(2), of "mw_resolver w"] obtain r' where r': "UpdateCache (Some state) (mw_resolver w) = (Inr (), r')"
      "\<And>b svc. b \<in> set (dp_Balancers state) \<Longrightarrow> GetIpvsService (bs_LbService b) = Some svc \<Longrightarrow>
        CacheResolver_ServiceLookup (Some svc) r' = (Inr (bs_Name b), r')" by auto
    have "v_name (mock_view (w\<lparr>mw_resolver := r'\<rparr>)) svc = name" if "lb_named state svc name" for svc name
      using that r'(2) by (auto simp: lb_named_def mock_view_def)
    moreover have "mock_ok (w\<lparr>mw_resolver := r'\<rparr>)" using that(1) by (simp add: mock_ok_def)
    ultimately show ?thesis using r'(1) by (auto simp: mock_simps mock_view_def)
  qed
qed (rule mock_AddService mock_DeleteService mock_AddRealServers mock_DeleteRealServers mock_UpdateRealServers
    mock_IsExists mock_Add mock_Delete mock_ServiceLookup, assumption+)+

end
