(* ===== verification/Dp_SetState.thy ===== *)
theory Dp_SetState
  imports Dp_Converge Dp_Plans Mock_World
begin

section \<open>SetState reaches the wanted state\<close>

text \<open>
  For modules that keep the contract, \<open>SetState\<close> succeeds, leaves the world in the wanted state, and
  the state read back through the modules does not differ from the wanted one. \<open>dp_ready\<close> is the
  invariant of the manager, \<open>dp_wanted\<close> what is required of a wanted state.
\<close>

subsection \<open>Definitions\<close>

definition dp_inv :: "(IP option \<Rightarrow> string) \<Rightarrow> string set \<Rightarrow> (LinkAddress \<Rightarrow> 'l) \<Rightarrow> 'l DpManager \<Rightarrow> dp_view \<Rightarrow> bool" where
  "dp_inv ip_text ifaces link_text m v \<longleftrightarrow>
     am_inv link_text (dm_addressManager m) \<and> (\<forall>la\<in>tracked (dm_addressManager m). la_LinkName la \<in> ifaces) \<and>
     None \<notin># v_paths v \<and> uniq (rkey ip_text) (v_paths v)"

definition dp_ready :: "(IP option \<Rightarrow> string) \<Rightarrow> string set \<Rightarrow> (LinkAddress \<Rightarrow> 'l) \<Rightarrow> 'l DpManager \<Rightarrow> dp_view \<Rightarrow> bool" where
  "dp_ready ip_text ifaces link_text m v \<longleftrightarrow> \<not> dm_shutdownOnce m \<and> dp_inv ip_text ifaces link_text m v"

lemma dp_readyD: "dp_ready ip_text ifaces link_text m v \<Longrightarrow> dp_inv ip_text ifaces link_text m v"
  by (simp add: dp_ready_def)

text \<open>
  Balancers are well-formed and only ask for other weights of the upstreams they share with the
  current table, routes are BGP routes whose keys tell them apart, and so do the keys of the links.
\<close>

definition wanted_balancers :: "(IpvsService \<rightharpoonup> UpstreamState multiset) \<Rightarrow> BalancerState list \<Rightarrow> bool" where
  "wanted_balancers T ws \<longleftrightarrow> (\<forall>b\<in>set ws. wf_balancer b \<and>
     (\<forall>s U. lb_is s b \<longrightarrow> T s = Some U \<longrightarrow>
       (\<forall>x\<in>set_mset U. \<forall>y\<in>set (bs_Upstreams b). upkey x = upkey y \<longrightarrow> same_but_weight x y)))"

definition wanted_routes :: "(IP option \<Rightarrow> string) \<Rightarrow> BgpRouteAttributes option set \<Rightarrow> DynamicRoute list \<Rightarrow> bool" where
  "wanted_routes ip_text P ws \<longleftrightarrow> (\<forall>w\<in>set ws. has_bgp w \<and>
     (\<forall>p\<in>P \<union> GetBgpAttributes ` set ws. rkey ip_text p = rkey ip_text (GetBgpAttributes w) \<longrightarrow> rEqual ip_text p (GetBgpAttributes w)))"

definition wanted_links :: "string set \<Rightarrow> LinkAddress set \<Rightarrow> LinkAddress list \<Rightarrow> bool" where
  "wanted_links ifaces A ws \<longleftrightarrow> (\<forall>la\<in>set ws. la_LinkName la \<in> ifaces) \<and> inj_on lkey (A \<union> set ws)"

definition dp_wanted :: "(IP option \<Rightarrow> string) \<Rightarrow> string set \<Rightarrow> 'l DpManager \<Rightarrow> dp_view \<Rightarrow> DataPlaneState \<Rightarrow> bool" where
  "dp_wanted ip_text ifaces m v state \<longleftrightarrow>
     wanted_balancers (v_tbl v) (dp_Balancers state) \<and>
     wanted_routes ip_text (set_mset (v_paths v)) (dp_DynamicRoutes state) \<and>
     wanted_links ifaces (tracked (dm_addressManager m)) (dp_LinkAddresses state)"

definition has_addr :: "dp_view \<Rightarrow> LinkAddress \<Rightarrow> bool" where
  "has_addr v la \<longleftrightarrow> v_addrs v (link_ip la) (la_LinkName la)"

definition dp_reached :: "(IP option \<Rightarrow> string) \<Rightarrow> (LoadBalancerService option \<Rightarrow> 'k) \<Rightarrow> 'l DpManager \<Rightarrow> dp_view \<Rightarrow> DataPlaneState \<Rightarrow> bool" where
  "dp_reached ip_text lb_text m v state \<longleftrightarrow>
     v_tbl v = wanted_tbl lb_text (dp_Balancers state) \<and>
     rkey ip_text ` set_mset (v_paths v) = rkey ip_text ` GetBgpAttributes ` set (dp_DynamicRoutes state) \<and>
     {la \<in> tracked (dm_addressManager m). has_addr v la} = set (dp_LinkAddresses state)"

subsection \<open>Reading the state\<close>

context dp_modules
begin

lemma getState_ok:
  assumes "env_ok e" and "e_ip_text e = ip_text" and "ok w" and "dp_inv ip_text ifaces (e_link_text e) m (abs w)"
  obtains cur where "getStateNonThreadSafe M e (m, w) = (Inr cur, (m, w))"
    and "\<And>ws. \<forall>b\<in>set ws. wf_balancer b \<Longrightarrow> balancer_plan (e_lb_text e) (e_balancers e) (dp_Balancers cur) ws (v_tbl (abs w))"
    and "\<And>b s. b \<in> set (dp_Balancers cur) \<Longrightarrow> lb_is s b \<Longrightarrow> bs_Name b = v_name (abs w) s"
    and "\<And>ws. \<forall>r\<in>set ws. has_bgp r \<Longrightarrow> route_plan ip_text (e_routes e) (dp_DynamicRoutes cur) ws (v_paths (abs w))"
    and "set (dp_LinkAddresses cur) = {la \<in> tracked (dm_addressManager m). has_addr (abs w) la}"
proof -
  have env: "inj (e_lb_text e)" "go_range (e_balancers e)" "go_range (e_routes e)" "go_range (e_addrs e)"
    using assms(1) by (simp_all add: env_ok_def)
  have ready: "None \<notin># v_paths (abs w)" "uniq (rkey ip_text) (v_paths (abs w))" "\<forall>la\<in>tracked (dm_addressManager m). la_LinkName la \<in> ifaces"
    using assms(4) by (simp_all add: dp_inv_def)
  from GetBalancers_ok [OF assms(3)] obtain bs where bs: "GetBalancers M w = (Inr bs, w)" "\<forall>b\<in>set bs. wf_balancer b" "distinct (map bs_LbService bs)"
    "\<forall>b\<in>set bs. \<forall>s. lb_is s b \<longrightarrow> bs_Name b = v_name (abs w) s"
    "\<forall>s U. v_tbl (abs w) s = Some U \<longleftrightarrow> (\<exists>b\<in>set bs. lb_is s b \<and> mset (bs_Upstreams b) = U)" by blast
  from ListRoutes_ok [OF assms(3) ready(1), of "dm_dynRoutingMng m"] obtain rs where
    rs: "ListRoutes (mm_Bgp M) ip_text (dm_dynRoutingMng m, w) = (Inr rs, (dm_dynRoutingMng m, w))" "\<forall>r\<in>set rs. has_bgp r"
    "image_mset route_key (mset rs) = image_mset (rkey ip_text) (v_paths (abs w))"
    "\<forall>r\<in>set rs. \<exists>p. p \<in># v_paths (abs w) \<and> rEqual ip_text p (GetBgpAttributes r)" by blast
  from AddressManager_State_ok [OF assms(3) env(4) ready(3)] obtain ls where
    ls: "AddressManager_State (mm_AddressTable M) (e_addrs e) (dm_addressManager m, w) = (Inr ls, (dm_addressManager m, w))"
    "set ls = {la \<in> tracked (dm_addressManager m). has_link w la}" by blast
  let ?cur = "\<lparr>dp_Balancers = bs, dp_DynamicRoutes = rs, dp_LinkAddresses = ls\<rparr>"
  have "getStateNonThreadSafe M e (m, w) = (Inr ?cur, (m, w))"
    using bs(1) rs(1) ls(1) assms(2) by (simp add: getStateNonThreadSafe_def)
  moreover have "balancer_plan (e_lb_text e) (e_balancers e) (dp_Balancers ?cur) ws (v_tbl (abs w))" if "\<forall>b\<in>set ws. wf_balancer b" for ws
    using env(1,2) bs(2,3,5) that by (simp add: balancer_plan_def)
  moreover have "route_plan ip_text (e_routes e) (dp_DynamicRoutes ?cur) ws (v_paths (abs w))" if "\<forall>r\<in>set ws. has_bgp r" for ws
    using env(3) ready(2) rs that by (simp add: route_plan_def)
  moreover have "bs_Name b = v_name (abs w) s" if "b \<in> set (dp_Balancers ?cur)" "lb_is s b" for b s using bs(4) that by simp
  moreover have "set (dp_LinkAddresses ?cur) = {la \<in> tracked (dm_addressManager m). has_addr (abs w) la}" using ls(2) by (simp add: has_addr_def)
  ultimately show thesis using that by blast
qed

lemma route_phase_delete:
  assumes "ok w" and "e_ip_text e = ip_text" and plan: "route_plan ip_text (e_routes e) rs ws (v_paths (abs w))"
  shows "\<exists>d w' P. withdrawPhase M e (CompareDynamicRouting ip_text (e_routes e) rs ws) (m, w) = (Inr (), (m\<lparr>dm_dynRoutingMng := d\<rparr>, w')) \<and>
    ok w' \<and> P \<subseteq># v_paths (abs w) \<and> abs w' = (abs w)\<lparr>v_paths := P\<rparr> \<and>
    dr_slept d = dr_slept (dm_dynRoutingMng m) + max_hold (Deleted (CompareDynamicRouting ip_text (e_routes e) rs ws)) \<and>
    image_mset (rkey ip_text) P = image_mset (rkey ip_text) (v_paths (abs w)) -
      mset (map route_key (Deleted (CompareDynamicRouting ip_text (e_routes e) rs ws)))"
proof -
  let ?D = "Deleted (CompareDynamicRouting ip_text (e_routes e) rs ws)"
  have "\<forall>r\<in>set ?D. has_bgp r" "\<forall>r\<in>set ?D. \<exists>p. p \<in># v_paths (abs w) \<and> rEqual ip_text p (GetBgpAttributes r)"
    using route_planD(4,5) [OF plan] by (auto simp: route_deleted(1) [OF plan])
  from WithdrawRoutes_ok [OF assms(1) this(1) route_deleted(2) [OF plan] this(2), of "dm_dynRoutingMng m"]
  show ?thesis unfolding phases_unguarded assms(2) by fastforce
qed

lemma route_phase_add:
  assumes "ok w" and "e_ip_text e = ip_text" and plan: "route_plan ip_text (e_routes e) rs ws P" and "v_paths (abs w) \<subseteq># P"
  shows "\<exists>d w'. advertisePhase M e (CompareDynamicRouting ip_text (e_routes e) rs ws) (m, w) = (Inr (), (m\<lparr>dm_dynRoutingMng := d\<rparr>, w')) \<and>
    ok w' \<and> dr_slept d = dr_slept (dm_dynRoutingMng m) \<and>
    abs w' = (abs w)\<lparr>v_paths := v_paths (abs w) + mset (map GetBgpAttributes (Added (CompareDynamicRouting ip_text (e_routes e) rs ws)))\<rparr>"
proof -
  let ?A = "Added (CompareDynamicRouting ip_text (e_routes e) rs ws)"
  have "\<forall>r\<in>set ?A. has_bgp r" using route_added(1) [OF plan] route_planD(6) [OF plan] by blast
  moreover have "\<forall>r\<in>set ?A. route_key r \<notin> rkey ip_text ` set_mset (v_paths (abs w))"
    using route_added(1) [OF plan] set_mset_mono [OF assms(4)] by blast
  ultimately obtain d w' where "AdvertiseRoutes (mm_Bgp M) ip_text ?A (dm_dynRoutingMng m, w) = (Inr (), (d, w'))" "ok w'"
    "dr_slept d = dr_slept (dm_dynRoutingMng m)" "abs w' = (abs w)\<lparr>v_paths := v_paths (abs w) + mset (map GetBgpAttributes ?A)\<rparr>"
    using AdvertiseRoutes_ok [OF assms(1) _ route_added(3) [OF plan]] by blast
  then show ?thesis unfolding phases_unguarded assms(2) by auto
qed

lemma address_phases:
  assumes "ok w" and "am_inv (e_link_text e) (dm_addressManager m)" and "\<forall>la\<in>set (Added ld) \<union> set (Deleted ld). la_LinkName la \<in> ifaces"
  shows "\<exists>a w'. addAddressesPhase M e ld (m, w) = (Inr (), (m\<lparr>dm_addressManager := a\<rparr>, w')) \<and> ok w' \<and> am_inv (e_link_text e) a \<and>
      tracked a = set (Added ld) \<union> tracked (dm_addressManager m) \<and>
      abs w' = (abs w)\<lparr>v_addrs := (\<lambda>b j. v_addrs (abs w) b j \<or> on_links (set (Added ld)) b j)\<rparr>"
    and "\<exists>a w'. deleteAddressesPhase M e ld (m, w) = (Inr (), (m\<lparr>dm_addressManager := a\<rparr>, w')) \<and> ok w' \<and> am_inv (e_link_text e) a \<and>
      tracked a = tracked (dm_addressManager m) - set (Deleted ld) \<and>
      abs w' = (abs w)\<lparr>v_addrs := (\<lambda>b j. v_addrs (abs w) b j \<and> \<not> on_links (set (Deleted ld)) b j)\<rparr>"
proof -
  from AddAddresses_ok [OF assms(1,2), of "Added ld"] assms(3)
  show "\<exists>a w'. addAddressesPhase M e ld (m, w) = (Inr (), (m\<lparr>dm_addressManager := a\<rparr>, w')) \<and> ok w' \<and> am_inv (e_link_text e) a \<and>
      tracked a = set (Added ld) \<union> tracked (dm_addressManager m) \<and>
      abs w' = (abs w)\<lparr>v_addrs := (\<lambda>b j. v_addrs (abs w) b j \<or> on_links (set (Added ld)) b j)\<rparr>"
    unfolding phases_unguarded on_links_def by fastforce
  from DeleteAddresses_ok [OF assms(1,2), of "Deleted ld"] assms(3)
  show "\<exists>a w'. deleteAddressesPhase M e ld (m, w) = (Inr (), (m\<lparr>dm_addressManager := a\<rparr>, w')) \<and> ok w' \<and> am_inv (e_link_text e) a \<and>
      tracked a = tracked (dm_addressManager m) - set (Deleted ld) \<and>
      abs w' = (abs w)\<lparr>v_addrs := (\<lambda>b j. v_addrs (abs w) b j \<and> \<not> on_links (set (Deleted ld)) b j)\<rparr>"
    unfolding phases_unguarded on_links_def by fastforce
qed

text \<open>The seven phases run one after the other.\<close>

lemma applyDiff_run:
  assumes env: "env_ok e" "e_ip_text e = ip_text" and ok: "ok w" and am: "am_inv (e_link_text e) (dm_addressManager m)"
    and wanted: "wanted_balancers (v_tbl (abs w)) (dp_Balancers state)"
    and bp: "balancer_plan (e_lb_text e) (e_balancers e) (dp_Balancers cur) (dp_Balancers state) (v_tbl (abs w))"
    and rp: "route_plan ip_text (e_routes e) (dp_DynamicRoutes cur) (dp_DynamicRoutes state) (v_paths (abs w))"
  defines "bd \<equiv> CompareBalancerState (e_lb_text e) (e_balancers e) (dp_Balancers cur) (dp_Balancers state)"
    and "rd \<equiv> CompareDynamicRouting ip_text (e_routes e) (dp_DynamicRoutes cur) (dp_DynamicRoutes state)"
    and "ld \<equiv> CompareLocalLinkAddresses (e_links e) (dp_LinkAddresses cur) (dp_LinkAddresses state)"
  assumes ld_if: "\<forall>la\<in>set (Added ld) \<union> set (Deleted ld). la_LinkName la \<in> ifaces"
  shows "\<exists>d a w' P. applyDiff M e cur state (m, w) = (Inr (), (m\<lparr>dm_dynRoutingMng := d, dm_addressManager := a\<rparr>, w')) \<and> ok w' \<and>
    abs w' = \<lparr>v_tbl = drop_all (Deleted bd) (put_all (map NewItem (Changed bd)) (put_all (Added bd) (v_tbl (abs w)))),
      v_paths = P + mset (map GetBgpAttributes (Added rd)),
      v_addrs = (\<lambda>b j. (v_addrs (abs w) b j \<or> on_links (set (Added ld)) b j) \<and> \<not> on_links (set (Deleted ld)) b j),
      v_name = v_name (abs w)\<rparr> \<and>
    P \<subseteq># v_paths (abs w) \<and> image_mset (rkey ip_text) P = image_mset (rkey ip_text) (v_paths (abs w)) - mset (map route_key (Deleted rd)) \<and>
    am_inv (e_link_text e) a \<and> tracked a = (set (Added ld) \<union> tracked (dm_addressManager m)) - set (Deleted ld) \<and>
    dr_slept d = dr_slept (dm_dynRoutingMng m) + max_hold (Deleted rd)"
proof -
  have ups: "\<forall>b. go_range (e_upstreams e b)" using env(1) by (simp add: env_ok_def)
  from route_phase_delete [OF ok env(2) rp, of m, folded rd_def] obtain d1 w1 P where
    p1: "withdrawPhase M e rd (m, w) = (Inr (), (m\<lparr>dm_dynRoutingMng := d1\<rparr>, w1))" "ok w1" "P \<subseteq># v_paths (abs w)" "abs w1 = (abs w)\<lparr>v_paths := P\<rparr>"
    "dr_slept d1 = dr_slept (dm_dynRoutingMng m) + max_hold (Deleted rd)"
    "image_mset (rkey ip_text) P = image_mset (rkey ip_text) (v_paths (abs w)) - mset (map route_key (Deleted rd))" by blast
  let ?m1 = "m\<lparr>dm_dynRoutingMng := d1\<rparr>"
  from AddBalancers_ok [OF p1(2) plan_can_add(1) [OF bp, folded bd_def] plan_distinct(1) [OF bp, folded bd_def]] plan_can_add(2) [OF bp, folded bd_def] p1(4) obtain w2 where
    p2: "addBalancersPhase M bd (?m1, w1) = (Inr (), (?m1, w2))" "ok w2" "abs w2 = (abs w1)\<lparr>v_tbl := put_all (Added bd) (v_tbl (abs w))\<rparr>"
    unfolding phases_unguarded by fastforce
  from address_phases(1) [OF p2(2), of e ?m1 ld] am ld_if obtain a1 w3 where
    p3: "addAddressesPhase M e ld (?m1, w2) = (Inr (), (?m1\<lparr>dm_addressManager := a1\<rparr>, w3))" "ok w3" "am_inv (e_link_text e) a1"
    "tracked a1 = set (Added ld) \<union> tracked (dm_addressManager m)" "abs w3 = (abs w2)\<lparr>v_addrs := (\<lambda>b j. v_addrs (abs w2) b j \<or> on_links (set (Added ld)) b j)\<rparr>" by auto
  let ?m3 = "?m1\<lparr>dm_addressManager := a1\<rparr>"
  have "\<And>b s U x y. b \<in> set (dp_Balancers state) \<Longrightarrow> lb_is s b \<Longrightarrow> v_tbl (abs w) s = Some U \<Longrightarrow> x \<in># U \<Longrightarrow> y \<in> set (bs_Upstreams b) \<Longrightarrow>
      upkey x = upkey y \<Longrightarrow> same_but_weight x y"
    using wanted unfolding wanted_balancers_def by blast
  from updateBalancersPhase_ok [OF ups p3(2) plan_distinct(3) [OF bp, folded bd_def], of ?m3] plan_can_update [OF bp this, folded bd_def] p1(4) p2(3) p3(5) obtain w4 where
    p4: "updateBalancersPhase M e bd (?m3, w3) = (Inr (), (?m3, w4))" "ok w4"
    "abs w4 = (abs w3)\<lparr>v_tbl := put_all (map NewItem (Changed bd)) (put_all (Added bd) (v_tbl (abs w)))\<rparr>"
    unfolding updateBalancersPhase_def by auto
  have "v_paths (abs w4) \<subseteq># v_paths (abs w)" using p1(3,4) p2(3) p3(5) p4(3) by simp
  from route_phase_add [OF p4(2) env(2) rp this, of ?m3, folded rd_def] obtain d2 w5 where
    p5: "advertisePhase M e rd (?m3, w4) = (Inr (), (?m3\<lparr>dm_dynRoutingMng := d2\<rparr>, w5))" "ok w5" "dr_slept d2 = dr_slept d1"
    "abs w5 = (abs w4)\<lparr>v_paths := v_paths (abs w4) + mset (map GetBgpAttributes (Added rd))\<rparr>" by auto
  let ?m5 = "?m3\<lparr>dm_dynRoutingMng := d2\<rparr>"
  have "\<forall>b\<in>set (Deleted bd). \<exists>s U. lb_is s b \<and> v_tbl (abs w5) s = Some U"
    using plan_can_delete [OF bp, folded bd_def] p4(3) p5(4) by simp
  from DeleteBalancers_ok [OF p5(2) this plan_distinct(2) [OF bp, folded bd_def]] obtain w6 where
    p6: "deleteBalancersPhase M bd (?m5, w5) = (Inr (), (?m5, w6))" "ok w6" "abs w6 = (abs w5)\<lparr>v_tbl := drop_all (Deleted bd) (v_tbl (abs w5))\<rparr>"
    unfolding phases_unguarded by fastforce
  from address_phases(2) [OF p6(2), of e ?m5 ld] p3(3) ld_if obtain a2 w7 where
    p7: "deleteAddressesPhase M e ld (?m5, w6) = (Inr (), (?m5\<lparr>dm_addressManager := a2\<rparr>, w7))" "ok w7" "am_inv (e_link_text e) a2"
    "tracked a2 = tracked a1 - set (Deleted ld)" "abs w7 = (abs w6)\<lparr>v_addrs := (\<lambda>b j. v_addrs (abs w6) b j \<and> \<not> on_links (set (Deleted ld)) b j)\<rparr>" by auto
  let ?m7 = "?m5\<lparr>dm_addressManager := a2\<rparr>"
  have run: "applyDiff M e cur state (m, w) = (Inr (), (?m7, w7))"
    unfolding applyDiff_phases env(2) bd_def [symmetric] rd_def [symmetric] ld_def [symmetric] using p1(1) p2(1) p3(1) p4(1) p5(1) p6(1) p7(1) by simp
  have "abs w7 = \<lparr>v_tbl = drop_all (Deleted bd) (put_all (map NewItem (Changed bd)) (put_all (Added bd) (v_tbl (abs w)))),
      v_paths = P + mset (map GetBgpAttributes (Added rd)),
      v_addrs = (\<lambda>b j. (v_addrs (abs w) b j \<or> on_links (set (Added ld)) b j) \<and> \<not> on_links (set (Deleted ld)) b j),
      v_name = v_name (abs w)\<rparr>"
    using p7(5) p6(3) p5(4) p4(3) p3(5) p2(3) p1(4) by simp
  moreover have "?m7 = m\<lparr>dm_dynRoutingMng := d2, dm_addressManager := a2\<rparr>" by simp
  ultimately show ?thesis using run p7(2-4) p3(4) p1(3,5,6) p5(3) by (intro exI [of _ d2] exI [of _ a2] exI [of _ w7] exI [of _ P]) simp
qed

lemma applyDiff_ok:
  assumes env: "env_ok e" "e_ip_text e = ip_text" and ok: "ok w"
    and ready: "dp_ready ip_text ifaces (e_link_text e) m (abs w)" and wanted: "dp_wanted ip_text ifaces m (abs w) state"
    and bp: "balancer_plan (e_lb_text e) (e_balancers e) (dp_Balancers cur) (dp_Balancers state) (v_tbl (abs w))"
    and names: "\<forall>s b n. b \<in> set (dp_Balancers cur) \<longrightarrow> lb_is s b \<longrightarrow> wanted_lb (e_lb_text e) (dp_Balancers state) s = Some n \<longrightarrow> bs_Name b = bs_Name n"
    and rp: "route_plan ip_text (e_routes e) (dp_DynamicRoutes cur) (dp_DynamicRoutes state) (v_paths (abs w))"
    and ls: "set (dp_LinkAddresses cur) = {la \<in> tracked (dm_addressManager m). has_addr (abs w) la}"
  shows "\<exists>m' w'. applyDiff M e cur state (m, w) = (Inr (), (m', w')) \<and> ok w' \<and>
    dp_ready ip_text ifaces (e_link_text e) m' (abs w') \<and> dp_reached ip_text (e_lb_text e) m' (abs w') state \<and> v_name (abs w') = v_name (abs w) \<and>
    set_mset (v_paths (abs w')) \<subseteq> set_mset (v_paths (abs w)) \<union> GetBgpAttributes ` set (dp_DynamicRoutes state) \<and>
    tracked (dm_addressManager m') \<subseteq> tracked (dm_addressManager m) \<union> set (dp_LinkAddresses state) \<and>
    (\<forall>b j. \<not> on_links (tracked (dm_addressManager m) \<union> set (dp_LinkAddresses state)) b j \<longrightarrow> v_addrs (abs w') b j = v_addrs (abs w) b j) \<and>
    dr_slept (dm_dynRoutingMng m') = dr_slept (dm_dynRoutingMng m) +
      max_hold (Deleted (CompareDynamicRouting ip_text (e_routes e) (dp_DynamicRoutes cur) (dp_DynamicRoutes state)))"
proof -
  let ?bd = "CompareBalancerState (e_lb_text e) (e_balancers e) (dp_Balancers cur) (dp_Balancers state)"
  let ?rd = "CompareDynamicRouting ip_text (e_routes e) (dp_DynamicRoutes cur) (dp_DynamicRoutes state)"
  let ?ld = "CompareLocalLinkAddresses (e_links e) (dp_LinkAddresses cur) (dp_LinkAddresses state)"
  let ?A = "tracked (dm_addressManager m)" and ?L = "set (dp_LinkAddresses cur)" and ?W = "set (dp_LinkAddresses state)"
  have links: "go_range (e_links e)" using env(1) by (simp add: env_ok_def)
  have am: "am_inv (e_link_text e) (dm_addressManager m)" "\<forall>la\<in>?A. la_LinkName la \<in> ifaces" "None \<notin># v_paths (abs w)"
    "\<not> dm_shutdownOnce m" using ready by (simp_all add: dp_ready_def dp_inv_def)
  have wl: "\<forall>la\<in>?W. la_LinkName la \<in> ifaces" "inj_on lkey (?A \<union> ?W)" using wanted by (simp_all add: dp_wanted_def wanted_links_def)
  have LA: "?L \<subseteq> ?A" using ls by blast
  then have "inj_on lkey (?L \<union> ?W)" using wl(2) by (meson Un_mono inj_on_subset order_refl)
  note ld = link_diff [OF links this]
  have ld_if: "\<forall>la\<in>set (Added ?ld) \<union> set (Deleted ?ld). la_LinkName la \<in> ifaces" using wl(1) am(2) LA by (auto simp: ld)
  have "wanted_balancers (v_tbl (abs w)) (dp_Balancers state)" using wanted by (simp add: dp_wanted_def)
  from applyDiff_run [OF env ok am(1) this bp rp ld_if] obtain d a w' P where
    run: "applyDiff M e cur state (m, w) = (Inr (), (m\<lparr>dm_dynRoutingMng := d, dm_addressManager := a\<rparr>, w'))" "ok w'" and
    final: "abs w' = \<lparr>v_tbl = drop_all (Deleted ?bd) (put_all (map NewItem (Changed ?bd)) (put_all (Added ?bd) (v_tbl (abs w)))),
      v_paths = P + mset (map GetBgpAttributes (Added ?rd)),
      v_addrs = (\<lambda>b j. (v_addrs (abs w) b j \<or> on_links (set (Added ?ld)) b j) \<and> \<not> on_links (set (Deleted ?ld)) b j),
      v_name = v_name (abs w)\<rparr>" and
    P: "P \<subseteq># v_paths (abs w)" "image_mset (rkey ip_text) P = image_mset (rkey ip_text) (v_paths (abs w)) - mset (map route_key (Deleted ?rd))" and
    a: "am_inv (e_link_text e) a" "tracked a = (set (Added ?ld) \<union> ?A) - set (Deleted ?ld)" and
    d: "dr_slept d = dr_slept (dm_dynRoutingMng m) + max_hold (Deleted ?rd)" by blast
  let ?m' = "m\<lparr>dm_dynRoutingMng := d, dm_addressManager := a\<rparr>"
  have tbl: "v_tbl (abs w') = wanted_tbl (e_lb_text e) (dp_Balancers state)"
    using plan_reaches [OF bp] names final by simp
  have paths: "v_paths (abs w') = P + mset (map GetBgpAttributes (Added ?rd))"
    using final by simp
  note routes = route_reaches [OF rp P paths]
  have addrs: "v_addrs (abs w') = (\<lambda>b j. (v_addrs (abs w) b j \<or> on_links (?W - ?L) b j) \<and> \<not> on_links (?L - ?W) b j)"
    using final by (simp add: ld fun_eq_iff)
  have trk: "tracked a = ((?W - ?L) \<union> ?A) - (?L - ?W)" using a(2) by (simp add: ld)
  have "{la \<in> tracked a. has_addr (abs w') la} = ?W"
    unfolding has_addr_def addrs trk by (rule link_reaches [OF wl(2)]) (use ls in \<open>simp add: has_addr_def\<close>)
  then have reached: "dp_reached ip_text (e_lb_text e) ?m' (abs w') state" using tbl routes(2) by (simp add: dp_reached_def)
  have "\<forall>la\<in>tracked a. la_LinkName la \<in> ifaces" using trk am(2) wl(1) by auto
  then have ready': "dp_ready ip_text ifaces (e_link_text e) ?m' (abs w')"
    using routes(1) routes(3) [OF am(3)] a(1) am(4) by (simp add: dp_ready_def dp_inv_def)
  have "v_addrs (abs w') b j = v_addrs (abs w) b j" if "\<not> on_links (?A \<union> ?W) b j" for b j
    using that LA unfolding addrs on_links_def by auto
  moreover have "v_name (abs w') = v_name (abs w)" using final by simp
  moreover have "set_mset (v_paths (abs w')) \<subseteq> set_mset (v_paths (abs w)) \<union> GetBgpAttributes ` set (dp_DynamicRoutes state)"
    using routes(4) by blast
  ultimately show ?thesis using run ready' reached trk d by (intro exI [of _ ?m'] exI [of _ w']) auto
qed

lemma wanted_lb_named:
  "inj lb_text \<Longrightarrow> wanted_lb lb_text (dp_Balancers state) s = Some n \<Longrightarrow> lb_named state s (bs_Name n)"
  using wanted_lb_Some [of lb_text "dp_Balancers state" s n] by (auto simp: lb_named_def lb_is_def)

text \<open>A state that has been reached is read back without a difference.\<close>

lemma reached_equal:
  assumes env: "env_ok e" "e_ip_text e = ip_text" and "ok w"
    and ready: "dp_ready ip_text ifaces (e_link_text e) m (abs w)" and reached: "dp_reached ip_text (e_lb_text e) m (abs w) state"
    and wf: "\<forall>b\<in>set (dp_Balancers state). wf_balancer b"
    and routes: "wanted_routes ip_text (set_mset (v_paths (abs w))) (dp_DynamicRoutes state)"
    and inj: "inj_on lkey (set (dp_LinkAddresses state))"
    and names: "\<And>s name. lb_named state s name \<Longrightarrow> v_name (abs w) s = name"
  shows "\<exists>cur. getStateNonThreadSafe M e (m, w) = (Inr cur, (m, w)) \<and>
    (\<forall>r. go_range r \<longrightarrow> \<not> IsChanged (CompareBalancerState (e_lb_text e) r (dp_Balancers cur) (dp_Balancers state))) \<and>
    (\<forall>r. go_range r \<longrightarrow> \<not> IsChanged (CompareDynamicRouting ip_text r (dp_DynamicRoutes cur) (dp_DynamicRoutes state))) \<and>
    (\<forall>r. go_range r \<longrightarrow> \<not> IsChanged (CompareLocalLinkAddresses r (dp_LinkAddresses cur) (dp_LinkAddresses state)))"
proof -
  have lb: "inj (e_lb_text e)" using env(1) by (simp add: env_ok_def)
  obtain cur where cur: "getStateNonThreadSafe M e (m, w) = (Inr cur, (m, w))"
    "\<And>ws. \<forall>b\<in>set ws. wf_balancer b \<Longrightarrow> balancer_plan (e_lb_text e) (e_balancers e) (dp_Balancers cur) ws (v_tbl (abs w))"
    "\<And>b s. b \<in> set (dp_Balancers cur) \<Longrightarrow> lb_is s b \<Longrightarrow> bs_Name b = v_name (abs w) s"
    "\<And>ws. \<forall>r\<in>set ws. has_bgp r \<Longrightarrow> route_plan ip_text (e_routes e) (dp_DynamicRoutes cur) ws (v_paths (abs w))"
    "set (dp_LinkAddresses cur) = {la \<in> tracked (dm_addressManager m). has_addr (abs w) la}"
    by (rule getState_ok [OF env assms(3) dp_readyD [OF ready]]) (rule that)
  have "balancer_plan (e_lb_text e) (e_balancers e) (dp_Balancers cur) (dp_Balancers state) (wanted_tbl (e_lb_text e) (dp_Balancers state))"
    using cur(2) [OF wf] reached by (simp add: dp_reached_def)
  from plan_done [OF this] cur(3) names wanted_lb_named [OF lb]
  have "\<forall>r. go_range r \<longrightarrow> \<not> IsChanged (CompareBalancerState (e_lb_text e) r (dp_Balancers cur) (dp_Balancers state))" by metis
  moreover have "\<forall>r\<in>set (dp_DynamicRoutes state). has_bgp r" using routes by (simp add: wanted_routes_def)
  note rp = cur(4) [OF this]
  have keys: "rkey ip_text ` set_mset (v_paths (abs w)) = rkey ip_text ` GetBgpAttributes ` set (dp_DynamicRoutes state)"
    using reached by (simp add: dp_reached_def)
  have eq: "rEqual ip_text p (GetBgpAttributes r)"
    if "p \<in># v_paths (abs w)" "r \<in> set (dp_DynamicRoutes state)" "rkey ip_text p = rkey ip_text (GetBgpAttributes r)" for p r
    using routes that unfolding wanted_routes_def by (meson UnI1)
  have "\<forall>r. go_range r \<longrightarrow> \<not> IsChanged (CompareDynamicRouting ip_text r (dp_DynamicRoutes cur) (dp_DynamicRoutes state))"
    by (intro allI impI route_done [OF rp keys]) (rule eq)
  moreover have "set (dp_LinkAddresses cur) = set (dp_LinkAddresses state)" using cur(5) reached by (simp add: dp_reached_def)
  then have "\<forall>r. go_range r \<longrightarrow> \<not> IsChanged (CompareLocalLinkAddresses r (dp_LinkAddresses cur) (dp_LinkAddresses state))"
    using inj by (auto simp: link_diff(3))
  ultimately show ?thesis using cur(1) by blast
qed

lemma SetState_ok:
  assumes env: "env_ok e" "e_ip_text e = ip_text" and ok: "ok w" and nok: "names_ok state"
    and ready: "dp_ready ip_text ifaces (e_link_text e) m (abs w)" and wanted: "dp_wanted ip_text ifaces m (abs w) state"
  shows "\<exists>m' w'. SetState M e state (m, w) = (Inr (), (m', w')) \<and> ok w' \<and>
    dp_ready ip_text ifaces (e_link_text e) m' (abs w') \<and> dp_reached ip_text (e_lb_text e) m' (abs w') state \<and>
    (\<forall>s name. lb_named state s name \<longrightarrow> v_name (abs w') s = name) \<and>
    wanted_routes ip_text (set_mset (v_paths (abs w'))) (dp_DynamicRoutes state) \<and>
    (\<forall>b j. \<not> on_links (tracked (dm_addressManager m) \<union> set (dp_LinkAddresses state)) b j \<longrightarrow> v_addrs (abs w') b j = v_addrs (abs w) b j) \<and>
    dm_lastSuccessfulStateChange m' = e_now e"
proof -
  from UpdateCache_ok [OF ok nok] obtain w0 where w0: "rm_UpdateCache (mm_Resolver M) (Some state) w = (Inr (), w0)" "ok w0"
    "v_paths (abs w0) = v_paths (abs w)" "v_addrs (abs w0) = v_addrs (abs w)" "v_tbl (abs w0) = v_tbl (abs w)"
    "\<And>svc name. lb_named state svc name \<Longrightarrow> v_name (abs w0) svc = name" by blast
  have ready0: "dp_ready ip_text ifaces (e_link_text e) m (abs w0)" using ready w0(3) by (simp add: dp_ready_def dp_inv_def)
  have wanted0: "dp_wanted ip_text ifaces m (abs w0) state" using wanted w0(3,5) by (simp add: dp_wanted_def)
  have lb: "inj (e_lb_text e)" using env(1) by (simp add: env_ok_def)
  have wf: "\<forall>b\<in>set (dp_Balancers state). wf_balancer b" "\<forall>r\<in>set (dp_DynamicRoutes state). has_bgp r"
    using wanted by (auto simp: dp_wanted_def wanted_balancers_def wanted_routes_def)
  obtain cur where cur: "getStateNonThreadSafe M e (m, w0) = (Inr cur, (m, w0))"
    "\<And>ws. \<forall>b\<in>set ws. wf_balancer b \<Longrightarrow> balancer_plan (e_lb_text e) (e_balancers e) (dp_Balancers cur) ws (v_tbl (abs w0))"
    "\<And>b s. b \<in> set (dp_Balancers cur) \<Longrightarrow> lb_is s b \<Longrightarrow> bs_Name b = v_name (abs w0) s"
    "\<And>ws. \<forall>r\<in>set ws. has_bgp r \<Longrightarrow> route_plan ip_text (e_routes e) (dp_DynamicRoutes cur) ws (v_paths (abs w0))"
    "set (dp_LinkAddresses cur) = {la \<in> tracked (dm_addressManager m). has_addr (abs w0) la}"
    by (rule getState_ok [OF env w0(2) dp_readyD [OF ready0]]) (rule that)
  have names: "\<forall>s b n. b \<in> set (dp_Balancers cur) \<longrightarrow> lb_is s b \<longrightarrow> wanted_lb (e_lb_text e) (dp_Balancers state) s = Some n \<longrightarrow> bs_Name b = bs_Name n"
    using cur(3) w0(6) wanted_lb_named [OF lb] by metis
  from applyDiff_ok [OF env w0(2) ready0 wanted0 cur(2) [OF wf(1)] names cur(4) [OF wf(2)] cur(5)] obtain m' w' where
    m': "applyDiff M e cur state (m, w0) = (Inr (), (m', w'))" "ok w'" "dp_ready ip_text ifaces (e_link_text e) m' (abs w')"
    "dp_reached ip_text (e_lb_text e) m' (abs w') state" "v_name (abs w') = v_name (abs w0)"
    "set_mset (v_paths (abs w')) \<subseteq> set_mset (v_paths (abs w0)) \<union> GetBgpAttributes ` set (dp_DynamicRoutes state)"
    "\<And>b j. \<not> on_links (tracked (dm_addressManager m) \<union> set (dp_LinkAddresses state)) b j \<Longrightarrow> v_addrs (abs w') b j = v_addrs (abs w0) b j"
    by blast
  have "wanted_routes ip_text (set_mset (v_paths (abs w'))) (dp_DynamicRoutes state)"
    using wanted0 m'(6) unfolding dp_wanted_def wanted_routes_def by blast
  moreover have "SetState M e state (m, w) = (Inr (), (m'\<lparr>dm_lastSuccessfulStateChange := e_now e\<rparr>, w'))"
    using ready w0(1) cur(1) m'(1) by (simp add: SetState_def dp_ready_def dp_inv_def)
  ultimately show ?thesis using m' w0(4,6)
    by (intro exI [of _ "m'\<lparr>dm_lastSuccessfulStateChange := e_now e\<rparr>"] exI [of _ w']) (simp add: dp_ready_def dp_inv_def dp_reached_def)
qed

lemma SetState_again:
  assumes env: "env_ok e" "e_ip_text e = ip_text" and ok: "ok w" and nok: "names_ok state"
    and ready: "dp_ready ip_text ifaces (e_link_text e) m (abs w)" and reached: "dp_reached ip_text (e_lb_text e) m (abs w) state"
    and wf: "\<forall>b\<in>set (dp_Balancers state). wf_balancer b"
    and routes: "wanted_routes ip_text (set_mset (v_paths (abs w))) (dp_DynamicRoutes state)"
    and inj: "inj_on lkey (set (dp_LinkAddresses state))"
  shows "\<exists>w'. rm_UpdateCache (mm_Resolver M) (Some state) w = (Inr (), w') \<and>
    SetState M e state (m, w) = (Inr (), (m\<lparr>dm_lastSuccessfulStateChange := e_now e\<rparr>, w'))"
proof -
  from UpdateCache_ok [OF ok nok] obtain w0 where w0: "rm_UpdateCache (mm_Resolver M) (Some state) w = (Inr (), w0)" "ok w0"
    "v_paths (abs w0) = v_paths (abs w)" "v_addrs (abs w0) = v_addrs (abs w)" "v_tbl (abs w0) = v_tbl (abs w)"
    "\<And>svc name. lb_named state svc name \<Longrightarrow> v_name (abs w0) svc = name" by blast
  have ready0: "dp_ready ip_text ifaces (e_link_text e) m (abs w0)" using ready w0(3) by (simp add: dp_ready_def dp_inv_def)
  have reached0: "dp_reached ip_text (e_lb_text e) m (abs w0) state" using reached w0(3-5) by (simp add: dp_reached_def has_addr_def)
  have range: "go_range (e_balancers e)" "go_range (e_routes e)" "go_range (e_links e)" using env(1) by (simp_all add: env_ok_def)
  from reached_equal [OF env w0(2) ready0 reached0 wf _ inj w0(6)] routes w0(3) obtain cur where
    cur: "getStateNonThreadSafe M e (m, w0) = (Inr cur, (m, w0))"
    "\<And>r. go_range r \<Longrightarrow> \<not> IsChanged (CompareBalancerState (e_lb_text e) r (dp_Balancers cur) (dp_Balancers state))"
    "\<And>r. go_range r \<Longrightarrow> \<not> IsChanged (CompareDynamicRouting ip_text r (dp_DynamicRoutes cur) (dp_DynamicRoutes state))"
    "\<And>r. go_range r \<Longrightarrow> \<not> IsChanged (CompareLocalLinkAddresses r (dp_LinkAddresses cur) (dp_LinkAddresses state))" by auto
  have "applyDiff M e cur state (m, w0) = (Inr (), (m, w0))"
    using cur(2) [OF range(1)] cur(3) [OF range(2)] cur(4) [OF range(3)] env(2) by (simp add: applyDiff_def Let_def)
  then have "SetState M e state (m, w) = (Inr (), (m\<lparr>dm_lastSuccessfulStateChange := e_now e\<rparr>, w0))"
    using ready w0(1) cur(1) by (simp add: SetState_def dp_ready_def dp_inv_def)
  with w0(1) show ?thesis by blast
qed

end

subsection \<open>A sample world\<close>

definition sample_env :: "(LoadBalancerService option, LinkAddress) dp_env" where
  "sample_env = \<lparr>e_ip_text = (\<lambda>ip. IP_String (KglbAddrToNetIp ip)), e_lb_text = id, e_link_text = id,
     e_balancers = (\<lambda>_ xs. xs), e_routes = (\<lambda>_. rev), e_links = (\<lambda>_ xs. xs), e_upstreams = (\<lambda>_ _. rev), e_addrs = (\<lambda>_ xs. xs), e_now = 7\<rparr>"

definition sample_ip :: "IP option" where
  "sample_ip = Some (IP (Some (IP_Ipv4 ''10.0.0.1'')))"

definition sample_upstream :: "u32 \<Rightarrow> UpstreamState" where
  "sample_upstream port = \<lparr>us_Address = sample_ip, us_Port = port, us_Hostname = ''h'', us_Weight = 1, us_ForwardMethod = TUNNEL\<rparr>"

definition sample_dp :: DataPlaneState where
  "sample_dp = \<lparr>
     dp_Balancers = [\<lparr>bs_Name = ''web'',
       bs_LbService = Some (mk_lb \<lparr>ipvs_Attributes = Some (TcpAttributes (Some \<lparr>tcp_Address = sample_ip, tcp_Port = 80\<rparr>)), ipvs_Scheduler = RR, ipvs_Flags = []\<rparr>),
       bs_Upstreams = [sample_upstream 80, sample_upstream 81]\<rparr>],
     dp_DynamicRoutes = [\<lparr>dr_Attributes = Some (DynamicRoute_Bgp (Some \<lparr>bgp_LocalAsn = 1, bgp_PeerAsn = 2, bgp_Community = ''1:2'',
       bgp_Prefix = sample_ip, bgp_Prefixlen = 32, bgp_HoldTimeMs = 500\<rparr>))\<rparr>],
     dp_LinkAddresses = [\<lparr>la_LinkName = ''lo'', la_Address = sample_ip\<rparr>]\<rparr>"

lemma sample_env_ok [simp]: "env_ok sample_env"
  by (simp add: env_ok_def sample_env_def)

lemma new_world_ok [simp]: "mock_ok new_mock_world"
  by (simp add: mock_ok_def new_mock_world_def mockAddrMap_def)

lemma new_world_view [simp]: "v_tbl (mock_view new_mock_world) = Map.empty" "v_paths (mock_view new_mock_world) = {#}"
  by (simp_all add: mock_view_def new_mock_world_def fun_eq_iff)

lemma new_manager_ready [simp]: "inj link_text \<Longrightarrow> dp_ready ip_text ifaces link_text (NewDpManager now) (mock_view new_mock_world)"
  by (simp add: dp_ready_def dp_inv_def NewDpManager_def NewAddressManager_def am_inv_def tracked_def uniq_def)

lemma new_manager_tracked [simp]: "tracked (dm_addressManager (NewDpManager now)) = {}"
  by (simp add: NewDpManager_def NewAddressManager_def tracked_def)

lemma sample_names: "cache_names_ok sample_dp"
  by (simp add: cache_names_ok_def sample_dp_def mk_lb_def GetIpvsService_def keyByService_def is_ok_def)

lemma sample_wanted: "dp_wanted ip_text {''lo''} (NewDpManager now) (mock_view new_mock_world) sample_dp"
proof -
  have "upkey (sample_upstream 80) \<noteq> upkey (sample_upstream 81)"
    by (simp add: UpstreamStateComparable_def sample_upstream_def)
  then have "wanted_balancers Map.empty (dp_Balancers sample_dp)"
    by (simp add: wanted_balancers_def sample_dp_def wf_balancer_def lb_is_def wf_service_def attr_ident_def)
  moreover have "wanted_routes ip_text {} (dp_DynamicRoutes sample_dp)"
    by (simp add: wanted_routes_def sample_dp_def has_bgp_def GetBgpAttributes_def bgp_cmp.equal_refl)
  moreover have "wanted_links {''lo''} {} (dp_LinkAddresses sample_dp)" by (simp add: wanted_links_def sample_dp_def)
  ultimately show ?thesis by (simp add: dp_wanted_def)
qed

subsection \<open>Properties\<close>





end
