(* ===== verification/Push.thy ===== *)
theory Push
  imports Servicer_Props Dp_SetState
begin

section \<open>The control plane driving the data plane\<close>

text \<open>
  The composition of the servicer's loop with the data plane manager: the client the servicer pushes
  through is \<open>SetState\<close> of the manager, as in kglbd. A notification of a balancer generates a state
  and applies it; every later tick applies the same state again.
\<close>

subsection \<open>What generation gives the data plane\<close>

lemma generated_bgp:
  assumes "GenerateDataPlaneState ip_text r rl s = (Inr dp, s')"
  shows "\<forall>route\<in>set (dp_DynamicRoutes dp). has_bgp route"
proof
  let ?g = "genAll (r 0 (cs_balancers s))"
  fix route assume "route \<in> set (dp_DynamicRoutes dp)"
  moreover have "routeLoop (gs_prohibited ?g) (gs_allowed ?g) {} = Inr (dp_DynamicRoutes dp)"
    using Generate_ok [OF assms] by (simp add: generateRoutes_def)
  ultimately have "GetBgpAttributes route \<in> set (gs_allowed ?g)"
    using routeLoop_sound by blast
  then show "has_bgp route"
    by (auto simp: genAll_routes has_bgp_def announces_def Balancer_GetConfig_def Let_def)
qed

lemma generated_loopback:
  assumes "GenerateDataPlaneState ip_text r rl s = (Inr dp, s')" and "go_range rl"
  shows "\<forall>la\<in>set (dp_LinkAddresses dp). la_LinkName la = ''lo''"
proof -
  have "generateLinkAddrs ip_text (\<lambda>i. r (Suc i)) rl s = Inr (dp_LinkAddresses dp)"
    using Generate_ok [OF assms(1)] by simp
  then obtain sts m where m: "linkAddrLoop ip_text sts [] = Inr m" "dp_LinkAddresses dp = map snd (rl 0 m)"
    by (auto simp: generateLinkAddrs_def)
  with linkAddrLoop_loopback [OF m(1)] show ?thesis
    using assms(2) by (auto simp: LoopbackLinkName_def)
qed

text \<open>
  What remains to be asked of a generated state: its services are well-formed and ask the table for
  other weights only, a route that is announced already is announced with the same attributes, and
  the texts of link addresses tell them apart.
\<close>

definition fits :: "(IP option \<Rightarrow> string) \<Rightarrow> 'l DpManager \<Rightarrow> dp_view \<Rightarrow> DataPlaneState \<Rightarrow> bool" where
  "fits ip_text m v state \<longleftrightarrow> wanted_balancers (v_tbl v) (dp_Balancers state) \<and>
     (\<forall>w\<in>set (dp_DynamicRoutes state). \<forall>p\<in>set_mset (v_paths v) \<union> GetBgpAttributes ` set (dp_DynamicRoutes state).
        rkey ip_text p = rkey ip_text (GetBgpAttributes w) \<longrightarrow> rEqual ip_text p (GetBgpAttributes w)) \<and>
     inj_on lkey (tracked (dm_addressManager m) \<union> set (dp_LinkAddresses state))"

lemma generated_wanted:
  assumes "GenerateDataPlaneState ip_text r rl s = (Inr dp, s')" and "go_range rl" and "fits ip_text m v dp"
  shows "dp_wanted ip_text {''lo''} m v dp"
  using assms(3) generated_bgp [OF assms(1)] generated_loopback [OF assms(1,2)]
  by (simp add: dp_wanted_def wanted_routes_def wanted_links_def fits_def)

subsection \<open>A reached state stays\<close>

definition settled :: "('k, 'l) dp_env \<Rightarrow> DataPlaneState \<Rightarrow> 'l DpManager \<Rightarrow> dp_view \<Rightarrow> bool" where
  "settled e state m v \<longleftrightarrow>
     dp_ready (e_ip_text e) {''lo''} (e_link_text e) m v \<and> dp_reached (e_ip_text e) (e_lb_text e) m v state \<and>
     wanted_routes (e_ip_text e) (set_mset (v_paths v)) (dp_DynamicRoutes state)"

abbreviation the_modules :: "('k, 'l) dp_env \<Rightarrow> mock_world ManagerModules" where
  "the_modules e \<equiv> mock_modules (NoOpBgpModule (e_ip_text e))"

lemma tick_settled:
  assumes "env_ok e" and "mock_ok w" and "cache_names_ok state" and "settled e state m (mock_view w)"
    and "\<forall>b\<in>set (dp_Balancers state). wf_balancer b" and "inj_on lkey (set (dp_LinkAddresses state))"
  shows "\<exists>m' w'. SetState (the_modules e) e state (m, w) = (Inr (), (m', w')) \<and> mock_ok w' \<and>
    settled e state m' (mock_view w') \<and> v_tbl (mock_view w') = v_tbl (mock_view w) \<and>
    v_paths (mock_view w') = v_paths (mock_view w) \<and> v_addrs (mock_view w') = v_addrs (mock_view w)"
proof -
  have s: "dp_ready (e_ip_text e) {''lo''} (e_link_text e) m (mock_view w)" "dp_reached (e_ip_text e) (e_lb_text e) m (mock_view w) state"
    "wanted_routes (e_ip_text e) (set_mset (v_paths (mock_view w))) (dp_DynamicRoutes state)"
    using assms(4) by (simp_all add: settled_def)
  from noop_store.world.SetState_again [OF assms(1) refl assms(2,3) s(1,2) assms(5) s(3) assms(6)] obtain w' where
    w': "rm_UpdateCache (mm_Resolver (the_modules e)) (Some state) w = (Inr (), w')"
    "SetState (the_modules e) e state (m, w) = (Inr (), (m\<lparr>dm_lastSuccessfulStateChange := e_now e\<rparr>, w'))" by blast
  from noop_store.world.UpdateCache_ok [OF assms(2,3), of "e_ip_text e"] w'(1) have
    v: "mock_ok w'" "v_paths (mock_view w') = v_paths (mock_view w)" "v_addrs (mock_view w') = v_addrs (mock_view w)"
      "v_tbl (mock_view w') = v_tbl (mock_view w)" by auto
  have "settled e state (m\<lparr>dm_lastSuccessfulStateChange := e_now e\<rparr>) (mock_view w')"
    using s v by (simp add: settled_def dp_ready_def dp_inv_def dp_reached_def has_addr_def)
  with w'(2) v show ?thesis by blast
qed

lemma ticks_settled:
  fixes e :: "('k, 'l) dp_env"
  assumes "env_ok e" and "cache_names_ok state" and "\<forall>b\<in>set (dp_Balancers state). wf_balancer b"
    and "inj_on lkey (set (dp_LinkAddresses state))"
    and "cs_state s = Some state" and "mock_ok w" and "settled e state m (mock_view w)"
  shows "\<exists>s' m' w'. (pusherStep CF ip_text (SetState (the_modules e) e) r rl Ticker ^^ n) (s, (m, w)) = (s', (m', w')) \<and>
    cs_state s' = Some state \<and> mock_ok w' \<and> settled e state m' (mock_view w') \<and> v_tbl (mock_view w') = v_tbl (mock_view w) \<and>
    v_paths (mock_view w') = v_paths (mock_view w) \<and> v_addrs (mock_view w') = v_addrs (mock_view w)"
proof (induction n)
  case 0
  show ?case using assms(5-7) by simp
next
  case (Suc n)
  then obtain s1 m1 w1 where one: "(pusherStep CF ip_text (SetState (the_modules e) e) r rl Ticker ^^ n) (s, (m, w)) = (s1, (m1, w1))"
    "cs_state s1 = Some state" "mock_ok w1" "settled e state m1 (mock_view w1)" "v_tbl (mock_view w1) = v_tbl (mock_view w)"
    "v_paths (mock_view w1) = v_paths (mock_view w)" "v_addrs (mock_view w1) = v_addrs (mock_view w)" by blast
  from tick_settled [OF assms(1) one(3) assms(2) one(4) assms(3,4)] obtain m2 w2 where
    two: "SetState (the_modules e) e state (m1, w1) = (Inr (), (m2, w2))" "mock_ok w2" "settled e state m2 (mock_view w2)"
    "v_tbl (mock_view w2) = v_tbl (mock_view w1)" "v_paths (mock_view w2) = v_paths (mock_view w1)" "v_addrs (mock_view w2) = v_addrs (mock_view w1)"
    by blast
  have "\<exists>s2. pusherStep CF ip_text (SetState (the_modules e) e) r rl Ticker (s1, (m1, w1)) = (s2, (m2, w2)) \<and> cs_state s2 = Some state"
    using one(2) two(1) by (simp add: applyDataPlaneState_def)
  then show ?case using one two by auto
qed


definition notified :: ControlPlaneServicer where
  "notified = sample_servicer\<lparr>cs_balancersUpdatesChan := True\<rparr>"

lemma sample_fits: "fits ip_text (NewDpManager 0) (mock_view new_mock_world) Servicer.sample_dp"
proof -
  have "wf_balancer sample_main"
    by (simp add: wf_balancer_def lb_is_def mk_lb_def wf_service_def attr_ident_def sample_main_def sample_defs)
  then show ?thesis
    by (simp add: fits_def wanted_balancers_def Servicer.sample_dp_def bgp_cmp.equal_refl)
qed

lemma sample_push_names: "cache_names_ok Servicer.sample_dp"
  by (simp add: cache_names_ok_def Servicer.sample_dp_def sample_main_def sample_defs mk_lb_def GetIpvsService_def keyByService_def is_ok_def)


subsection \<open>The handler after initialisation\<close>

text \<open>
  The handler \<open>AfterInitHandler\<close> is called on the first successful push once every balancer has a
  state, and then forgotten.
\<close>

definition handler_budget :: "ControlPlaneServicer \<Rightarrow> nat" where
  "handler_budget s = cs_handlerCalls s + (if cs_AfterInitHandler s then 1 else 0)"

lemma configBalancer_frame: "handler_budget (snd (configBalancer CF c s)) = handler_budget s"
  by (auto simp: configBalancer_def handler_budget_def Let_def split: sum.splits option.splits prod.splits)

lemma shutdownBalancer_frame: "handler_budget (snd (shutdownBalancer cs entry s)) = handler_budget s"
  by (auto simp: shutdownBalancer_def handler_budget_def split: sum.splits)

lemma each_a_frame: "(\<And>x s. f (snd (g x s)) = f s) \<Longrightarrow> f (snd (each_a g xs s)) = f s"
  by (induction xs arbitrary: s) (auto simp: bind_a_def split: prod.splits sum.splits, metis snd_conv, metis snd_conv)

lemma updateConfig_frame: "handler_budget (snd (updateConfig CF r config s)) = handler_budget s"
proof -
  have one: "handler_budget (snd (each_a (configBalancer CF) cs s)) = handler_budget s" for cs s
    by (rule each_a_frame) (rule configBalancer_frame)
  have two: "handler_budget (snd (each_a (shutdownBalancer cs) es s)) = handler_budget s" for cs es s
    by (rule each_a_frame) (rule shutdownBalancer_frame)
  have final: "handler_budget (s\<lparr>cs_config := c\<rparr>) = handler_budget s" for s c
    by (simp add: handler_budget_def)
  show ?thesis
    unfolding updateConfig_def bind_a_def
    by (auto simp: final split: prod.splits sum.splits) (metis one two snd_conv)+
qed

lemma Generate_frame: "handler_budget (snd (GenerateDataPlaneState ip_text r rl s)) = handler_budget s"
  by (simp add: GenerateDataPlaneState_def Let_def setStatesHashes_def handler_budget_def split: sum.splits)

lemma apply_frame: "handler_budget (fst (snd (applyDataPlaneState Set state (s, w)))) = handler_budget s"
  by (auto simp: applyDataPlaneState_def handler_budget_def split: prod.splits sum.splits)

lemma pusher_budget: "handler_budget (fst (pusherStep CF ip_text Set r rl ev (s, w))) = handler_budget s"
proof (cases ev)
  case (ConfigUpdate config)
  then show ?thesis by (simp add: updateConfig_frame)
next
  case Ticker
  then show ?thesis by (auto simp: apply_frame split: option.splits)
next
  case BalancersUpdate
  show ?thesis
    using Generate_frame [of ip_text r rl "s\<lparr>cs_balancersUpdatesChan := False\<rparr>"]
    by (auto simp: BalancersUpdate Let_def apply_frame split: prod.splits sum.splits) (simp_all add: handler_budget_def)
next
  case (BalancerStep dns key ev)
  then show ?thesis by (auto simp: balancerStep_def handler_budget_def Let_def split: option.splits prod.splits)
next
  case (HealthStep key hev)
  then show ?thesis by (auto simp: healthStep_def handler_budget_def split: option.splits)
qed

text \<open>
  C10: Over every sequence of events of the servicer's loop, and whatever the data plane answers, the
  handler after initialisation is called at most once, and never when none was given.
\<close>

theorem handler_once:
  "cs_handlerCalls (fst (fold (pusherStep CF ip_text Set r rl) evs (newControlPlaneServicer fwm handler, w))) \<le> (if handler then 1 else 0)"
proof -
  have "handler_budget (fst (fold (pusherStep CF ip_text Set r rl) evs (s, w))) = handler_budget s" for s w
  proof (induction evs arbitrary: s w)
    case (Cons ev evs)
    obtain s1 w1 where one: "pusherStep CF ip_text Set r rl ev (s, w) = (s1, w1)" by fastforce
    with pusher_budget [of CF ip_text Set r rl ev s w] Cons.IH [of s1 w1] show ?case by simp
  qed simp
  from this [of "newControlPlaneServicer fwm handler" w] show ?thesis
    by (simp add: handler_budget_def newControlPlaneServicer_def split: if_splits)
qed

end
