(* ===== verification/Dp_Order.thy ===== *)
theory Dp_Order
  imports Dp_Manager
begin

section \<open>The order of the calls a SetState makes\<close>

text \<open>
  Which calls change the world, and in which order \<open>SetState\<close> makes them, for every set of modules,
  failing ones included. The world is extended with a log to which every call that changes it is
  appended, whether it succeeds or not.
\<close>

subsection \<open>Logging modules\<close>

datatype dp_call =
  Call_AddService IpvsService
| Call_DeleteService IpvsService
| Call_AddRealServers IpvsService "UpstreamState list"
| Call_DeleteRealServers IpvsService "UpstreamState list"
| Call_UpdateRealServers IpvsService "UpstreamState list"
| Call_Init u32
| Call_Advertise "BgpRouteAttributes option"
| Call_Withdraw "BgpRouteAttributes option"
| Call_Add net_ip string
| Call_Delete net_ip string

definition logged :: "dp_call \<Rightarrow> ('s, 'a) act \<Rightarrow> ('s \<times> dp_call list, 'a) act" where
  "logged c f = (\<lambda>(s, l). case f s of (r, s') \<Rightarrow> (r, (s', l @ [c])))"

definition traced :: "'s ManagerModules \<Rightarrow> ('s \<times> dp_call list) ManagerModules" where
  "traced M =
     \<lparr>mm_Bgp = \<lparr>bm_Init = (\<lambda>asn. logged (Call_Init asn) (bm_Init (mm_Bgp M) asn)),
        bm_Advertise = (\<lambda>r. logged (Call_Advertise r) (bm_Advertise (mm_Bgp M) r)),
        bm_Withdraw = (\<lambda>r. logged (Call_Withdraw r) (bm_Withdraw (mm_Bgp M) r)),
        bm_ListPaths = on_fst (bm_ListPaths (mm_Bgp M)), bm_IsSessionEstablished = on_fst (bm_IsSessionEstablished (mm_Bgp M))\<rparr>,
      mm_AddressTable = \<lparr>at_Add = (\<lambda>a i. logged (Call_Add a i) (at_Add (mm_AddressTable M) a i)),
        at_Delete = (\<lambda>a i. logged (Call_Delete a i) (at_Delete (mm_AddressTable M) a i)),
        at_IsExists = (\<lambda>a i. on_fst (at_IsExists (mm_AddressTable M) a i)), at_List = (\<lambda>i. on_fst (at_List (mm_AddressTable M) i))\<rparr>,
      mm_Ipvs = \<lparr>im_AddService = (\<lambda>s. logged (Call_AddService s) (im_AddService (mm_Ipvs M) s)),
        im_DeleteService = (\<lambda>s. logged (Call_DeleteService s) (im_DeleteService (mm_Ipvs M) s)),
        im_ListServices = on_fst (im_ListServices (mm_Ipvs M)), im_GetRealServers = (\<lambda>s. on_fst (im_GetRealServers (mm_Ipvs M) s)),
        im_AddRealServers = (\<lambda>s us. logged (Call_AddRealServers s us) (im_AddRealServers (mm_Ipvs M) s us)),
        im_DeleteRealServers = (\<lambda>s us. logged (Call_DeleteRealServers s us) (im_DeleteRealServers (mm_Ipvs M) s us)),
        im_UpdateRealServers = (\<lambda>s us. logged (Call_UpdateRealServers s us) (im_UpdateRealServers (mm_Ipvs M) s us))\<rparr>,
      mm_Resolver = \<lparr>rm_Lookup = (\<lambda>n. on_fst (rm_Lookup (mm_Resolver M) n)),
        rm_ReverseLookup = (\<lambda>ip. on_fst (rm_ReverseLookup (mm_Resolver M) ip)),
        rm_ServiceLookup = (\<lambda>s. on_fst (rm_ServiceLookup (mm_Resolver M) s)), rm_Cluster = rm_Cluster (mm_Resolver M),
        rm_UpdateCache = (\<lambda>st. on_fst (rm_UpdateCache (mm_Resolver M) st))\<rparr>,
      mm_ShutdownHandler = map_option (\<lambda>h st. on_fst (h st)) (mm_ShutdownHandler M)\<rparr>"

subsection \<open>Phases\<close>

fun in_phase :: "nat \<Rightarrow> dp_call \<Rightarrow> bool" where
  "in_phase n (Call_Withdraw r) = (n = 0)"
| "in_phase n (Call_AddService s) = (n = 1)"
| "in_phase n (Call_AddRealServers s us) = (n = 1 \<or> n = 3)"
| "in_phase n (Call_Add a i) = (n = 2)"
| "in_phase n (Call_UpdateRealServers s us) = (n = 3)"
| "in_phase n (Call_DeleteRealServers s us) = (n = 3)"
| "in_phase n (Call_Init asn) = (n = 4)"
| "in_phase n (Call_Advertise r) = (n = 4)"
| "in_phase n (Call_DeleteService s) = (n = 5)"
| "in_phase n (Call_Delete a i) = (n = 6)"

text \<open>A log that splits into \<open>n\<close> pieces, the calls of the phases \<open>k\<close>, \<open>k + 1\<close>, and so on.\<close>

definition phased :: "nat \<Rightarrow> nat \<Rightarrow> dp_call list \<Rightarrow> bool" where
  "phased k n l \<longleftrightarrow> (\<exists>ls. length ls = n \<and> l = concat ls \<and> (\<forall>i<n. \<forall>c\<in>set (ls ! i). in_phase (k + i) c))"

lemma phased_Nil: "phased k n []"
  by (auto simp: phased_def intro!: exI [of _ "replicate n []"])

lemma phased_0: "phased k 0 l \<longleftrightarrow> l = []"
  by (auto simp: phased_def)

lemma phased_1: "phased k 1 l \<longleftrightarrow> (\<forall>c\<in>set l. in_phase k c)"
proof
  assume "\<forall>c\<in>set l. in_phase k c"
  then show "phased k 1 l" unfolding phased_def by (intro exI [of _ "[l]"]) simp
next
  assume "phased k 1 l"
  then obtain ls where ls: "length ls = 1" "l = concat ls" "\<forall>i<1. \<forall>c\<in>set (ls ! i). in_phase (k + i) c" by (auto simp: phased_def)
  then obtain x where "ls = [x]" by (metis One_nat_def length_0_conv length_Suc_conv)
  with ls show "\<forall>c\<in>set l. in_phase k c" by simp
qed

lemma phased_append:
  assumes "phased k a l" and "phased (k + a) b l'"
  shows "phased k (a + b) (l @ l')"
proof -
  from assms obtain ls ls' where "length ls = a" "l = concat ls" "\<forall>i<a. \<forall>c\<in>set (ls ! i). in_phase (k + i) c"
    "length ls' = b" "l' = concat ls'" "\<forall>i<b. \<forall>c\<in>set (ls' ! i). in_phase (k + a + i) c" unfolding phased_def by blast
  moreover from this have "in_phase (k + i) c" if "i < a + b" "c \<in> set ((ls @ ls') ! i)" for i c
    using that by (cases "i < a") (auto simp: nth_append not_less le_iff_add add.assoc)
  ultimately show ?thesis unfolding phased_def by (intro exI [of _ "ls @ ls'"]) auto
qed

subsection \<open>Actions whose calls are in phases\<close>

text \<open>\<open>lg\<close> reads the log of a state.\<close>

definition logs :: "('w \<Rightarrow> dp_call list) \<Rightarrow> nat \<Rightarrow> nat \<Rightarrow> ('w, 'a) act \<Rightarrow> bool" where
  "logs lg k n f \<longleftrightarrow> (\<forall>s. \<exists>l. lg (snd (f s)) = lg s @ l \<and> phased k n l)"

named_theorems log_rules

lemma logs_bind [log_rules]: "logs lg k a f \<Longrightarrow> (\<And>x. logs lg (k + a) b (g x)) \<Longrightarrow> logs lg k (a + b) (bind_a f g)"
  unfolding logs_def
proof
  fix s
  assume f: "\<forall>s. \<exists>l. lg (snd (f s)) = lg s @ l \<and> phased k a l" and g: "\<And>x. \<forall>s. \<exists>l. lg (snd (g x s)) = lg s @ l \<and> phased (k + a) b l"
  obtain r s' where r: "f s = (r, s')" by fastforce
  from f obtain l where l: "lg s' = lg s @ l" "phased k a l" using r by (metis snd_conv)
  show "\<exists>l. lg (snd (bind_a f g s)) = lg s @ l \<and> phased k (a + b) l"
  proof (cases r)
    case (Inl e)
    then show ?thesis using r l phased_append [OF l(2) phased_Nil, of b] by auto
  next
    case (Inr x)
    from g [of x] obtain l' where "lg (snd (g x s')) = lg s' @ l'" "phased (k + a) b l'" by blast
    then show ?thesis using Inr r l phased_append [OF l(2)] by auto
  qed
qed

lemma logs_ret [log_rules]: "logs lg k n (ret_a x)" "logs lg k n (lift_r r)" "logs lg k n (\<lambda>s. (r, s))"
  by (auto simp: logs_def phased_Nil)

lemma logs_quiet: "logs lg k 0 f \<Longrightarrow> logs lg k n f"
  by (fastforce simp: logs_def phased_0 intro: phased_Nil)

lemma logs_wrap [log_rules]: "logs lg k n f \<Longrightarrow> logs lg k n (wrap_a msg f)"
  by (simp add: logs_def)

lemma logs_when [log_rules]: "logs lg k n f \<Longrightarrow> logs lg k n (when_a b f)"
  by (cases b) (simp_all add: logs_ret)

lemma logs_seq: "logs lg k 1 f \<Longrightarrow> (\<And>x. logs lg k 1 (g x)) \<Longrightarrow> logs lg k 1 (bind_a f g)"
  unfolding logs_def phased_1
proof
  fix s
  assume f: "\<forall>s. \<exists>l. lg (snd (f s)) = lg s @ l \<and> (\<forall>c\<in>set l. in_phase k c)"
    and g: "\<And>x. \<forall>s. \<exists>l. lg (snd (g x s)) = lg s @ l \<and> (\<forall>c\<in>set l. in_phase k c)"
  obtain r s' where r: "f s = (r, s')" by fastforce
  from f obtain l where l: "lg s' = lg s @ l" "\<forall>c\<in>set l. in_phase k c" using r by (metis snd_conv)
  show "\<exists>l. lg (snd (bind_a f g s)) = lg s @ l \<and> (\<forall>c\<in>set l. in_phase k c)"
  proof (cases r)
    case (Inr x)
    from g [of x] obtain l' where "lg (snd (g x s')) = lg s' @ l'" "\<forall>c\<in>set l'. in_phase k c" by blast
    then show ?thesis using Inr r l by (intro exI [of _ "l @ l'"]) auto
  qed (use r l in auto)
qed

lemma logs_each [log_rules]: "(\<And>x. logs lg k 1 (f x)) \<Longrightarrow> logs lg k 1 (each_a f xs)"
  by (induction xs) (simp_all only: each_a.simps logs_ret logs_seq)

lemma logs_map: "(\<And>x. logs lg k 0 (f x)) \<Longrightarrow> logs lg k 0 (map_a f xs)"
proof (induction xs)
  case (Cons x xs)
  have "logs lg k (0 + (0 + 0)) (map_a f (x # xs))"
    unfolding map_a.simps by (intro logs_bind Cons.prems logs_ret) (use Cons in simp_all)
  then show ?case by simp
qed (simp add: logs_ret)

lemma logs_on_snd [log_rules]: "logs lg k n f \<Longrightarrow> logs (lg \<circ> snd) k n (on_snd f)"
  unfolding logs_def on_snd_def by (auto split: prod.splits) (metis snd_conv)

lemma logs_on_routing [log_rules]: "logs (lg \<circ> snd) k n f \<Longrightarrow> logs (lg \<circ> snd) k n (on_routing f)"
  unfolding logs_def on_routing_def by (auto split: prod.splits) (metis snd_conv)

lemma logs_on_addresses [log_rules]: "logs (lg \<circ> snd) k n f \<Longrightarrow> logs (lg \<circ> snd) k n (on_addresses f)"
  unfolding logs_def on_addresses_def by (auto split: prod.splits) (metis snd_conv)

lemma logs_modify [log_rules]: "(\<And>m w. snd (f (m, w)) = w) \<Longrightarrow> logs (lg \<circ> snd) k n (modify_a f)"
  by (auto simp: logs_def phased_Nil)

lemma logs_own: "(\<And>m. logs lg k n (f m)) \<Longrightarrow> logs lg k n (\<lambda>(m, w). f m (m, w))"
  unfolding logs_def case_prod_unfold prod.collapse by blast

lemma logs_logged [log_rules]: "in_phase k c \<Longrightarrow> logs snd k 1 (logged c f)"
  by (auto simp: logs_def logged_def phased_1 [unfolded One_nat_def] split: prod.splits)

lemmas logs_call = logs_logged logs_logged [unfolded One_nat_def]

lemma logs_on_fst [log_rules]: "logs snd k n (on_fst f)"
  by (auto simp: logs_def on_fst_def phased_Nil split: prod.splits)

lemma traced_simps [simp]:
  "bm_Init (mm_Bgp (traced M)) asn = logged (Call_Init asn) (bm_Init (mm_Bgp M) asn)"
  "bm_Advertise (mm_Bgp (traced M)) r = logged (Call_Advertise r) (bm_Advertise (mm_Bgp M) r)"
  "bm_Withdraw (mm_Bgp (traced M)) r = logged (Call_Withdraw r) (bm_Withdraw (mm_Bgp M) r)"
  "bm_ListPaths (mm_Bgp (traced M)) = on_fst (bm_ListPaths (mm_Bgp M))"
  "at_Add (mm_AddressTable (traced M)) a i = logged (Call_Add a i) (at_Add (mm_AddressTable M) a i)"
  "at_Delete (mm_AddressTable (traced M)) a i = logged (Call_Delete a i) (at_Delete (mm_AddressTable M) a i)"
  "at_IsExists (mm_AddressTable (traced M)) a i = on_fst (at_IsExists (mm_AddressTable M) a i)"
  "im_AddService (mm_Ipvs (traced M)) s = logged (Call_AddService s) (im_AddService (mm_Ipvs M) s)"
  "im_DeleteService (mm_Ipvs (traced M)) s = logged (Call_DeleteService s) (im_DeleteService (mm_Ipvs M) s)"
  "im_ListServices (mm_Ipvs (traced M)) = on_fst (im_ListServices (mm_Ipvs M))"
  "im_GetRealServers (mm_Ipvs (traced M)) s = on_fst (im_GetRealServers (mm_Ipvs M) s)"
  "im_AddRealServers (mm_Ipvs (traced M)) s us = logged (Call_AddRealServers s us) (im_AddRealServers (mm_Ipvs M) s us)"
  "im_DeleteRealServers (mm_Ipvs (traced M)) s us = logged (Call_DeleteRealServers s us) (im_DeleteRealServers (mm_Ipvs M) s us)"
  "im_UpdateRealServers (mm_Ipvs (traced M)) s us = logged (Call_UpdateRealServers s us) (im_UpdateRealServers (mm_Ipvs M) s us)"
  "rm_ServiceLookup (mm_Resolver (traced M)) svc = on_fst (rm_ServiceLookup (mm_Resolver M) svc)"
  "rm_UpdateCache (mm_Resolver (traced M)) st = on_fst (rm_UpdateCache (mm_Resolver M) st)"
  by (simp_all add: traced_def)

subsection \<open>The phases of SetState\<close>

lemma reads_quiet:
  "logs (snd \<circ> snd) k 0 (getStateNonThreadSafe (traced M) e)"
proof -
  have one: "logs snd k 0 (getBalancer (traced M) svc)" for svc
    using logs_bind [OF logs_on_fst [of k 0] logs_bind [OF logs_wrap [OF logs_on_fst [of "k + 0" 0]] logs_ret(1)]]
    unfolding getBalancer_def by (fastforce simp: case_prod_unfold)
  have "logs snd k (0 + 0) (GetBalancers (traced M))"
    unfolding GetBalancers_def case_prod_unfold by (intro logs_bind logs_wrap logs_map) (simp_all add: logs_on_fst one)
  then have bal: "logs (snd \<circ> snd) k 0 (wrap_a t (on_snd (GetBalancers (traced M))))" for t :: string
    by (intro log_rules) simp
  have "logs (snd \<circ> snd) k (0 + 0) (ListRoutes (mm_Bgp (traced M)) (e_ip_text e))"
    unfolding ListRoutes_def by (intro logs_own logs_bind logs_on_snd logs_map logs_ret(2)) (simp add: logs_on_fst)
  then have "logs (snd \<circ> snd) k 0 (ListRoutes (mm_Bgp (traced M)) (e_ip_text e))" by simp
  then have rts: "logs (snd \<circ> snd) k 0 (wrap_a t (on_routing (ListRoutes (mm_Bgp (traced M)) (e_ip_text e))))" for t :: string
    by (intro logs_wrap logs_on_routing)
  have "logs snd k 0 (stateLoop (mm_AddressTable (traced M)) ls)" for ls
  proof (induction ls)
    case (Cons l ls)
    have "logs snd k (0 + (0 + 0)) (stateLoop (mm_AddressTable (traced M)) (l # ls))"
      unfolding stateLoop.simps by (intro logs_bind logs_wrap logs_ret) (use Cons in \<open>simp_all add: logs_on_fst\<close>)
    then show ?case by simp
  qed (simp add: logs_ret)
  then have "logs (snd \<circ> snd) k 0 (on_snd (stateLoop (mm_AddressTable (traced M)) ls))" for ls by (rule logs_on_snd)
  then have "logs (snd \<circ> snd) k 0 (AddressManager_State (mm_AddressTable (traced M)) (e_addrs e))"
    unfolding AddressManager_State_def by (intro logs_own)
  then have adr: "logs (snd \<circ> snd) k 0 (wrap_a t (on_addresses (AddressManager_State (mm_AddressTable (traced M)) (e_addrs e))))" for t :: string
    by (intro logs_wrap logs_on_addresses)
  have "logs (snd \<circ> snd) k (0 + (0 + (0 + 0))) (getStateNonThreadSafe (traced M) e)"
    unfolding getStateNonThreadSafe_def by (intro logs_bind logs_ret) (simp_all add: bal rts adr)
  then show ?thesis by simp
qed

lemma advertise_logs: "logs (snd \<circ> snd) 4 1 (advertiseRouteLocked (mm_Bgp (traced M)) ip_text route)"
  unfolding advertiseRouteLocked_def by (intro logs_seq log_rules logs_modify) (auto intro: logs_call)

lemma withdraw_logs: "logs (snd \<circ> snd) 0 1 (withdrawRouteLocked (mm_Bgp (traced M)) ip_text route)"
  unfolding withdrawRouteLocked_def Let_def by (intro logs_seq log_rules logs_modify) (auto intro: logs_call)

lemma withdrawLoop_logs: "logs (snd \<circ> snd) 0 1 (withdrawLoop (mm_Bgp (traced M)) ip_text routes n)"
  by (induction routes arbitrary: n) (simp_all only: withdrawLoop.simps logs_ret logs_seq withdraw_logs)

lemma phase_logs:
  "logs (snd \<circ> snd) 0 1 (withdrawPhase (traced M) e rd)"
  "logs (snd \<circ> snd) 1 1 (addBalancersPhase (traced M) bd)"
  "logs (snd \<circ> snd) 2 1 (addAddressesPhase (traced M) e ld)"
  "logs (snd \<circ> snd) 3 1 (updateBalancersPhase (traced M) e bd)"
  "logs (snd \<circ> snd) 4 1 (advertisePhase (traced M) e rd)"
  "logs (snd \<circ> snd) 5 1 (deleteBalancersPhase (traced M) bd)"
  "logs (snd \<circ> snd) 6 1 (deleteAddressesPhase (traced M) e ld)"
proof -
  show "logs (snd \<circ> snd) 0 1 (withdrawPhase (traced M) e rd)"
    unfolding withdrawPhase_def WithdrawRoutes_def
    by (intro logs_when logs_wrap logs_on_routing logs_seq withdrawLoop_logs logs_modify) auto
  show "logs (snd \<circ> snd) 1 1 (addBalancersPhase (traced M) bd)"
    unfolding addBalancersPhase_def AddBalancers_def AddBalancer_def
    by (intro logs_when logs_wrap logs_on_snd logs_each logs_seq logs_ret) (auto intro: logs_call)
  show "logs (snd \<circ> snd) 2 1 (addAddressesPhase (traced M) e ld)"
    unfolding addAddressesPhase_def AddAddresses_def AddAddress_def Let_def
    by (intro logs_when logs_wrap logs_on_addresses logs_each logs_seq logs_on_snd logs_modify) (auto intro: logs_call logs_on_fst)
  show "logs (snd \<circ> snd) 3 1 (updateBalancersPhase (traced M) e bd)"
    unfolding updateBalancersPhase_def updateBalancer_def Let_def AddUpstreams_def UpdateUpstreams_def DeleteUpstreams_def
    by (intro logs_each logs_when logs_seq logs_wrap logs_on_snd logs_ret) (auto intro: logs_call)
  show "logs (snd \<circ> snd) 4 1 (advertisePhase (traced M) e rd)"
    unfolding advertisePhase_def AdvertiseRoutes_def
    by (intro logs_when logs_wrap logs_on_routing logs_each advertise_logs)
  show "logs (snd \<circ> snd) 5 1 (deleteBalancersPhase (traced M) bd)"
    unfolding deleteBalancersPhase_def DeleteBalancers_def DeleteBalancer_def
    by (intro logs_when logs_wrap logs_on_snd logs_each logs_seq logs_ret) (auto intro: logs_call)
  show "logs (snd \<circ> snd) 6 1 (deleteAddressesPhase (traced M) e ld)"
    unfolding deleteAddressesPhase_def DeleteAddresses_def DeleteAddress_def Let_def
    by (intro logs_when logs_wrap logs_on_addresses logs_each logs_seq logs_on_snd logs_modify) (auto intro: logs_call logs_on_fst)
qed

lemma logs_next: "logs lg k 1 f \<Longrightarrow> (\<And>x. logs lg k' n (g x)) \<Longrightarrow> k' = Suc k \<Longrightarrow> logs lg k (Suc n) (bind_a f g)"
  using logs_bind [of lg k 1 f n g] by simp

lemma applyDiff_logs: "logs (snd \<circ> snd) 0 7 (applyDiff (traced M) e cur state)"
proof -
  have "logs (snd \<circ> snd) 0 (Suc (Suc (Suc (Suc (Suc (Suc 1))))))
    (bind_a (withdrawPhase (traced M) e rd) (\<lambda>_. bind_a (addBalancersPhase (traced M) bd) (\<lambda>_. bind_a (addAddressesPhase (traced M) e ld) (\<lambda>_.
     bind_a (updateBalancersPhase (traced M) e bd) (\<lambda>_. bind_a (advertisePhase (traced M) e rd) (\<lambda>_.
     bind_a (deleteBalancersPhase (traced M) bd) (\<lambda>_. deleteAddressesPhase (traced M) e ld)))))))" for rd bd ld
    by (rule logs_next phase_logs | simp)+
  then show ?thesis unfolding applyDiff_def Let_def by (simp add: logs_ret numeral_eq_Suc)
qed


end
