(* ===== verification/Dp_Shutdown.thy ===== *)
theory Dp_Shutdown
  imports Dp_SetState
begin

section \<open>Shutdown\<close>

text \<open>
  \<open>Shutdown\<close> takes everything down that the manager knows of, once; a later \<open>SetState\<close> is refused.
\<close>

lemma drop_everything:
  "(\<And>s U. T s = Some U \<Longrightarrow> \<exists>b\<in>set bs. lb_is s b) \<Longrightarrow> drop_all bs T = Map.empty"
  by (auto simp: drop_all_def fun_eq_iff) (metis not_None_eq)

context dp_modules
begin

lemma Shutdown_ok:
  assumes env: "env_ok e" "e_ip_text e = ip_text" and ok: "ok w" and ready: "dp_ready ip_text ifaces (e_link_text e) m (abs w)"
    and handler: "mm_ShutdownHandler M = None"
  shows "\<exists>m' w'. Shutdown M e (m, w) = (Inr (), (m', w')) \<and> ok w' \<and> dm_shutdownOnce m' \<and>
    v_tbl (abs w') = Map.empty \<and> v_paths (abs w') = {#} \<and> (\<forall>la\<in>tracked (dm_addressManager m). \<not> has_addr (abs w') la) \<and>
    (\<forall>b j. \<not> on_links (tracked (dm_addressManager m)) b j \<longrightarrow> v_addrs (abs w') b j = v_addrs (abs w) b j)"
proof -
  let ?m = "m\<lparr>dm_shutdownOnce := True\<rparr>" and ?P = "v_paths (abs w)"
  have inv: "dp_inv ip_text ifaces (e_link_text e) ?m (abs w)" using dp_readyD [OF ready] by (simp add: dp_inv_def)
  obtain cur where cur: "getStateNonThreadSafe M e (?m, w) = (Inr cur, (?m, w))"
    "\<And>ws. \<forall>b\<in>set ws. wf_balancer b \<Longrightarrow> balancer_plan (e_lb_text e) (e_balancers e) (dp_Balancers cur) ws (v_tbl (abs w))"
    "\<And>b s. b \<in> set (dp_Balancers cur) \<Longrightarrow> lb_is s b \<Longrightarrow> bs_Name b = v_name (abs w) s"
    "\<And>ws. \<forall>r\<in>set ws. has_bgp r \<Longrightarrow> route_plan ip_text (e_routes e) (dp_DynamicRoutes cur) ws ?P"
    "set (dp_LinkAddresses cur) = {la \<in> tracked (dm_addressManager ?m). has_addr (abs w) la}"
    by (rule getState_ok [OF env ok inv]) (rule that)
  have bp: "balancer_plan (e_lb_text e) (e_balancers e) (dp_Balancers cur) [] (v_tbl (abs w))" by (rule cur(2)) simp
  have rp: "route_plan ip_text (e_routes e) (dp_DynamicRoutes cur) [] ?P" by (rule cur(4)) simp
  have rs: "\<forall>r\<in>set (dp_DynamicRoutes cur). has_bgp r" "distinct (map route_key (dp_DynamicRoutes cur))"
    "\<forall>r\<in>set (dp_DynamicRoutes cur). \<exists>p. p \<in># ?P \<and> rEqual ip_text p (GetBgpAttributes r)"
    using route_planD(2,4,5) [OF rp] by (simp_all add: comp_def)
  from WithdrawRoutes_ok [OF ok rs] obtain d w1 P where p1: "WithdrawRoutes (mm_Bgp M) ip_text (dp_DynamicRoutes cur) (dm_dynRoutingMng m, w) = (Inr (), (d, w1))"
    "ok w1" "abs w1 = (abs w)\<lparr>v_paths := P\<rparr>" "image_mset (rkey ip_text) P = image_mset (rkey ip_text) ?P - mset (map route_key (dp_DynamicRoutes cur))"
    by blast
  have "mset (map route_key (dp_DynamicRoutes cur)) = image_mset (rkey ip_text) ?P" using rp by (simp add: route_plan_def)
  then have P: "P = {#}" using p1(4) by simp
  have "\<forall>b\<in>set (dp_Balancers cur). \<exists>s U. lb_is s b \<and> v_tbl (abs w1) s = Some U"
    using planD(3,5) [OF bp] p1(3) by (auto simp: wf_balancer_def) metis
  from DeleteBalancers_ok [OF p1(2) this planD(4) [OF bp]] obtain w2 where p2: "DeleteBalancers M (dp_Balancers cur) w1 = (Inr (), w2)" "ok w2"
    "abs w2 = (abs w1)\<lparr>v_tbl := drop_all (dp_Balancers cur) (v_tbl (abs w1))\<rparr>" by blast
  have am: "am_inv (e_link_text e) (dm_addressManager m)" "\<forall>la\<in>set (dp_LinkAddresses cur). la_LinkName la \<in> ifaces"
    using inv cur(5) by (auto simp: dp_inv_def)
  from DeleteAddresses_ok [OF p2(2) am] obtain a w3 where
    p3: "DeleteAddresses (mm_AddressTable M) (e_link_text e) (dp_LinkAddresses cur) (dm_addressManager m, w2) = (Inr (), (a, w3))" "ok w3"
    "abs w3 = (abs w2)\<lparr>v_addrs := (\<lambda>b j. v_addrs (abs w2) b j \<and> \<not> on_links (set (dp_LinkAddresses cur)) b j)\<rparr>"
    unfolding on_links_def by blast
  have "Shutdown M e (m, w) = (Inr (), (?m\<lparr>dm_dynRoutingMng := d, dm_addressManager := a\<rparr>, w3))"
    using ready cur(1) p1(1) p2(1) p3(1) handler env(2) by (simp add: Shutdown_def dp_ready_def defaultShutdownHandler_def)
  moreover have "drop_all (dp_Balancers cur) (v_tbl (abs w)) = Map.empty"
    using planD(5) [OF bp] by (intro drop_everything) blast
  then have "v_tbl (abs w3) = Map.empty" "v_paths (abs w3) = {#}" using p3(3) p2(3) p1(3) P by simp_all
  moreover have addrs: "v_addrs (abs w3) = (\<lambda>b j. v_addrs (abs w) b j \<and> \<not> on_links (set (dp_LinkAddresses cur)) b j)"
    using p3(3) p2(3) p1(3) by simp
  have "\<forall>la\<in>tracked (dm_addressManager m). \<not> has_addr (abs w3) la"
    using cur(5) on_links_self unfolding has_addr_def addrs by fastforce
  moreover have "v_addrs (abs w3) b j = v_addrs (abs w) b j" if "\<not> on_links (tracked (dm_addressManager m)) b j" for b j
    using that cur(5) unfolding addrs on_links_def by auto
  ultimately show ?thesis using p3(2) by (intro exI [of _ "?m\<lparr>dm_dynRoutingMng := d, dm_addressManager := a\<rparr>"] exI [of _ w3]) simp
qed

end

text \<open>
  C4: Shutting down withdraws every route, deletes every service and removes every address the
  manager has added, leaves all other addresses alone, and is final: every later \<open>SetState\<close> fails and
  every later \<open>Shutdown\<close> succeeds, neither changing anything.
\<close>

theorem shutdown_clears:
  fixes e :: "('k, 'l) dp_env" and M
  assumes "env_ok e" and "mock_ok w" and "dp_ready (e_ip_text e) {''lo''} (e_link_text e) m (mock_view w)"
  defines "M \<equiv> mock_modules (NoOpBgpModule (e_ip_text e))"
  shows "\<exists>m' w'. Shutdown M e (m, w) = (Inr (), (m', w')) \<and> mw_Services w' = [] \<and> mw_bgp w' = [] \<and>
    (\<forall>la\<in>tracked (dm_addressManager m). \<not> has_addr (mock_view w') la) \<and>
    (\<forall>b j. \<not> on_links (tracked (dm_addressManager m)) b j \<longrightarrow> v_addrs (mock_view w') b j = v_addrs (mock_view w) b j) \<and>
    (\<forall>e' state. SetState M e' state (m', w') = (fail ''state cannot by applied after shutdown.'', (m', w'))) \<and>
    Shutdown M e (m', w') = (Inr (), (m', w'))"
proof -
  have "mm_ShutdownHandler M = None" by (simp add: M_def mock_modules_def)
  from noop_store.world.Shutdown_ok [OF assms(1) refl assms(2,3) this [unfolded M_def]] obtain m' w' where
    run: "Shutdown M e (m, w) = (Inr (), (m', w'))" "mock_ok w'" "dm_shutdownOnce m'" and
    v: "v_tbl (mock_view w') = Map.empty" "v_paths (mock_view w') = {#}" and
    rest: "\<forall>la\<in>tracked (dm_addressManager m). \<not> has_addr (mock_view w') la"
    "\<forall>b j. \<not> on_links (tracked (dm_addressManager m)) b j \<longrightarrow> v_addrs (mock_view w') b j = v_addrs (mock_view w) b j"
    unfolding M_def by blast
  have "mw_Services w' = []"
  proof (cases "mw_Services w'")
    case (Cons d ds)
    then have "v_tbl (mock_view w') (mi_service d) \<noteq> None" by (simp add: mock_view_def IPVSServicesEqual_def)
    with v(1) show ?thesis by simp
  qed
  moreover have "mw_bgp w' = []" using v(2) by (simp add: mock_view_def)
  ultimately show ?thesis using run rest by (intro exI [of _ m'] exI [of _ w']) (simp add: SetState_def Shutdown_def)
qed

theorem shutdown_clears_witness:
  "\<exists>m' w'. Shutdown (mock_modules (NoOpBgpModule (e_ip_text sample_env))) sample_env (NewDpManager 0, new_mock_world) = (Inr (), (m', w')) \<and>
     SetState (mock_modules (NoOpBgpModule (e_ip_text sample_env))) sample_env sample_dp (m', w') =
       (fail ''state cannot by applied after shutdown.'', (m', w'))"
proof -
  have "dp_ready (e_ip_text sample_env) {''lo''} (e_link_text sample_env) (NewDpManager 0) (mock_view new_mock_world)"
    by (rule new_manager_ready) (simp add: sample_env_def)
  from shutdown_clears [OF sample_env_ok new_world_ok this] show ?thesis by blast
qed

end
