(* ===== verification/Ipvs_Types.thy ===== *)
theory Ipvs_Types
  imports Dp_Modules
begin

unbundle bit_operations_syntax

section \<open>kglb/data\_plane: ipvs\_mqliang\_types.go\<close>

text \<open>
  The conversions between the messages of kglb and the structures of libipvs. The library is not
  part of the repository: its constants and the names it gives address families are a record
  \<open>libipvs\<close>, and what the code relies on is \<open>libipvs_ok\<close>: every flag has bits, different flags share
  none, the two forwarding methods differ, and the families have the names "inet" and "inet6". Of its
  structures the model has the fields the source uses. \<open>AF_INET\<close>, \<open>IPPROTO_TCP\<close> and their like are
  the numbers of Go's package syscall on Linux.
\<close>

subsection \<open>The structures of the library\<close>

record libipvs =
  IP_VS_SVC_F_PERSISTENT :: u32
  IP_VS_SVC_F_HASHED :: u32
  IP_VS_SVC_F_ONEPACKET :: u32
  IP_VS_SVC_F_SCHED_SH_FALLBACK :: u32
  IP_VS_SVC_F_SCHED_SH_PORT :: u32
  IP_VS_CONN_F_TUNNEL :: int
  IP_VS_CONN_F_MASQ :: int
  AddressFamily_String :: "int \<Rightarrow> string"

record lib_Flags =
  lf_Flags :: u32
  lf_Mask :: u32

record lib_Stats =
  ls_Connections :: nat
  ls_PacketsIn :: nat
  ls_PacketsOut :: nat
  ls_BytesIn :: nat
  ls_BytesOut :: nat
  ls_CPS :: nat
  ls_PPSIn :: nat
  ls_PPSOut :: nat
  ls_BPSIn :: nat
  ls_BPSOut :: nat

record lib_Service =
  lsv_Address :: net_ip
  lsv_Protocol :: int
  lsv_Port :: u16
  lsv_FWMark :: u32
  lsv_SchedName :: string
  lsv_Flags :: lib_Flags
  lsv_Netmask :: u32
  lsv_AddressFamily :: int
  lsv_Stats :: lib_Stats

record lib_Destination =
  ld_Address :: net_ip
  ld_Port :: u16
  ld_Weight :: u32
  ld_AddressFamily :: int
  ld_FwdMethod :: int
  ld_Stats :: lib_Stats
  ld_ActiveConns :: nat
  ld_InactConns :: nat
  ld_PersistConns :: nat

abbreviation sys_AF_INET :: int where "sys_AF_INET \<equiv> 2"
abbreviation sys_AF_INET6 :: int where "sys_AF_INET6 \<equiv> 10"
abbreviation sys_IPPROTO_TCP :: int where "sys_IPPROTO_TCP \<equiv> 6"
abbreviation sys_IPPROTO_UDP :: int where "sys_IPPROTO_UDP \<equiv> 17"

definition zero_lib_Stats :: lib_Stats where
  "zero_lib_Stats = \<lparr>ls_Connections = 0, ls_PacketsIn = 0, ls_PacketsOut = 0, ls_BytesIn = 0, ls_BytesOut = 0,
     ls_CPS = 0, ls_PPSIn = 0, ls_PPSOut = 0, ls_BPSIn = 0, ls_BPSOut = 0\<rparr>"

subsection \<open>Flags\<close>

fun IpvsService_Flag_value :: "IpvsService_Flag \<Rightarrow> int" where
  "IpvsService_Flag_value EMPTY = 0"
| "IpvsService_Flag_value PERSISTENT = 1"
| "IpvsService_Flag_value HASHED = 2"
| "IpvsService_Flag_value ONEPACKET = 3"
| "IpvsService_Flag_value SCHED1 = 4"
| "IpvsService_Flag_value SCHED2 = 5"
| "IpvsService_Flag_value SCHED3 = 6"
| "IpvsService_Flag_value SH_FALLBACK = 7"
| "IpvsService_Flag_value SH_PORT = 8"
| "IpvsService_Flag_value SH_NOPORT = 9"
| "IpvsService_Flag_value (Flag_num n) = n"

definition supportedFlags :: "libipvs \<Rightarrow> (IpvsService_Flag, u32) gomap" where
  "supportedFlags L =
     [(PERSISTENT, IP_VS_SVC_F_PERSISTENT L), (HASHED, IP_VS_SVC_F_HASHED L), (ONEPACKET, IP_VS_SVC_F_ONEPACKET L),
      (SH_FALLBACK, IP_VS_SVC_F_SCHED_SH_FALLBACK L), (SH_PORT, IP_VS_SVC_F_SCHED_SH_PORT L)]"

fun libFlagLoop :: "libipvs \<Rightarrow> IpvsService_Flag list \<Rightarrow> u32 \<Rightarrow> u32 result" where
  "libFlagLoop L [] flags = Inr flags"
| "libFlagLoop L (kglbFlag # kglbFlags) flags =
     (case map_of (supportedFlags L) kglbFlag of
        None \<Rightarrow> fail ''Unsupported kglb flag''
      | Some libIpvsFlag \<Rightarrow> libFlagLoop L kglbFlags (flags OR libIpvsFlag))"

definition toLibIpvsFlags :: "libipvs \<Rightarrow> IpvsService_Flag list \<Rightarrow> lib_Flags result" where
  "toLibIpvsFlags L kglbFlags =
     bind_r (libFlagLoop L kglbFlags 0) (\<lambda>flags. Inr \<lparr>lf_Flags = flags, lf_Mask = NOT 0\<rparr>)"

fun kglbFlagLoop :: "(IpvsService_Flag \<times> u32) list \<Rightarrow> u32 \<Rightarrow> IpvsService_Flag list \<times> u32" where
  "kglbFlagLoop [] flags = ([], flags)"
| "kglbFlagLoop ((kglbFlag, libIpvsFlag) # entries) flags =
     (if flags AND libIpvsFlag \<noteq> 0
      then (case kglbFlagLoop entries (flags XOR libIpvsFlag) of (kglbFlags, left) \<Rightarrow> (kglbFlag # kglbFlags, left))
      else kglbFlagLoop entries flags)"

definition toKglbFlags ::
  "libipvs \<Rightarrow> (IpvsService_Flag \<times> u32) range_order \<Rightarrow> lib_Flags \<Rightarrow> IpvsService_Flag list result" where
  "toKglbFlags L r ipvsFlags =
     (if lf_Mask ipvsFlags \<noteq> NOT 0 then fail ''Unsupported mask''
      else
        let flags = lf_Flags ipvsFlags;
            flags = (if flags AND IP_VS_SVC_F_HASHED L \<noteq> 0 then flags XOR IP_VS_SVC_F_HASHED L else flags);
            (kglbFlags, left) = kglbFlagLoop (r 0 (supportedFlags L)) flags
        in if left \<noteq> 0 then fail ''Unsupported flags left''
           else Inr (sort_key IpvsService_Flag_value kglbFlags))"

subsection \<open>Services and real servers\<close>

definition libipvsTokglbStats :: "lib_Stats \<Rightarrow> Stats" where
  "libipvsTokglbStats stats =
     \<lparr>st_ConnectionsCount = of_nat (ls_Connections stats), st_PacketsInCount = of_nat (ls_PacketsIn stats),
      st_PacketsOutCount = of_nat (ls_PacketsOut stats), st_BytesInCount = of_nat (ls_BytesIn stats),
      st_BytesOutCount = of_nat (ls_BytesOut stats), st_ConnectionsRate = of_nat (ls_CPS stats),
      st_PacketsInRate = of_nat (ls_PPSIn stats), st_PacketsOutRate = of_nat (ls_PPSOut stats),
      st_BytesInRate = of_nat (ls_BPSIn stats), st_BytesOutRate = of_nat (ls_BPSOut stats),
      st_ActiveConnsCount = 0, st_InactConnsCount = 0, st_PersistConnsCount = 0\<rparr>"

definition tokglbIPVSScheduler :: "string \<Rightarrow> IpvsService_Scheduler result" where
  "tokglbIPVSScheduler scheduler =
     (if scheduler = ''rr'' then Inr RR else if scheduler = ''wrr'' then Inr WRR
      else if scheduler = ''ip_vs_sch'' then Inr IP_VS_SCH else fail ''unknown libipvs ipvs scheduler'')"

definition tolibIPVSScheduler :: "IpvsService_Scheduler \<Rightarrow> string result" where
  "tolibIPVSScheduler scheduler =
     (case scheduler of RR \<Rightarrow> Inr ''rr'' | WRR \<Rightarrow> Inr ''wrr'' | IP_VS_SCH \<Rightarrow> Inr ''ip_vs_sch''
      | Scheduler_num n \<Rightarrow> fail ''unknown kglb ipvs scheduler'')"

datatype IPProtocol = IPProtocol_TCP | IPProtocol_UDP

definition libipvsProtocolTokglbProtocol :: "int \<Rightarrow> IPProtocol result" where
  "libipvsProtocolTokglbProtocol protocol =
     (if protocol = sys_IPPROTO_TCP then Inr IPProtocol_TCP else if protocol = sys_IPPROTO_UDP then Inr IPProtocol_UDP
      else fail ''unknown libipvs protocol'')"

definition tokglbUpstreamForwardMethod :: "libipvs \<Rightarrow> int \<Rightarrow> ForwardMethods result" where
  "tokglbUpstreamForwardMethod L fwdMethod =
     (if fwdMethod = IP_VS_CONN_F_TUNNEL L then Inr TUNNEL else if fwdMethod = IP_VS_CONN_F_MASQ L then Inr MASQ
      else fail ''unknown forward method'')"

definition tolibForwardMethod :: "libipvs \<Rightarrow> ForwardMethods \<Rightarrow> int result" where
  "tolibForwardMethod L fwdMethod =
     (case fwdMethod of TUNNEL \<Rightarrow> Inr (IP_VS_CONN_F_TUNNEL L) | MASQ \<Rightarrow> Inr (IP_VS_CONN_F_MASQ L)
      | ForwardMethods_num n \<Rightarrow> fail ''unknown forward method'')"

definition tokglbAddressFamily :: "libipvs \<Rightarrow> int \<Rightarrow> AddressFamily" where
  "tokglbAddressFamily L family = (if AddressFamily_String L family = ''inet6'' then AF_INET6 else AF_INET)"

definition tolibAddressFamily :: "AddressFamily \<Rightarrow> int" where
  "tolibAddressFamily family = (if family = AF_INET6 then sys_AF_INET6 else sys_AF_INET)"

definition netmaskByAddressFamily :: "int \<Rightarrow> u32" where
  "netmaskByAddressFamily af = (if af = sys_AF_INET6 then 128 else 0)"

definition ipToLibipvsAddressFamily :: "net_ip \<Rightarrow> int" where
  "ipToLibipvsAddressFamily ip = (if To4 ip \<noteq> None then sys_AF_INET else sys_AF_INET6)"

definition tokglbVirtualService ::
  "libipvs \<Rightarrow> (IpvsService_Flag \<times> u32) range_order \<Rightarrow> lib_Service \<Rightarrow> IpvsService result" where
  "tokglbVirtualService L r service =
     bind_r (tokglbIPVSScheduler (lsv_SchedName service)) (\<lambda>scheduler.
     bind_r (toKglbFlags L r (lsv_Flags service)) (\<lambda>flags.
     if lsv_FWMark service \<noteq> 0 then
       Inr \<lparr>ipvs_Attributes = Some (FwmarkAttributes (Some
              \<lparr>fw_AddressFamily = tokglbAddressFamily L (lsv_AddressFamily service), fw_Fwmark = lsv_FWMark service\<rparr>)),
            ipvs_Scheduler = scheduler, ipvs_Flags = flags\<rparr>
     else
       bind_r (libipvsProtocolTokglbProtocol (lsv_Protocol service)) (\<lambda>protocol.
       Inr \<lparr>ipvs_Attributes = Some (case protocol of
              IPProtocol_TCP \<Rightarrow> TcpAttributes (Some
                \<lparr>tcp_Address = Some (NetIpToKglbAddr (lsv_Address service)), tcp_Port = ucast (lsv_Port service)\<rparr>)
            | IPProtocol_UDP \<Rightarrow> UdpAttributes (Some
                \<lparr>udp_Address = Some (NetIpToKglbAddr (lsv_Address service)), udp_Port = ucast (lsv_Port service)\<rparr>)),
            ipvs_Scheduler = scheduler, ipvs_Flags = flags\<rparr>)))"

definition tokglbRealServer :: "libipvs \<Rightarrow> lib_Destination \<Rightarrow> UpstreamState result" where
  "tokglbRealServer L destination =
     bind_r (tokglbUpstreamForwardMethod L (ld_FwdMethod destination)) (\<lambda>fwd.
     Inr \<lparr>us_Address = Some (NetIpToKglbAddr (ld_Address destination)), us_Port = ucast (ld_Port destination),
          us_Hostname = [], us_Weight = ld_Weight destination, us_ForwardMethod = fwd\<rparr>)"

definition toLibipvsDestination :: "libipvs \<Rightarrow> UpstreamState \<Rightarrow> lib_Destination result" where
  "toLibipvsDestination L realServer =
     (let ip = KglbAddrToNetIp (us_Address realServer) in
      bind_r (tolibForwardMethod L (us_ForwardMethod realServer)) (\<lambda>fwd.
      Inr \<lparr>ld_Address = ip, ld_Port = ucast (us_Port realServer), ld_Weight = us_Weight realServer,
           ld_AddressFamily = ipToLibipvsAddressFamily ip, ld_FwdMethod = fwd, ld_Stats = zero_lib_Stats,
           ld_ActiveConns = 0, ld_InactConns = 0, ld_PersistConns = 0\<rparr>))"

text \<open>
  A service with TCP or fwmark attributes that are nil panics; for UDP the source uses the nil-safe
  getter for the port and goes on.
\<close>

definition toLibipvsService :: "libipvs \<Rightarrow> IpvsService \<Rightarrow> lib_Service result" where
  "toLibipvsService L service =
     bind_r (tolibIPVSScheduler (ipvs_Scheduler service)) (\<lambda>sched.
     bind_r (toLibIpvsFlags L (ipvs_Flags service)) (\<lambda>flags.
     let endpoint = (\<lambda>addr protocol port.
           let vip = KglbAddrToNetIp addr; af = ipToLibipvsAddressFamily vip in
           \<lparr>lsv_Address = vip, lsv_Protocol = protocol, lsv_Port = ucast (port :: u32), lsv_FWMark = 0, lsv_SchedName = sched,
            lsv_Flags = flags, lsv_Netmask = netmaskByAddressFamily af, lsv_AddressFamily = af, lsv_Stats = zero_lib_Stats\<rparr>) in
     case ipvs_Attributes service of
       Some (TcpAttributes None) \<Rightarrow> nilDeref
     | Some (TcpAttributes (Some attr)) \<Rightarrow> Inr (endpoint (tcp_Address attr) sys_IPPROTO_TCP (tcp_Port attr))
     | Some (UdpAttributes None) \<Rightarrow> Inr (endpoint None sys_IPPROTO_UDP 0)
     | Some (UdpAttributes (Some attr)) \<Rightarrow> Inr (endpoint (udp_Address attr) sys_IPPROTO_UDP (udp_Port attr))
     | Some (FwmarkAttributes None) \<Rightarrow> nilDeref
     | Some (FwmarkAttributes (Some attr)) \<Rightarrow>
         (let af = tolibAddressFamily (fw_AddressFamily attr) in
          Inr \<lparr>lsv_Address = [], lsv_Protocol = 0, lsv_Port = 0, lsv_FWMark = fw_Fwmark attr, lsv_SchedName = sched,
               lsv_Flags = flags, lsv_Netmask = netmaskByAddressFamily af, lsv_AddressFamily = af, lsv_Stats = zero_lib_Stats\<rparr>)
     | None \<Rightarrow> fail ''Unknown attributes type''))"

subsection \<open>What the code relies on\<close>

definition flags_disjoint :: "(IpvsService_Flag \<times> u32) list \<Rightarrow> bool" where
  "flags_disjoint S \<longleftrightarrow> (\<forall>(f, a)\<in>set S. a \<noteq> 0 \<and> (\<forall>(g, b)\<in>set S. f \<noteq> g \<longrightarrow> a AND b = 0))"

definition libipvs_ok :: "libipvs \<Rightarrow> bool" where
  "libipvs_ok L \<longleftrightarrow> flags_disjoint (supportedFlags L) \<and> IP_VS_CONN_F_TUNNEL L \<noteq> IP_VS_CONN_F_MASQ L \<and>
     AddressFamily_String L sys_AF_INET = ''inet'' \<and> AddressFamily_String L sys_AF_INET6 = ''inet6''"

text \<open>The constants of the Linux kernel.\<close>

definition linux_ipvs :: libipvs where
  "linux_ipvs = \<lparr>IP_VS_SVC_F_PERSISTENT = 1, IP_VS_SVC_F_HASHED = 2, IP_VS_SVC_F_ONEPACKET = 4,
     IP_VS_SVC_F_SCHED_SH_FALLBACK = 8, IP_VS_SVC_F_SCHED_SH_PORT = 16, IP_VS_CONN_F_TUNNEL = 2, IP_VS_CONN_F_MASQ = 0,
     AddressFamily_String = (\<lambda>af. if af = sys_AF_INET6 then ''inet6'' else ''inet'')\<rparr>"

lemma linux_ipvs_ok: "libipvs_ok linux_ipvs"
  by (simp add: libipvs_ok_def linux_ipvs_def flags_disjoint_def supportedFlags_def)

subsection \<open>Flags as sets of bits\<close>

text \<open>\<open>masks S A x\<close>: the bits of \<open>x\<close> are those of the flags in \<open>A\<close>.\<close>

definition masks :: "(IpvsService_Flag \<times> u32) list \<Rightarrow> IpvsService_Flag set \<Rightarrow> u32 \<Rightarrow> bool" where
  "masks S A x \<longleftrightarrow> (\<forall>n. bit x n \<longleftrightarrow> (\<exists>(f, a)\<in>set S. f \<in> A \<and> bit a n))"

lemma disjoint_bits: "flags_disjoint S \<Longrightarrow> (f, a) \<in> set S \<Longrightarrow> (g, b) \<in> set S \<Longrightarrow> bit a n \<Longrightarrow> bit b n \<Longrightarrow> f = g"
proof (rule ccontr)
  assume "flags_disjoint S" "(f, a) \<in> set S" "(g, b) \<in> set S" "f \<noteq> g"
  then have "a AND b = 0" unfolding flags_disjoint_def by fastforce
  moreover assume "bit a n" "bit b n"
  then have "bit (a AND b) n" by (simp add: bit_and_iff)
  ultimately show False by simp
qed

lemma masks_add:
  assumes "masks S A x" and "wf_map S" and "(f, a) \<in> set S"
  shows "masks S (insert f A) (x OR a)"
proof -
  have "b = a" if "(f, b) \<in> set S" for b using that assms(2,3) by (metis wf_map_lookup option.inject)
  then have "(\<exists>(g, b)\<in>set S. g \<in> insert f A \<and> bit b n) \<longleftrightarrow> (\<exists>(g, b)\<in>set S. g \<in> A \<and> bit b n) \<or> bit a n" for n
    using assms(3) by blast
  then show ?thesis using assms(1) unfolding masks_def bit_or_iff by simp
qed

lemma nonzero_bit: "x \<noteq> 0 \<Longrightarrow> \<exists>n. bit x n" for x :: u32
  using bit_word_eqI [of x 0] by auto

lemma masks_test:
  assumes "masks S A x" and "flags_disjoint S" and "(f, a) \<in> set S"
  shows "x AND a \<noteq> 0 \<longleftrightarrow> f \<in> A"
proof
  assume "x AND a \<noteq> 0"
  then obtain n where "bit x n" "bit a n" using nonzero_bit [of "x AND a"] by (auto simp: bit_and_iff)
  then obtain g b where "(g, b) \<in> set S" "g \<in> A" "bit b n" using assms(1) unfolding masks_def by blast
  then show "f \<in> A" using disjoint_bits [OF assms(2,3)] \<open>bit a n\<close> by metis
next
  assume f: "f \<in> A"
  have "a \<noteq> 0" using assms(2,3) unfolding flags_disjoint_def by blast
  then obtain n where "bit a n" using nonzero_bit by blast
  then have "bit x n" using f assms(1,3) unfolding masks_def by blast
  with \<open>bit a n\<close> have "bit (x AND a) n" by (simp add: bit_and_iff)
  then show "x AND a \<noteq> 0" by auto
qed

lemma masks_remove:
  assumes "masks S A x" and "flags_disjoint S" and "wf_map S" and "(f, a) \<in> set S"
  shows "masks S (A - {f}) (if x AND a \<noteq> 0 then x XOR a else x)"
proof (cases "f \<in> A")
  case True
  have one: "b = a" if "(f, b) \<in> set S" for b using that assms(3,4) by (metis wf_map_lookup option.inject)
  have "bit (x XOR a) n \<longleftrightarrow> (\<exists>(g, b)\<in>set S. g \<in> A - {f} \<and> bit b n)" for n
  proof (cases "bit a n")
    case True
    then have "bit x n" using assms(1,4) \<open>f \<in> A\<close> unfolding masks_def by blast
    moreover have "\<not> (\<exists>(g, b)\<in>set S. g \<in> A - {f} \<and> bit b n)" using disjoint_bits [OF assms(2,4)] True by fastforce
    ultimately show ?thesis using True by (simp add: bit_xor_iff)
  next
    case False
    then have "bit (x XOR a) n = bit x n" by (simp add: bit_xor_iff)
    also have "\<dots> \<longleftrightarrow> (\<exists>(g, b)\<in>set S. g \<in> A \<and> bit b n)" using assms(1) unfolding masks_def by blast
    also have "\<dots> \<longleftrightarrow> (\<exists>(g, b)\<in>set S. g \<in> A - {f} \<and> bit b n)" using one False by blast
    finally show ?thesis .
  qed
  then show ?thesis using True masks_test [OF assms(1,2,4)] unfolding masks_def by simp
next
  case False
  then show ?thesis using assms(1) masks_test [OF assms(1,2,4)] by simp
qed

lemma masks_none: "masks S {} x \<Longrightarrow> x = 0"
  unfolding masks_def by (auto intro: bit_word_eqI)

lemma kglbFlagLoop_masks:
  assumes "masks S A x" and "flags_disjoint S" and "wf_map S" and "set es \<subseteq> set S" and "distinct (map fst es)"
  shows "\<exists>left. kglbFlagLoop es x = (map fst (filter (\<lambda>(f, a). f \<in> A) es), left) \<and> masks S (A - fst ` set es) left"
  using assms(1,4,5)
proof (induction es arbitrary: x A)
  case (Cons e es)
  obtain f a where e: "e = (f, a)" by fastforce
  let ?x = "if x AND a \<noteq> 0 then x XOR a else x"
  have mem: "(f, a) \<in> set S" using Cons.prems(2) e by simp
  from Cons.IH [OF masks_remove [OF Cons.prems(1) assms(2,3) mem]] Cons.prems(2,3) obtain left where
    IH: "kglbFlagLoop es ?x = (map fst (filter (\<lambda>(g, b). g \<in> A - {f}) es), left)" "masks S (A - {f} - fst ` set es) left" by auto
  have "filter (\<lambda>(g, b). g \<in> A - {f}) es = filter (\<lambda>(g, b). g \<in> A) es"
    using Cons.prems(3) e by (intro filter_cong) (auto simp: rev_image_eqI)
  moreover have "A - {f} - fst ` set es = A - fst ` set (e # es)" using e by auto
  ultimately show ?case using IH masks_test [OF Cons.prems(1) assms(2) mem] e by (auto split: if_splits)
qed simp

lemma libFlagLoop_masks:
  assumes "masks (supportedFlags L) A x" and "set fs \<subseteq> dom (map_of (supportedFlags L))"
  shows "\<exists>y. libFlagLoop L fs x = Inr y \<and> masks (supportedFlags L) (A \<union> set fs) y"
  using assms
proof (induction fs arbitrary: x A)
  case (Cons f fs)
  from Cons.prems(2) obtain a where a: "map_of (supportedFlags L) f = Some a" by auto
  have wf: "wf_map (supportedFlags L)" by (simp add: supportedFlags_def)
  from masks_add [OF Cons.prems(1) wf map_of_SomeD [OF a]] Cons.IH Cons.prems(2) show ?case by (fastforce simp: a)
qed simp

lemma supported_wf [simp]: "wf_map (supportedFlags L)"
  by (simp add: supportedFlags_def)

lemma flag_value_inj: "inj_on IpvsService_Flag_value (fst ` set (supportedFlags L))"
  by (simp add: supportedFlags_def)

lemma unsupported_flags:
  "\<not> set fs \<subseteq> fst ` set (supportedFlags L) \<Longrightarrow> toLibIpvsFlags L fs = fail ''Unsupported kglb flag''"
proof -
  have "libFlagLoop L fs x = fail ''Unsupported kglb flag''" if "\<not> set fs \<subseteq> fst ` set (supportedFlags L)" for x
    using that by (induction fs arbitrary: x) (auto split: option.splits simp: map_of_eq_None_iff dest!: map_of_SomeD intro: rev_image_eqI)
  then show "\<not> set fs \<subseteq> fst ` set (supportedFlags L) \<Longrightarrow> ?thesis" by (simp add: toLibIpvsFlags_def fail_def)
qed

lemma flags_back:
  assumes "libipvs_ok L" and "go_range r"
  shows "bind_r (toLibIpvsFlags L fs) (toKglbFlags L r) =
    (if set fs \<subseteq> fst ` set (supportedFlags L)
     then Inr (sort_key IpvsService_Flag_value (remdups (filter (\<lambda>f. f \<noteq> HASHED) fs)))
     else fail ''Unsupported kglb flag'')"
proof (cases "set fs \<subseteq> fst ` set (supportedFlags L)")
  case True
  let ?S = "supportedFlags L"
  have disj: "flags_disjoint ?S" using assms(1) by (simp add: libipvs_ok_def)
  have "masks ?S {} 0" by (simp add: masks_def)
  from libFlagLoop_masks [OF this, of fs] True obtain x where x: "libFlagLoop L fs 0 = Inr x" "masks ?S (set fs) x"
    by (auto simp: dom_map_of_conv_image_fst)
  have hashed: "(HASHED, IP_VS_SVC_F_HASHED L) \<in> set ?S" by (simp add: supportedFlags_def)
  let ?x = "if x AND IP_VS_SVC_F_HASHED L \<noteq> 0 then x XOR IP_VS_SVC_F_HASHED L else x" and ?A = "set fs - {HASHED}"
  have "set (r 0 ?S) \<subseteq> set ?S" "distinct (map fst (r 0 ?S))" using assms(2) supported_wf [of L] by simp_all
  from kglbFlagLoop_masks [OF masks_remove [OF x(2) disj _ hashed] disj _ this] obtain left where
    loop: "kglbFlagLoop (r 0 ?S) ?x = (map fst (filter (\<lambda>(f, a). f \<in> ?A) (r 0 ?S)), left)" "masks ?S (?A - fst ` set (r 0 ?S)) left" by auto
  have "?A - fst ` set (r 0 ?S) = {}" using True assms(2) by auto
  then have "left = 0" using loop(2) masks_none by metis
  let ?ks = "map fst (filter (\<lambda>(f, a). f \<in> ?A) (r 0 ?S))" and ?fs = "remdups (filter (\<lambda>f. f \<noteq> HASHED) fs)"
  have set: "set ?ks = set ?fs" using True assms(2) by (force simp: image_iff)
  moreover have "distinct ?ks" using assms(2) supported_wf [of L] by (simp add: distinct_map_filter)
  ultimately have "mset ?ks = mset ?fs" by (simp only: set_eq_iff_mset_eq_distinct distinct_remdups)
  moreover have "inj_on IpvsService_Flag_value (set ?ks)"
    using flag_value_inj [of L] by (rule inj_on_subset) (use True set in auto)
  ultimately have "sort_key IpvsService_Flag_value ?ks = sort_key IpvsService_Flag_value ?fs"
    by (intro sort_key_inj_key_eq) simp_all
  then show ?thesis using True x(1) loop(1) \<open>left = 0\<close> by (simp add: toLibIpvsFlags_def toKglbFlags_def Let_def)
next
  case False
  then show ?thesis by (simp add: unsupported_flags fail_def)
qed

text \<open>
  Flags survive the way into the library and back. For every list of supported flags and
  whatever the order in which the map of supported flags is visited, converting to libipvs and back
  gives the same flags, sorted and without repetitions, except for \<open>HASHED\<close>, which is always
  dropped because the kernel sets it itself. Unsupported flags are refused.
\<close>

theorem flags_roundtrip:
  assumes "libipvs_ok L" and "go_range r"
  shows "bind_r (toLibIpvsFlags L fs) (toKglbFlags L r) =
    (if set fs \<subseteq> fst ` set (supportedFlags L)
     then Inr (sort_key IpvsService_Flag_value (remdups (filter (\<lambda>f. f \<noteq> HASHED) fs)))
     else fail ''Unsupported kglb flag'')"
  using assms by (rule flags_back)

theorem flags_roundtrip_witness:
  "bind_r (toLibIpvsFlags linux_ipvs [SH_PORT, HASHED, PERSISTENT, SH_PORT]) (toKglbFlags linux_ipvs (\<lambda>_. rev)) = Inr [PERSISTENT, SH_PORT]"
  using flags_roundtrip [OF linux_ipvs_ok go_range_rev, of "[SH_PORT, HASHED, PERSISTENT, SH_PORT]"]
  by (simp add: supportedFlags_def)

subsection \<open>Services and real servers\<close>

lemma port_roundtrip: "ucast (ucast p :: u16) = p \<longleftrightarrow> unat p < 65536" for p :: u32
proof -
  have "unat (ucast (ucast p :: u16) :: u32) = unat p mod 65536"
    by (simp add: unsigned_ucast_eq take_bit_eq_mod unat_mod)
  then show ?thesis unfolding word_unat_eq_iff by (metis mod_less mod_less_divisor zero_less_numeral)
qed

definition canonical_ip :: "IP option \<Rightarrow> bool" where
  "canonical_ip a \<longleftrightarrow> a = Some (NetIpToKglbAddr (KglbAddrToNetIp a))"

definition canonical_attributes :: "IpvsService_Attributes option \<Rightarrow> bool" where
  "canonical_attributes attrs =
     (case attrs of
        Some (TcpAttributes (Some a)) \<Rightarrow> canonical_ip (tcp_Address a) \<and> unat (tcp_Port a) < 65536
      | Some (UdpAttributes (Some a)) \<Rightarrow> canonical_ip (udp_Address a) \<and> unat (udp_Port a) < 65536
      | Some (FwmarkAttributes (Some a)) \<Rightarrow> fw_Fwmark a \<noteq> 0 \<and> (fw_AddressFamily a = AF_INET \<or> fw_AddressFamily a = AF_INET6)
      | _ \<Rightarrow> False)"

definition canonical_service :: "libipvs \<Rightarrow> IpvsService \<Rightarrow> bool" where
  "canonical_service L s \<longleftrightarrow> (\<forall>n. ipvs_Scheduler s \<noteq> Scheduler_num n) \<and>
     set (ipvs_Flags s) \<subseteq> fst ` set (supportedFlags L) - {HASHED} \<and>
     sorted_wrt (\<lambda>f g. IpvsService_Flag_value f < IpvsService_Flag_value g) (ipvs_Flags s) \<and>
     canonical_attributes (ipvs_Attributes s)"

definition canonical_upstream :: "UpstreamState \<Rightarrow> bool" where
  "canonical_upstream u \<longleftrightarrow> canonical_ip (us_Address u) \<and> unat (us_Port u) < 65536 \<and> us_Hostname u = [] \<and>
     (us_ForwardMethod u = TUNNEL \<or> us_ForwardMethod u = MASQ)"

text \<open>The lists of flags that the way back can produce are those sorted without repetition and without \<open>HASHED\<close>.\<close>

lemma canonical_flags:
  assumes "set fs \<subseteq> fst ` set (supportedFlags L)"
  shows "sort_key IpvsService_Flag_value (remdups (filter (\<lambda>f. f \<noteq> HASHED) fs)) = fs \<longleftrightarrow>
    HASHED \<notin> set fs \<and> sorted_wrt (\<lambda>f g. IpvsService_Flag_value f < IpvsService_Flag_value g) fs"
proof
  let ?s = "sort_key IpvsService_Flag_value (remdups (filter (\<lambda>f. f \<noteq> HASHED) fs))"
  assume eq: "?s = fs"
  have "set ?s = set (filter (\<lambda>f. f \<noteq> HASHED) fs)" "distinct ?s" "sorted (map IpvsService_Flag_value ?s)" by simp_all
  then have set: "set fs = set (filter (\<lambda>f. f \<noteq> HASHED) fs)" and "distinct fs" "sorted (map IpvsService_Flag_value fs)"
    unfolding eq .
  moreover have "inj_on IpvsService_Flag_value (set fs)" using flag_value_inj [of L] assms by (rule inj_on_subset)
  ultimately have "sorted_wrt (<) (map IpvsService_Flag_value fs)" by (simp add: strict_sorted_iff distinct_map)
  then show "HASHED \<notin> set fs \<and> sorted_wrt (\<lambda>f g. IpvsService_Flag_value f < IpvsService_Flag_value g) fs"
    using set by (auto simp: sorted_wrt_map)
next
  assume fs: "HASHED \<notin> set fs \<and> sorted_wrt (\<lambda>f g. IpvsService_Flag_value f < IpvsService_Flag_value g) fs"
  then have "filter (\<lambda>f. f \<noteq> HASHED) fs = fs" by (intro filter_True) auto
  moreover have srt: "sorted_wrt (<) (map IpvsService_Flag_value fs)" using fs by (simp add: sorted_wrt_map)
  then have "sorted (map IpvsService_Flag_value fs)" "distinct fs" by (simp_all add: strict_sorted_iff distinct_map)
  ultimately show "sort_key IpvsService_Flag_value (remdups (filter (\<lambda>f. f \<noteq> HASHED) fs)) = fs"
    by (simp add: distinct_remdups_id sort_key_id_if_sorted)
qed

lemma scheduler_roundtrip:
  "tolibIPVSScheduler sched = Inr name \<Longrightarrow> tokglbIPVSScheduler name = Inr sched"
  "(\<exists>name. tolibIPVSScheduler sched = Inr name) \<longleftrightarrow> (\<forall>n. sched \<noteq> Scheduler_num n)"
proof -
  show "tolibIPVSScheduler sched = Inr name \<Longrightarrow> tokglbIPVSScheduler name = Inr sched"
    by (cases sched) (auto simp: tolibIPVSScheduler_def tokglbIPVSScheduler_def fail_def)
  show "(\<exists>name. tolibIPVSScheduler sched = Inr name) \<longleftrightarrow> (\<forall>n. sched \<noteq> Scheduler_num n)"
    by (cases sched) (simp_all add: tolibIPVSScheduler_def fail_def)
qed

lemma family_roundtrip: "libipvs_ok L \<Longrightarrow> tokglbAddressFamily L (tolibAddressFamily af) = af \<longleftrightarrow> af = AF_INET \<or> af = AF_INET6"
  by (cases af) (simp_all add: libipvs_ok_def tokglbAddressFamily_def tolibAddressFamily_def)

lemma service_eq: "\<lparr>ipvs_Attributes = A, ipvs_Scheduler = C, ipvs_Flags = F\<rparr> = s \<longleftrightarrow>
    A = ipvs_Attributes s \<and> C = ipvs_Scheduler s \<and> F = ipvs_Flags s"
  by (cases s) auto

lemma attributes_roundtrip:
  assumes L: "libipvs_ok L" and "tolibIPVSScheduler (ipvs_Scheduler s) = Inr sched" and "toLibIpvsFlags L (ipvs_Flags s) = Inr F"
    and "toKglbFlags L r F = Inr fs"
  shows "bind_r (toLibipvsService L s) (tokglbVirtualService L r) = Inr s \<longleftrightarrow> fs = ipvs_Flags s \<and> canonical_attributes (ipvs_Attributes s)"
proof -
  note defs = toLibipvsService_def tokglbVirtualService_def assms(2-4) scheduler_roundtrip(1) [OF assms(2)] Let_def
    canonical_attributes_def libipvsProtocolTokglbProtocol_def service_eq canonical_ip_def port_roundtrip nilDeref_def fail_def
  show ?thesis
  proof (cases "ipvs_Attributes s" rule: attrs_cases)
    case (3 a)
    then show ?thesis by (cases a) (auto simp: defs simp del: bind_r_eq_Inr)
  next
    case 4
    then show ?thesis by (simp add: defs del: bind_r_eq_Inr)
  next
    case (5 a)
    then show ?thesis by (cases a) (auto simp: defs simp del: bind_r_eq_Inr)
  next
    case (7 a)
    then show ?thesis using family_roundtrip [OF L, of "fw_AddressFamily a"] by (cases a) (auto simp: defs simp del: bind_r_eq_Inr)
  qed (simp_all add: defs del: bind_r_eq_Inr)
qed

lemma service_back:
  assumes "libipvs_ok L" and "go_range r"
  shows "bind_r (toLibipvsService L s) (tokglbVirtualService L r) = Inr s \<longleftrightarrow> canonical_service L s"
proof (cases "(\<forall>n. ipvs_Scheduler s \<noteq> Scheduler_num n) \<and> set (ipvs_Flags s) \<subseteq> fst ` set (supportedFlags L)")
  case True
  from True scheduler_roundtrip(2) obtain sched where "tolibIPVSScheduler (ipvs_Scheduler s) = Inr sched" by metis
  moreover from flags_back [OF assms, of "ipvs_Flags s"] True obtain F where "toLibIpvsFlags L (ipvs_Flags s) = Inr F"
    "toKglbFlags L r F = Inr (sort_key IpvsService_Flag_value (remdups (filter (\<lambda>f. f \<noteq> HASHED) (ipvs_Flags s))))" by auto
  ultimately show ?thesis
    using attributes_roundtrip [OF assms(1)] canonical_flags True unfolding canonical_service_def by blast
next
  case False
  then have "\<not> canonical_service L s" by (auto simp: canonical_service_def)
  moreover have "\<not> (\<exists>t. toLibipvsService L s = Inr t)"
  proof
    assume "\<exists>t. toLibipvsService L s = Inr t"
    then obtain sched F where "tolibIPVSScheduler (ipvs_Scheduler s) = Inr sched" "toLibIpvsFlags L (ipvs_Flags s) = Inr F"
      by (auto simp: toLibipvsService_def)
    then have "\<forall>n. ipvs_Scheduler s \<noteq> Scheduler_num n" "bind_r (toLibIpvsFlags L (ipvs_Flags s)) Inr = Inr F"
      using scheduler_roundtrip(2) by auto
    with False show False using unsupported_flags [of "ipvs_Flags s" L] \<open>toLibIpvsFlags L (ipvs_Flags s) = Inr F\<close> by (simp add: fail_def)
  qed
  ultimately show ?thesis by auto
qed

text \<open>
  C31: Which services survive the way into the kernel and back. Converting a service to libipvs and
  back gives the same message exactly for the canonical ones: a known scheduler, supported flags in
  increasing order without \<open>HASHED\<close>, and for TCP and UDP an address in canonical text and a port
  below 65536, for a firewall mark a mark other than 0 and a known family. Every other service is
  refused or comes back as a different one, so that \<open>SetState\<close> never finds it again.
\<close>

theorem service_roundtrip:
  assumes "libipvs_ok L" and "go_range r"
  shows "bind_r (toLibipvsService L s) (tokglbVirtualService L r) = Inr s \<longleftrightarrow> canonical_service L s"
  using assms by (rule service_back)

theorem service_roundtrip_witness:
  "bind_r (toLibipvsService linux_ipvs \<lparr>ipvs_Attributes = Some (FwmarkAttributes (Some \<lparr>fw_AddressFamily = AF_INET6, fw_Fwmark = 10000\<rparr>)),
       ipvs_Scheduler = WRR, ipvs_Flags = [SH_FALLBACK, SH_PORT]\<rparr>) (tokglbVirtualService linux_ipvs (\<lambda>_. rev)) =
     Inr \<lparr>ipvs_Attributes = Some (FwmarkAttributes (Some \<lparr>fw_AddressFamily = AF_INET6, fw_Fwmark = 10000\<rparr>)),
       ipvs_Scheduler = WRR, ipvs_Flags = [SH_FALLBACK, SH_PORT]\<rparr>"
  unfolding service_roundtrip [OF linux_ipvs_ok go_range_rev]
  by (simp add: canonical_service_def supportedFlags_def canonical_attributes_def)

lemma upstream_back:
  assumes "libipvs_ok L"
  shows "bind_r (toLibipvsDestination L u) (tokglbRealServer L) = Inr u \<longleftrightarrow> canonical_upstream u"
  using assms
  by (cases u; cases "us_ForwardMethod u")
     (auto simp: toLibipvsDestination_def tokglbRealServer_def tolibForwardMethod_def tokglbUpstreamForwardMethod_def
       libipvs_ok_def canonical_upstream_def canonical_ip_def port_roundtrip fail_def Let_def)

text \<open>
  Which real servers survive the way into the kernel and back: those with an address in
  canonical text, a port below 65536, a known forwarding method and no host name. Larger ports are
  cut to 16 bits, and the host name is not stored.
\<close>

theorem upstream_roundtrip:
  assumes "libipvs_ok L"
  shows "bind_r (toLibipvsDestination L u) (tokglbRealServer L) = Inr u \<longleftrightarrow> canonical_upstream u"
  using assms by (rule upstream_back)

theorem upstream_roundtrip_witness:
  "bind_r (toLibipvsDestination linux_ipvs \<lparr>us_Address = Some (NetIpToKglbAddr (v4InV6Prefix @ [10, 0, 0, 1])), us_Port = 80, us_Hostname = [],
     us_Weight = 5, us_ForwardMethod = MASQ\<rparr>) (tokglbRealServer linux_ipvs) =
   Inr \<lparr>us_Address = Some (NetIpToKglbAddr (v4InV6Prefix @ [10, 0, 0, 1])), us_Port = 80, us_Hostname = [], us_Weight = 5, us_ForwardMethod = MASQ\<rparr>"
proof -
  have "KglbAddrToNetIp (Some (NetIpToKglbAddr (v4InV6Prefix @ [10, 0, 0, 1]))) = v4InV6Prefix @ [10, 0, 0, 1]"
    by (simp add: NetIpToKglbAddr_def KglbAddrToNetIp_def GetAddress_def ParseIP_String_v4)
  then show ?thesis unfolding upstream_roundtrip [OF linux_ipvs_ok] by (simp add: canonical_upstream_def canonical_ip_def)
qed

end
