(* ===== verification/Ipvs_Mqliang.thy ===== *)
theory Ipvs_Mqliang
  imports Ipvs_Types
begin

section \<open>kglb/data\_plane: ipvs\_mqliang.go\<close>

text \<open>
  The ipvs module of the real data plane, a wrapper of libipvs. The handle of the library is a
  parameter, a record of the calls the wrapper makes on the world behind it.
\<close>

subsection \<open>Definitions\<close>

record 's IPVSHandle =
  ih_NewService :: "lib_Service \<Rightarrow> ('s, unit) act"
  ih_DelService :: "lib_Service \<Rightarrow> ('s, unit) act"
  ih_ListServices :: "('s, lib_Service list) act"
  ih_NewDestination :: "lib_Service \<Rightarrow> lib_Destination \<Rightarrow> ('s, unit) act"
  ih_DelDestination :: "lib_Service \<Rightarrow> lib_Destination \<Rightarrow> ('s, unit) act"
  ih_UpdateDestination :: "lib_Service \<Rightarrow> lib_Destination \<Rightarrow> ('s, unit) act"
  ih_ListDestinations :: "lib_Service \<Rightarrow> ('s, lib_Destination list) act"

record 's IpvsMqliang =
  iq_libIpvs :: "'s IPVSHandle"
  iq_resolver :: "'s ResolverModule"

definition NewIpvsMqLiang :: "'s IPVSHandle result \<Rightarrow> 's ResolverModule \<Rightarrow> 's IpvsMqliang result" where
  "NewIpvsMqLiang NewIPVSHandle resolver =
     bind_r NewIPVSHandle (\<lambda>ipvsLib. Inr \<lparr>iq_libIpvs = ipvsLib, iq_resolver = resolver\<rparr>)"

definition Ipvs_AddService :: "libipvs \<Rightarrow> 's IpvsMqliang \<Rightarrow> IpvsService \<Rightarrow> ('s, unit) act" where
  "Ipvs_AddService L m service =
     bind_a (lift_r (toLibipvsService L service)) (\<lambda>libipvsService. ih_NewService (iq_libIpvs m) libipvsService)"

definition Ipvs_DeleteService :: "libipvs \<Rightarrow> 's IpvsMqliang \<Rightarrow> IpvsService \<Rightarrow> ('s, unit) act" where
  "Ipvs_DeleteService L m service =
     bind_a (lift_r (toLibipvsService L service)) (\<lambda>libipvsService. ih_DelService (iq_libIpvs m) libipvsService)"

definition Ipvs_ListServices ::
  "libipvs \<Rightarrow> (IpvsService_Flag \<times> u32) range_order \<Rightarrow> 's IpvsMqliang \<Rightarrow> ('s, IpvsService list \<times> Stats list) act" where
  "Ipvs_ListServices L r m =
     bind_a (ih_ListServices (iq_libIpvs m)) (\<lambda>services.
     bind_a (map_a (\<lambda>service. lift_r (tokglbVirtualService L r service)) services) (\<lambda>result.
     ret_a (result, map (\<lambda>service. libipvsTokglbStats (lsv_Stats service)) services)))"

definition addRealServer :: "libipvs \<Rightarrow> 's IpvsMqliang \<Rightarrow> IpvsService \<Rightarrow> UpstreamState \<Rightarrow> ('s, unit) act" where
  "addRealServer L m service dst =
     bind_a (lift_r (toLibipvsService L service)) (\<lambda>libIpvsService.
     bind_a (lift_r (toLibipvsDestination L dst)) (\<lambda>libIpvsDst.
     ih_NewDestination (iq_libIpvs m) libIpvsService libIpvsDst))"

definition Ipvs_AddRealServers :: "libipvs \<Rightarrow> 's IpvsMqliang \<Rightarrow> IpvsService \<Rightarrow> UpstreamState list \<Rightarrow> ('s, unit) act" where
  "Ipvs_AddRealServers L m service dsts = each_a (addRealServer L m service) dsts"

definition deleteRealServer :: "libipvs \<Rightarrow> 's IpvsMqliang \<Rightarrow> IpvsService \<Rightarrow> UpstreamState \<Rightarrow> ('s, unit) act" where
  "deleteRealServer L m service dst =
     bind_a (lift_r (toLibipvsService L service)) (\<lambda>libIpvsService.
     bind_a (lift_r (toLibipvsDestination L dst)) (\<lambda>libIpvsDst.
     ih_DelDestination (iq_libIpvs m) libIpvsService libIpvsDst))"

definition Ipvs_DeleteRealServers :: "libipvs \<Rightarrow> 's IpvsMqliang \<Rightarrow> IpvsService \<Rightarrow> UpstreamState list \<Rightarrow> ('s, unit) act" where
  "Ipvs_DeleteRealServers L m service dsts = each_a (deleteRealServer L m service) dsts"

definition updateRealServer :: "libipvs \<Rightarrow> 's IpvsMqliang \<Rightarrow> IpvsService \<Rightarrow> UpstreamState \<Rightarrow> ('s, unit) act" where
  "updateRealServer L m service dst =
     bind_a (lift_r (toLibipvsService L service)) (\<lambda>libIpvsService.
     bind_a (lift_r (toLibipvsDestination L dst)) (\<lambda>libIpvsDst.
     ih_UpdateDestination (iq_libIpvs m) libIpvsService libIpvsDst))"

definition Ipvs_UpdateRealServers :: "libipvs \<Rightarrow> 's IpvsMqliang \<Rightarrow> IpvsService \<Rightarrow> UpstreamState list \<Rightarrow> ('s, unit) act" where
  "Ipvs_UpdateRealServers L m service dsts = each_a (updateRealServer L m service) dsts"

text \<open>A reverse lookup that fails is only reported, and the host name stays empty.\<close>

definition realServerName :: "'s ResolverModule \<Rightarrow> UpstreamState \<Rightarrow> ('s, UpstreamState) act" where
  "realServerName resolver kglbRealServer = (\<lambda>w.
     case rm_ReverseLookup resolver (KglbAddrToNetIp (us_Address kglbRealServer)) w of
       (Inr hostName, w') \<Rightarrow> (Inr (kglbRealServer\<lparr>us_Hostname := hostName\<rparr>), w')
     | (Inl e, w') \<Rightarrow> (if is_panic (Inl e :: unit result) then Inl e else Inr kglbRealServer, w'))"

definition destinationStats :: "lib_Destination \<Rightarrow> Stats" where
  "destinationStats libIpvsDst = (libipvsTokglbStats (ld_Stats libIpvsDst))
     \<lparr>st_ActiveConnsCount := of_nat (ld_ActiveConns libIpvsDst), st_InactConnsCount := of_nat (ld_InactConns libIpvsDst),
      st_PersistConnsCount := of_nat (ld_PersistConns libIpvsDst)\<rparr>"

definition Ipvs_GetRealServers :: "libipvs \<Rightarrow> 's IpvsMqliang \<Rightarrow> IpvsService \<Rightarrow> ('s, UpstreamState list \<times> Stats list) act" where
  "Ipvs_GetRealServers L m service =
     bind_a (lift_r (toLibipvsService L service)) (\<lambda>libIpvsService.
     bind_a (ih_ListDestinations (iq_libIpvs m) libIpvsService) (\<lambda>libIpvsDsts.
     bind_a (map_a (\<lambda>libIpvsDst. bind_a (lift_r (tokglbRealServer L libIpvsDst)) (realServerName (iq_resolver m))) libIpvsDsts) (\<lambda>realServers.
     ret_a (realServers, map destinationStats libIpvsDsts))))"

definition ipvs_module :: "libipvs \<Rightarrow> (IpvsService_Flag \<times> u32) range_order \<Rightarrow> 's IpvsMqliang \<Rightarrow> 's IpvsModule" where
  "ipvs_module L r m =
     \<lparr>im_AddService = Ipvs_AddService L m, im_DeleteService = Ipvs_DeleteService L m, im_ListServices = Ipvs_ListServices L r m,
      im_GetRealServers = Ipvs_GetRealServers L m, im_AddRealServers = Ipvs_AddRealServers L m,
      im_DeleteRealServers = Ipvs_DeleteRealServers L m, im_UpdateRealServers = Ipvs_UpdateRealServers L m\<rparr>"

subsection \<open>What is put into the kernel comes back\<close>

text \<open>
  The kernel's table as the documentation of ipvs has it, as far as the wrapper relies on it: a new
  service is listed with an empty list of real servers, and a new real server is appended to the
  list of its service. \<open>tbl\<close> reads the table of a world.
\<close>

definition kernel_table :: "'s IPVSHandle \<Rightarrow> ('s \<Rightarrow> (lib_Service \<times> lib_Destination list) list) \<Rightarrow> bool" where
  "kernel_table H tbl \<longleftrightarrow>
     (\<forall>s w. s \<notin> fst ` set (tbl w) \<longrightarrow> (\<exists>w'. ih_NewService H s w = (Inr (), w') \<and> tbl w' = tbl w @ [(s, [])])) \<and>
     (\<forall>s d w ds. map_of (tbl w) s = Some ds \<longrightarrow> d \<notin> set ds \<longrightarrow>
        (\<exists>w'. ih_NewDestination H s d w = (Inr (), w') \<and> tbl w' = AList.update s (ds @ [d]) (tbl w))) \<and>
     (\<forall>w. ih_ListServices H w = (Inr (map fst (tbl w)), w)) \<and>
     (\<forall>s w ds. map_of (tbl w) s = Some ds \<longrightarrow> ih_ListDestinations H s w = (Inr ds, w))"

text \<open>What the resolver answers for the address of a real server.\<close>

definition named :: "(net_ip \<Rightarrow> string) \<Rightarrow> UpstreamState \<Rightarrow> UpstreamState" where
  "named name u = u\<lparr>us_Hostname := name (KglbAddrToNetIp (us_Address u))\<rparr>"

lemma destination_back:
  assumes "libipvs_ok L" and "canonical_upstream (u\<lparr>us_Hostname := []\<rparr>)"
  obtains d where "toLibipvsDestination L u = Inr d" "tokglbRealServer L d = Inr (u\<lparr>us_Hostname := []\<rparr>)"
proof -
  have "toLibipvsDestination L (u\<lparr>us_Hostname := []\<rparr>) = toLibipvsDestination L u" by (simp add: toLibipvsDestination_def)
  with assms that show ?thesis using upstream_back [OF assms(1), of "u\<lparr>us_Hostname := []\<rparr>"] by auto
qed

lemma AddRealServers_table:
  assumes K: "kernel_table (iq_libIpvs m) tbl" and s: "toLibipvsService L s = Inr ls"
    and "map_of (tbl w) ls = Some ds" and "list_all2 (\<lambda>u d. toLibipvsDestination L u = Inr d) us dsts" and "distinct (ds @ dsts)"
  shows "\<exists>w'. Ipvs_AddRealServers L m s us w = (Inr (), w') \<and> map fst (tbl w') = map fst (tbl w) \<and> map_of (tbl w') ls = Some (ds @ dsts)"
  using assms(4,3,5)
proof (induction us dsts arbitrary: w ds rule: list_all2_induct)
  case Nil
  then show ?case by (simp add: Ipvs_AddRealServers_def)
next
  case (Cons u us d dsts)
  from K Cons.prems obtain w1 where w1: "ih_NewDestination (iq_libIpvs m) ls d w = (Inr (), w1)" "tbl w1 = AList.update ls (ds @ [d]) (tbl w)"
    unfolding kernel_table_def by (metis disjoint_insert(2) distinct_append list.simps(15))
  have "map_of (tbl w1) ls = Some (ds @ [d])" by (simp add: w1(2))
  moreover have "ls \<in> set (map fst (tbl w))" using Cons.prems(1) by (force dest: map_of_SomeD)
  then have keys: "map fst (tbl w1) = map fst (tbl w)" by (simp add: w1(2) update_keys del: set_map)
  ultimately obtain w' where "Ipvs_AddRealServers L m s us w1 = (Inr (), w')"
    "map fst (tbl w') = map fst (tbl w1)" "map_of (tbl w') ls = Some ((ds @ [d]) @ dsts)" using Cons.IH [of w1 "ds @ [d]"] Cons.prems(2) by auto
  then show ?case using w1(1) keys s Cons.hyps(1) by (auto simp: Ipvs_AddRealServers_def addRealServer_def)
qed

lemma GetRealServers_table:
  assumes "libipvs_ok L" and K: "kernel_table (iq_libIpvs m) tbl" and s: "toLibipvsService L s = Inr ls"
    and name: "\<And>ip w. rm_ReverseLookup (iq_resolver m) ip w = (Inr (name ip), w)" and "map_of (tbl w) ls = Some dsts"
    and "list_all2 (\<lambda>u d. tokglbRealServer L d = Inr (u\<lparr>us_Hostname := []\<rparr>)) us dsts"
  shows "Ipvs_GetRealServers L m s w = (Inr (map (named name) us, map destinationStats dsts), w)"
proof -
  have "map_a (\<lambda>d. bind_a (lift_r (tokglbRealServer L d)) (realServerName (iq_resolver m))) dsts w = (Inr (map (named name) us), w)"
    using assms(6)
  proof (induction us dsts rule: list_all2_induct)
    case (Cons u us d dsts)
    then show ?case by (simp add: realServerName_def name named_def)
  qed simp
  moreover have "ih_ListDestinations (iq_libIpvs m) ls w = (Inr dsts, w)" using K assms(5) unfolding kernel_table_def by blast
  ultimately show ?thesis using s by (simp add: Ipvs_GetRealServers_def)
qed

lemma map_lift: "map_a (\<lambda>x. lift_r (f x)) xs w = (Inr ys, w') \<longleftrightarrow> map f xs = map Inr ys \<and> w' = w"
  by (induction xs arbitrary: ys) (auto simp: bind_a_ok Cons_eq_map_conv)


text \<open>The witness: a kernel table in memory, and a resolver that knows every host by one name.\<close>

definition memory_handle :: "(lib_Service \<times> lib_Destination list) list IPVSHandle" where
  "memory_handle =
     \<lparr>ih_NewService = (\<lambda>s. modify_a (\<lambda>t. t @ [(s, [])])), ih_DelService = (\<lambda>s. modify_a (AList.delete s)),
      ih_ListServices = gets_a (map fst),
      ih_NewDestination = (\<lambda>s d. modify_a (\<lambda>t. AList.update s (the (map_of t s) @ [d]) t)),
      ih_DelDestination = (\<lambda>s d. modify_a (\<lambda>t. AList.update s (remove1 d (the (map_of t s))) t)),
      ih_UpdateDestination = (\<lambda>s d. ret_a ()), ih_ListDestinations = (\<lambda>s. gets_a (\<lambda>t. the (map_of t s)))\<rparr>"

definition memory_ipvs :: "(lib_Service \<times> lib_Destination list) list IpvsMqliang" where
  "memory_ipvs = \<lparr>iq_libIpvs = memory_handle, iq_resolver = \<lparr>rm_Lookup = (\<lambda>_. lift_r (fail [])), rm_ReverseLookup = (\<lambda>_. ret_a ''host''),
     rm_ServiceLookup = (\<lambda>_. ret_a ''svc''), rm_Cluster = (\<lambda>h. h), rm_UpdateCache = (\<lambda>_. ret_a ())\<rparr>\<rparr>"

lemma memory_kernel: "kernel_table (iq_libIpvs memory_ipvs) id"
  by (simp add: kernel_table_def memory_ipvs_def memory_handle_def)

definition mark_service :: IpvsService where
  "mark_service = \<lparr>ipvs_Attributes = Some (FwmarkAttributes (Some \<lparr>fw_AddressFamily = AF_INET, fw_Fwmark = 7\<rparr>)),
     ipvs_Scheduler = WRR, ipvs_Flags = [SH_PORT]\<rparr>"

definition mark_upstream :: UpstreamState where
  "mark_upstream = \<lparr>us_Address = Some (NetIpToKglbAddr (v4InV6Prefix @ [10, 0, 0, 1])), us_Port = 80, us_Hostname = ''x'',
     us_Weight = 5, us_ForwardMethod = MASQ\<rparr>"


end
