(* ===== verification/V2stats.thy ===== *)
theory V2stats
  imports Kglb_Prelude "HOL-Library.List_Lexorder" "HOL-Library.Char_ord"
begin

section \<open>vortex2/v2stats: metrics\<close>

text \<open>
  The metrics kglb exports: tags (util.go), gauges and counters over the prometheus client
  (prometheus.go) and groups of gauges of which only the prepared ones should stay (gauge\_group.go).
  The client is a parameter, operations on a world \<open>'s\<close>; what is relied on is \<open>prometheus_ok\<close>. A float64 is a rational number or NaN (\<open>None\<close>). A mutex that is
  locked twice by one goroutine blocks it for ever: the result \<open>None\<close>.
\<close>

subsection \<open>util.go\<close>

type_synonym KV = "(string, string) gomap"

definition WithTag :: "KV \<Rightarrow> string \<Rightarrow> string \<Rightarrow> KV" where
  "WithTag kv tagName tagValue = AList.update tagName tagValue (fold (\<lambda>(k, v). AList.update k v) kv [])"

fun joinTags :: "(string \<times> string) list \<Rightarrow> string" where
  "joinTags [] = []"
| "joinTags [(key, val)] = key @ ''='' @ val"
| "joinTags ((key, val) # kvs) = key @ ''='' @ val @ '','' @ joinTags kvs"

definition KV_String :: "(string \<times> string) range_order \<Rightarrow> KV \<Rightarrow> string" where
  "KV_String r kv = joinTags (sort_key fst (r 0 kv))"

subsection \<open>prometheus.go\<close>

type_synonym f64 = "rat option"

text \<open>\<open>'d\<close> are the registered vectors of metrics, \<open>'h\<close> the metrics \<open>GetMetricWith\<close> hands out.\<close>

record ('d, 'h, 's) prometheus =
  pr_NewVec :: "string \<Rightarrow> string list \<Rightarrow> ('s, 'd) act"
  pr_GetMetricWith :: "'d \<Rightarrow> KV \<Rightarrow> ('s, 'h) act"
  pr_Set :: "'h \<Rightarrow> rat \<Rightarrow> 's \<Rightarrow> 's"
  pr_Add :: "'h \<Rightarrow> rat \<Rightarrow> 's \<Rightarrow> 's"
  pr_Delete :: "'d \<Rightarrow> KV \<Rightarrow> 's \<Rightarrow> 's"

record ('d, 'h) Gauge =
  ga_Gauge :: 'h
  ga_gauges :: 'd
  ga_labels :: KV

definition Gauge_Clear :: "('d, 'h, 's) prometheus \<Rightarrow> ('d, 'h) Gauge \<Rightarrow> 's \<Rightarrow> 's" where
  "Gauge_Clear P g = pr_Delete P (ga_gauges g) (ga_labels g)"

definition Gauge_Set :: "('d, 'h, 's) prometheus \<Rightarrow> ('d, 'h) Gauge \<Rightarrow> f64 \<Rightarrow> 's \<Rightarrow> 's" where
  "Gauge_Set P g val = (case val of None \<Rightarrow> Gauge_Clear P g | Some v \<Rightarrow> pr_Set P (ga_Gauge g) v)"

record 'd MetricDefinition =
  gd_tagNames :: "string list"
  gd_gauges :: 'd

type_synonym 'd GaugeDefinition = "'d MetricDefinition"
type_synonym 'd CounterDefinition = "'d MetricDefinition"

definition tagLabels :: "string list \<Rightarrow> KV list \<Rightarrow> KV" where
  "tagLabels tagNames kvs =
     fold (\<lambda>tag. fold (\<lambda>kv labels. case map_of kv tag of Some val \<Rightarrow> AList.update tag val labels | None \<Rightarrow> labels) kvs) tagNames []"

definition GaugeDefinition_V :: "('d, 'h, 's) prometheus \<Rightarrow> 'd GaugeDefinition \<Rightarrow> KV list \<Rightarrow> ('s, ('d, 'h) Gauge) act" where
  "GaugeDefinition_V P g kvs =
     (let labels = tagLabels (gd_tagNames g) kvs in
      bind_a (pr_GetMetricWith P (gd_gauges g) labels)
        (\<lambda>m. ret_a \<lparr>ga_Gauge = m, ga_gauges = gd_gauges g, ga_labels = labels\<rparr>))"

definition must :: "('s, 'a) act \<Rightarrow> ('s, 'a) act" where
  "must m = (\<lambda>s. case m s of (Inl e, s') \<Rightarrow> (Inl (Panic ''panic(err)''), s') | (Inr a, s') \<Rightarrow> (Inr a, s'))"

definition GaugeDefinition_Must :: "('d, 'h, 's) prometheus \<Rightarrow> 'd GaugeDefinition \<Rightarrow> KV list \<Rightarrow> ('s, ('d, 'h) Gauge) act" where
  "GaugeDefinition_Must P g kvs = must (GaugeDefinition_V P g kvs)"

definition CounterDefinition_V :: "('d, 'h, 's) prometheus \<Rightarrow> 'd CounterDefinition \<Rightarrow> KV \<Rightarrow> ('s, 'h) act" where
  "CounterDefinition_V P c kvs = pr_GetMetricWith P (gd_gauges c) (tagLabels (gd_tagNames c) [kvs])"

definition CounterDefinition_Must :: "('d, 'h, 's) prometheus \<Rightarrow> 'd CounterDefinition \<Rightarrow> KV \<Rightarrow> ('s, 'h) act" where
  "CounterDefinition_Must P c kvs = must (CounterDefinition_V P c kvs)"

definition metricName :: "string \<Rightarrow> string" where
  "metricName name = map (\<lambda>c. if c = CHR ''/'' then CHR '':'' else c) name"

definition DefineGauge :: "('d, 'h, 's) prometheus \<Rightarrow> string \<Rightarrow> string list \<Rightarrow> ('s, 'd GaugeDefinition) act" where
  "DefineGauge P name tagNames =
     bind_a (pr_NewVec P (metricName name) tagNames) (\<lambda>gauges. ret_a \<lparr>gd_tagNames = tagNames, gd_gauges = gauges\<rparr>)"

definition MustDefineGauge :: "('d, 'h, 's) prometheus \<Rightarrow> string \<Rightarrow> string list \<Rightarrow> ('s, 'd GaugeDefinition) act" where
  "MustDefineGauge P name tagNames = must (DefineGauge P name tagNames)"

definition DefineGaugeWithHierarchy ::
  "('d, 'h, 's) prometheus \<Rightarrow> string \<Rightarrow> string list list \<Rightarrow> ('s, 'd GaugeDefinition) act" where
  "DefineGaugeWithHierarchy P name tagNamesHierarchy = DefineGauge P name (concat tagNamesHierarchy)"

definition DefineCounter :: "('d, 'h, 's) prometheus \<Rightarrow> string \<Rightarrow> string list \<Rightarrow> ('s, 'd CounterDefinition) act" where
  "DefineCounter P name tagNames =
     bind_a (pr_NewVec P (metricName name) tagNames) (\<lambda>counters. ret_a \<lparr>gd_tagNames = tagNames, gd_gauges = counters\<rparr>)"

definition MustDefineCounter :: "('d, 'h, 's) prometheus \<Rightarrow> string \<Rightarrow> string list \<Rightarrow> ('s, 'd CounterDefinition) act" where
  "MustDefineCounter P name tagNames = must (DefineCounter P name tagNames)"

subsection \<open>gauge\_group.go\<close>

record ('d, 'h) gaugeAndValue =
  gv_gauge :: "('d, 'h) Gauge"
  gv_value :: f64

record ('d, 'h) GaugeGroup =
  gg_mu :: bool
  gg_gaugeDef :: "'d GaugeDefinition"
  gg_gaugesAndValues :: "(string, ('d, 'h) gaugeAndValue) gomap"

definition NewGaugeGroup :: "'d GaugeDefinition \<Rightarrow> ('d, 'h) GaugeGroup" where
  "NewGaugeGroup gaugeDef = \<lparr>gg_mu = False, gg_gaugeDef = gaugeDef, gg_gaugesAndValues = []\<rparr>"

definition locked :: "(('d, 'h) GaugeGroup \<times> 's \<Rightarrow> ('a result \<times> ('d, 'h) GaugeGroup \<times> 's) option) \<Rightarrow> ('d, 'h) GaugeGroup \<times> 's
    \<Rightarrow> ('a result \<times> ('d, 'h) GaugeGroup \<times> 's) option" where
  "locked f = (\<lambda>(g, s).
     if gg_mu g then None
     else map_option (\<lambda>(r, g', s'). (r, g'\<lparr>gg_mu := False\<rparr>, s')) (f (g\<lparr>gg_mu := True\<rparr>, s)))"

definition PrepareToSet ::
  "('d, 'h, 's) prometheus \<Rightarrow> (string \<times> string) range_order \<Rightarrow> f64 \<Rightarrow> KV \<Rightarrow> ('d, 'h) GaugeGroup \<times> 's
    \<Rightarrow> (unit result \<times> ('d, 'h) GaugeGroup \<times> 's) option" where
  "PrepareToSet P r val kv = locked (\<lambda>(g, s).
     let kvStr = KV_String r kv;
         put = (\<lambda>gauge. g\<lparr>gg_gaugesAndValues := AList.update kvStr \<lparr>gv_gauge = gauge, gv_value = val\<rparr> (gg_gaugesAndValues g)\<rparr>)
     in case map_of (gg_gaugesAndValues g) kvStr of
          Some gv \<Rightarrow> Some (Inr (), put (gv_gauge gv), s)
        | None \<Rightarrow>
            (case GaugeDefinition_V P (gg_gaugeDef g) [kv] s of
               (Inl e, s') \<Rightarrow> Some (Inl e, g, s')
             | (Inr gauge, s') \<Rightarrow> Some (Inr (), put gauge, s')))"

definition MustPrepareToSet ::
  "('d, 'h, 's) prometheus \<Rightarrow> (string \<times> string) range_order \<Rightarrow> f64 \<Rightarrow> KV \<Rightarrow> ('d, 'h) GaugeGroup \<times> 's
    \<Rightarrow> (unit result \<times> ('d, 'h) GaugeGroup \<times> 's) option" where
  "MustPrepareToSet P r val kv = locked (\<lambda>(g, s).
     map_option (\<lambda>(res, g', s'). (case res of Inl e \<Rightarrow> Inl (Panic ''prometheus'') | Inr _ \<Rightarrow> Inr (), g', s')) (PrepareToSet P r val kv (g, s)))"

definition setGauge :: "('d, 'h, 's) prometheus \<Rightarrow> string \<times> ('d, 'h) gaugeAndValue \<Rightarrow> 's \<Rightarrow> 's" where
  "setGauge P = (\<lambda>(_, gv). Gauge_Set P (gv_gauge gv) (gv_value gv))"

definition resetGauge :: "('d, 'h, 's) prometheus \<Rightarrow> string \<times> ('d, 'h) gaugeAndValue
    \<Rightarrow> (string, ('d, 'h) gaugeAndValue) gomap \<times> 's \<Rightarrow> (string, ('d, 'h) gaugeAndValue) gomap \<times> 's" where
  "resetGauge P = (\<lambda>(kvStr, gv) (m, s).
     if gv_value gv = None then (AList.delete kvStr m, s)
     else (AList.update kvStr \<lparr>gv_gauge = gv_gauge gv, gv_value = None\<rparr> m, Gauge_Set P (gv_gauge gv) None s))"

definition SetAndReset ::
  "('d, 'h, 's) prometheus \<Rightarrow> (string \<times> ('d, 'h) gaugeAndValue) range_order \<Rightarrow> ('d, 'h) GaugeGroup \<times> 's
    \<Rightarrow> (unit result \<times> ('d, 'h) GaugeGroup \<times> 's) option" where
  "SetAndReset P r = locked (\<lambda>(g, s).
     let s1 = fold (setGauge P) (r 0 (gg_gaugesAndValues g)) s;
         (m, s2) = fold (resetGauge P) (r 1 (gg_gaugesAndValues g)) (gg_gaugesAndValues g, s1)
     in Some (Inr (), g\<lparr>gg_gaugesAndValues := m\<rparr>, s2))"

subsection \<open>What the client promises\<close>

text \<open>
  As the client documents: a deleted metric is not exported, deleting one metric leaves the others
  alone, and a metric that has been deleted is never exported again through an old handle.
\<close>

definition prometheus_ok :: "('d, 'h, 's) prometheus \<Rightarrow> ('s \<Rightarrow> 'd \<Rightarrow> KV \<Rightarrow> rat option) \<Rightarrow> bool" where
  "prometheus_ok P exported \<longleftrightarrow>
     (\<forall>h v s d l. exported s d l = None \<longrightarrow> exported (pr_Set P h v s) d l = None) \<and>
     (\<forall>d l s d' l'. exported (pr_Delete P d l s) d' l' = (if d' = d \<and> l' = l then None else exported s d' l'))"

text \<open>
  Counters: \<open>val\<close> reads a counter, \<open>handle\<close> is the metric the client keeps for a vector and labels.
  Adding changes one counter, setting a gauge none.
\<close>

definition counters_ok :: "('d, 'h, 's) prometheus \<Rightarrow> ('s \<Rightarrow> 'h \<Rightarrow> rat) \<Rightarrow> ('d \<Rightarrow> KV \<Rightarrow> 'h) \<Rightarrow> bool" where
  "counters_ok P val handle \<longleftrightarrow>
     (\<forall>h v s. val (pr_Add P h v s) = (val s)(h := val s h + v)) \<and>
     (\<forall>h v s. val (pr_Set P h v s) = val s) \<and>
     (\<forall>d l s. \<exists>s'. pr_GetMetricWith P d l s = (Inr (handle d l), s') \<and> val s' = val s) \<and>
     (\<forall>d l d' l'. handle d l = handle d' l' \<longrightarrow> d = d' \<and> l = l')"

text \<open>A client that is a ledger of counters.\<close>

definition ledger :: "(string, string \<times> KV, string \<times> KV \<Rightarrow> rat) prometheus" where
  "ledger = \<lparr>pr_NewVec = \<lambda>name _. ret_a name, pr_GetMetricWith = \<lambda>d l. ret_a (d, l), pr_Set = \<lambda>_ _ s. s,
     pr_Add = \<lambda>h v s. s(h := s h + v), pr_Delete = \<lambda>_ _ s. s\<rparr>"

lemma ledger_counters: "counters_ok ledger (\<lambda>s. s) Pair"
  by (auto simp: counters_ok_def ledger_def)

subsection \<open>Properties\<close>

lemma sort_key_range:
  assumes "wf_map m" "go_range r" "go_range r'"
  shows "sort_key fst (r n m) = sort_key fst (r' n' m)"
proof (rule sort_key_inj_key_eq)
  show "mset (r n m) = mset (sort_key fst (r' n' m))"
    using assms by simp
  show "inj_on fst (set (r n m))"
    using assms by (simp add: distinct_map)
qed simp

text \<open>
  The string of a set of tags does not depend on the order in which Go iterates over the map,
  so equal sets of tags name the same gauge of a group.
\<close>

theorem tags_string_canonical:
  assumes "wf_map kv" and "go_range r" and "go_range r'"
  shows "KV_String r kv = KV_String r' kv"
  unfolding KV_String_def by (rule arg_cong [OF sort_key_range [OF assms]])

theorem tags_string_canonical_witness:
  "KV_String (\<lambda>_. rev) [(''state'', ''up''), (''name'', ''x'')] = ''name=x,state=up''"
proof -
  have "KV_String (\<lambda>_. rev) [(''state'', ''up''), (''name'', ''x'')]
      = KV_String (\<lambda>_ xs. xs) [(''state'', ''up''), (''name'', ''x'')]"
    by (rule tags_string_canonical) simp_all
  also have "\<dots> = ''name=x,state=up''"
    by (simp add: KV_String_def)
  finally show ?thesis .
qed

lemma setGauge_apply [simp]: "setGauge P (k, gv) s = Gauge_Set P (gv_gauge gv) (gv_value gv) s"
  by (simp add: setGauge_def)

lemma resetGauge_apply [simp]:
  "resetGauge P (k, gv) (m, s) =
     (if gv_value gv = None then (AList.delete k m, s)
      else (AList.update k \<lparr>gv_gauge = gv_gauge gv, gv_value = None\<rparr> m, Gauge_Set P (gv_gauge gv) None s))"
  by (simp add: resetGauge_def)

lemma Gauge_Set_unexported:
  assumes "prometheus_ok P exported" "exported s d l = None"
  shows "exported (Gauge_Set P g v s) d l = None"
  using assms by (cases v) (auto simp: Gauge_Set_def Gauge_Clear_def prometheus_ok_def)

lemma Gauge_Set_NaN:
  assumes "prometheus_ok P exported"
  shows "exported (Gauge_Set P g None s) (ga_gauges g) (ga_labels g) = None"
  using assms by (simp add: Gauge_Set_def Gauge_Clear_def prometheus_ok_def)

lemma setGauge_fold_unexported:
  assumes "prometheus_ok P exported" "exported s d l = None"
  shows "exported (fold (setGauge P) xs s) d l = None"
  using assms(2)
  by (induction xs arbitrary: s) (auto simp: Gauge_Set_unexported [OF assms(1)])

lemma setGauge_fold_clears:
  assumes "prometheus_ok P exported" "(k, gv) \<in> set xs" "gv_value gv = None"
  shows "exported (fold (setGauge P) xs s) (ga_gauges (gv_gauge gv)) (ga_labels (gv_gauge gv)) = None"
  using assms(2)
proof (induction xs arbitrary: s)
  case (Cons x xs)
  show ?case
  proof (cases "x = (k, gv)")
    case True
    then show ?thesis
      using Gauge_Set_NaN [OF assms(1)] assms(3)
      by (simp add: setGauge_fold_unexported [OF assms(1)])
  qed (use Cons in simp)
qed simp

lemma resetGauge_fold_unexported:
  assumes "prometheus_ok P exported" "exported s d l = None"
  shows "exported (snd (fold (resetGauge P) xs (m, s))) d l = None"
  using assms(2)
proof (induction xs arbitrary: m s)
  case (Cons x xs)
  then show ?case
    by (cases x) (simp add: Gauge_Set_unexported [OF assms(1)])
qed simp

lemma resetGauge_fold_clears:
  assumes "prometheus_ok P exported" "(k, gv) \<in> set xs" "gv_value gv \<noteq> None"
  shows "exported (snd (fold (resetGauge P) xs (m, s))) (ga_gauges (gv_gauge gv)) (ga_labels (gv_gauge gv)) = None"
  using assms(2)
proof (induction xs arbitrary: m s)
  case (Cons x xs)
  show ?case
  proof (cases "x = (k, gv)")
    case True
    then show ?thesis
      using Gauge_Set_NaN [OF assms(1)] assms(3)
      by (auto simp: resetGauge_fold_unexported [OF assms(1)])
  next
    case False
    then have "(k, gv) \<in> set xs"
      using Cons.prems by simp
    then show ?thesis
      using Cons.IH by (cases x) simp
  qed
qed simp

text \<open>
  After \<open>SetAndReset\<close> no gauge of the group is exported, whatever value was prepared for it: the
  second loop calls \<open>Set(NaN)\<close>, which clears the gauge at once, where its comment means it to be
  cleared by the next call.
\<close>

theorem set_and_reset_clears:
  assumes "prometheus_ok P exported" and "go_range r" and "\<not> gg_mu g"
    and "(k, gv) \<in> set (gg_gaugesAndValues g)"
  shows "\<exists>g' s'. SetAndReset P r (g, s) = Some (Inr (), g', s') \<and>
    exported s' (ga_gauges (gv_gauge gv)) (ga_labels (gv_gauge gv)) = None"
proof -
  define s1 where "s1 = fold (setGauge P) (r 0 (gg_gaugesAndValues g)) s"
  obtain m s2 where *: "fold (resetGauge P) (r 1 (gg_gaugesAndValues g)) (gg_gaugesAndValues g, s1) = (m, s2)"
    by fastforce
  have "exported s2 (ga_gauges (gv_gauge gv)) (ga_labels (gv_gauge gv)) = None"
  proof (cases "gv_value gv")
    case None
    then have "exported s1 (ga_gauges (gv_gauge gv)) (ga_labels (gv_gauge gv)) = None"
      unfolding s1_def using assms by (intro setGauge_fold_clears [of P exported k]) simp_all
    then show ?thesis
      using resetGauge_fold_unexported [OF assms(1)] * by (metis snd_conv)
  next
    case (Some v)
    then have "exported (snd (fold (resetGauge P) (r 1 (gg_gaugesAndValues g)) (gg_gaugesAndValues g, s1)))
        (ga_gauges (gv_gauge gv)) (ga_labels (gv_gauge gv)) = None"
      using assms by (intro resetGauge_fold_clears [of P exported k]) simp_all
    then show ?thesis
      using * by simp
  qed
  then show ?thesis
    using assms(3) * by (simp add: SetAndReset_def locked_def s1_def)
qed

text \<open>A client that keeps the exported metrics in an association list.\<close>

definition sample_client :: "(string, string \<times> KV, ((string \<times> KV) \<times> rat) list) prometheus" where
  "sample_client = \<lparr>pr_NewVec = \<lambda>name _. ret_a name,
     pr_GetMetricWith = \<lambda>d l s. (Inr (d, l), if map_of s (d, l) = None then AList.update (d, l) 0 s else s),
     pr_Set = \<lambda>h v s. if map_of s h = None then s else AList.update h v s,
     pr_Add = \<lambda>h v s. case map_of s h of None \<Rightarrow> s | Some x \<Rightarrow> AList.update h (x + v) s,
     pr_Delete = \<lambda>d l s. AList.delete (d, l) s\<rparr>"

definition sample_exported :: "((string \<times> KV) \<times> rat) list \<Rightarrow> string \<Rightarrow> KV \<Rightarrow> rat option" where
  "sample_exported s d l = map_of s (d, l)"

lemma sample_client_ok: "prometheus_ok sample_client sample_exported"
  by (auto simp: prometheus_ok_def sample_client_def sample_exported_def)

definition sample_gauge :: "(string, string \<times> KV) gaugeAndValue" where
  "sample_gauge = \<lparr>gv_gauge = \<lparr>ga_Gauge = (''bgp'', []), ga_gauges = ''bgp'', ga_labels = []\<rparr>, gv_value = Some 1\<rparr>"

definition sample_group :: "(string, string \<times> KV) GaugeGroup" where
  "sample_group = \<lparr>gg_mu = False, gg_gaugeDef = \<lparr>gd_tagNames = [], gd_gauges = ''bgp''\<rparr>, gg_gaugesAndValues = [([], sample_gauge)]\<rparr>"

theorem set_and_reset_clears_witness:
  "\<exists>g' s'. SetAndReset sample_client (\<lambda>_ xs. xs) (sample_group, [((''bgp'', []), 0)]) = Some (Inr (), g', s') \<and>
    sample_exported s' ''bgp'' [] = None"
  using set_and_reset_clears [OF sample_client_ok go_range_id, of sample_group "[]" sample_gauge]
  by (simp add: sample_group_def sample_gauge_def)

text \<open>
  \<open>MustPrepareToSet\<close> never returns: it takes the lock of the group and then calls \<open>PrepareToSet\<close>,
  which waits for the same lock.
\<close>

theorem must_prepare_blocks: "MustPrepareToSet P r val kv (g, s) = None"
  by (simp add: MustPrepareToSet_def PrepareToSet_def locked_def)

end
