(* ===== verification/Dp_Stats.thy ===== *)
theory Dp_Stats
  imports Dp_Managers V2stats Go_Float32 Fwmark
begin

section \<open>kglb/data\_plane: the statistics of manager.go, utils.go and collectBgpStats\<close>

text \<open>
  \<open>EmitStats\<close> reads the counters of the kernel and adds what they grew by since the last time to the
  metrics of services and upstreams. The fields of \<open>Manager\<close> it works on (the cached metrics and the
  snapshot of the last counters) are the record \<open>StatsManager\<close>; the world is the one of the modules,
  which the prometheus client acts on as well. Errors that are only reported are dropped; a panic is
  not. The inner maps of the snapshot are shared in Go (\<open>prevServiceStats\<close> is the map stored in
  \<open>m.prevStats\<close>), so an upstream is looked up in the current snapshot, unless the service was new.
\<close>

subsection \<open>utils.go\<close>

text \<open>\<open>float64(n)\<close> rounds to 53 bits, ties to even.\<close>

definition f64_of_u64 :: "u64 \<Rightarrow> rat" where
  "f64_of_u64 w = (let n = unat w; j = nbits n - 53 in of_nat (div_even n (2 ^ j) * 2 ^ j))"

definition diffMetric :: "u64 \<Rightarrow> u64 \<Rightarrow> rat" where
  "diffMetric new old = (if new < old then f64_of_u64 new else f64_of_u64 (new - old))"

definition getBgpRoutePrefix :: "BgpRouteAttributes option \<Rightarrow> string" where
  "getBgpRoutePrefix route = IP_String (KglbAddrToNetIp (GetPrefix route)) @ ''/'' @ dec (unat (GetPrefixlen route))"

definition getBgpRouteName :: "BgpRouteAttributes option \<Rightarrow> string" where
  "getBgpRouteName route =
     map (\<lambda>c. if c = CHR '' '' then CHR ''_'' else c) (map (\<lambda>c. if c = CHR '':'' then CHR ''.'' else c) (getBgpRoutePrefix route))"

definition getUpstreamHostname :: "UpstreamState \<Rightarrow> string" where
  "getUpstreamHostname dst = (if us_Hostname dst \<noteq> [] then us_Hostname dst else IP_String (KglbAddrToNetIp (us_Address dst)))"

subsection \<open>The metrics of one name\<close>

record 'h commonStats =
  sc_bytesIn :: 'h
  sc_bytesOut :: 'h
  sc_packetsIn :: 'h
  sc_packetsOut :: 'h

definition instantiateCommonStats ::
  "('d, 'h, 's) prometheus \<Rightarrow> string \<Rightarrow> 'd CounterDefinition \<Rightarrow> 'd CounterDefinition \<Rightarrow> ('s, 'h commonStats) act" where
  "instantiateCommonStats P name byteCounter packetCounter =
     (let tags = (\<lambda>direction. [(''name'', name), (''direction'', direction)]) in
      bind_a (CounterDefinition_V P byteCounter (tags ''in'')) (\<lambda>bytesIn.
      bind_a (CounterDefinition_V P byteCounter (tags ''out'')) (\<lambda>bytesOut.
      bind_a (CounterDefinition_V P packetCounter (tags ''in'')) (\<lambda>packetsIn.
      bind_a (CounterDefinition_V P packetCounter (tags ''out'')) (\<lambda>packetsOut.
        ret_a \<lparr>sc_bytesIn = bytesIn, sc_bytesOut = bytesOut, sc_packetsIn = packetsIn, sc_packetsOut = packetsOut\<rparr>)))))"

definition emitCommonMetrics :: "('d, 'h, 's) prometheus \<Rightarrow> 'h commonStats \<Rightarrow> Stats option \<Rightarrow> Stats \<Rightarrow> ('s, unit) act" where
  "emitCommonMetrics P stats prev current =
     (case prev of
        None \<Rightarrow> lift_r nilDeref
      | Some old \<Rightarrow> modify_a (\<lambda>s.
          pr_Add P (sc_packetsOut stats) (diffMetric (st_PacketsOutCount current) (st_PacketsOutCount old))
         (pr_Add P (sc_packetsIn stats) (diffMetric (st_PacketsInCount current) (st_PacketsInCount old))
         (pr_Add P (sc_bytesOut stats) (diffMetric (st_BytesOutCount current) (st_BytesOutCount old))
         (pr_Add P (sc_bytesIn stats) (diffMetric (st_BytesInCount current) (st_BytesInCount old)) s)))))"

subsection \<open>EmitStats\<close>

record 'd metricDefs =
  md_serviceBytesCounter :: "'d CounterDefinition"
  md_servicePacketsCounter :: "'d CounterDefinition"
  md_upstreamBytesCounter :: "'d CounterDefinition"
  md_upstreamPacketsCounter :: "'d CounterDefinition"

record ('t, 'h) StatsManager =
  sm_serviceStats :: "string \<rightharpoonup> 'h commonStats"
  sm_upstreamStats :: "string \<rightharpoonup> 'h commonStats"
  sm_prevStats :: "'t \<rightharpoonup> (string \<rightharpoonup> Stats)"

definition NewStatsManager :: "('t, 'h) StatsManager" where
  "NewStatsManager = \<lparr>sm_serviceStats = Map.empty, sm_upstreamStats = Map.empty, sm_prevStats = Map.empty\<rparr>"

definition emitServiceStats ::
  "('d, 'h, 's) prometheus \<Rightarrow> 'd metricDefs \<Rightarrow> string \<Rightarrow> Stats option \<Rightarrow> Stats \<Rightarrow> (('t, 'h) StatsManager \<times> 's, unit) act" where
  "emitServiceStats P D name prev current = (\<lambda>(m, s).
     case sm_serviceStats m name of
       Some stats \<Rightarrow> on_snd (emitCommonMetrics P stats prev current) (m, s)
     | None \<Rightarrow>
         bind_a (on_snd (instantiateCommonStats P name (md_serviceBytesCounter D) (md_servicePacketsCounter D))) (\<lambda>stats.
         bind_a (modify_a (\<lambda>(m, s). (m\<lparr>sm_serviceStats := (sm_serviceStats m)(name \<mapsto> stats)\<rparr>, s))) (\<lambda>_.
           on_snd (emitCommonMetrics P stats prev current))) (m, s))"

definition emitUpstreamStats ::
  "('d, 'h, 's) prometheus \<Rightarrow> 'd metricDefs \<Rightarrow> string \<Rightarrow> Stats option \<Rightarrow> Stats \<Rightarrow> (('t, 'h) StatsManager \<times> 's, unit) act" where
  "emitUpstreamStats P D name prev current = (\<lambda>(m, s).
     case sm_upstreamStats m name of
       Some stats \<Rightarrow> on_snd (emitCommonMetrics P stats prev current) (m, s)
     | None \<Rightarrow>
         bind_a (on_snd (instantiateCommonStats P name (md_upstreamBytesCounter D) (md_upstreamPacketsCounter D))) (\<lambda>stats.
         bind_a (modify_a (\<lambda>(m, s). (m\<lparr>sm_upstreamStats := (sm_upstreamStats m)(name \<mapsto> stats)\<rparr>, s))) (\<lambda>_.
           on_snd (emitCommonMetrics P stats prev current))) (m, s))"

text \<open>An error that is handed to \<open>exclog.Report\<close>: the code goes on with \<open>k\<close>.\<close>

definition report_a :: "('s, 'a) act \<Rightarrow> ('s, 'b) act \<Rightarrow> ('a \<Rightarrow> ('s, 'b) act) \<Rightarrow> ('s, 'b) act" where
  "report_a act failed k = (\<lambda>s.
     case act s of
       (Inl (Panic p), s') \<Rightarrow> (Inl (Panic p), s')
     | (Inl e, s') \<Rightarrow> failed s'
     | (Inr a, s') \<Rightarrow> k a s')"

text \<open>\<open>m.prevStats[svc][entry] = st\<close>; an assignment to an entry of a nil map panics.\<close>

definition setPrev :: "'t \<Rightarrow> string \<Rightarrow> Stats \<Rightarrow> (('t, 'h) StatsManager \<times> 's, unit) act" where
  "setPrev svc entry st = (\<lambda>(m, s).
     case sm_prevStats m svc of
       None \<Rightarrow> (Inl (Panic ''assignment to entry in nil map''), (m, s))
     | Some x \<Rightarrow> (Inr (), (m\<lparr>sm_prevStats := (sm_prevStats m)(svc \<mapsto> x(entry \<mapsto> st))\<rparr>, s)))"

definition indexPanic :: "'a result" where
  "indexPanic = Inl (Panic ''index out of range'')"

fun realLoop ::
  "('d, 'h, 's) prometheus \<Rightarrow> 'd metricDefs \<Rightarrow> 't \<Rightarrow> bool \<Rightarrow> UpstreamState list \<Rightarrow> Stats list \<Rightarrow> (('t, 'h) StatsManager \<times> 's, unit) act" where
  "realLoop P D svc known [] realsStats = ret_a ()"
| "realLoop P D svc known (realServer # rs) [] = lift_r indexPanic"
| "realLoop P D svc known (realServer # rs) (realStats # sts) =
     (let realServerKey = IP_String (KglbAddrToNetIp (us_Address realServer)) @ '':'' @ dec (unat (us_Port realServer)) in
      bind_a (gets_a (\<lambda>(m, s). if known then Option.bind (sm_prevStats m svc) (\<lambda>x. x realServerKey) else None)) (\<lambda>prev.
      bind_a (case prev of
                Some old \<Rightarrow> report_a (emitUpstreamStats P D (getUpstreamHostname realServer) (Some old) realStats) (ret_a ()) ret_a
              | None \<Rightarrow> ret_a ()) (\<lambda>_.
      bind_a (setPrev svc realServerKey realStats) (\<lambda>_.
        realLoop P D svc known rs sts))))"

definition metricService :: "string \<Rightarrow> string" where
  "metricService name = map (\<lambda>c. if c = CHR '':'' then CHR ''_'' else c) name"

definition emitService ::
  "('d, 'h, 's) prometheus \<Rightarrow> 'd metricDefs \<Rightarrow> 's ManagerModules \<Rightarrow> (IpvsService \<Rightarrow> 't) \<Rightarrow> IpvsService \<Rightarrow> Stats
    \<Rightarrow> (('t, 'h) StatsManager \<times> 's, unit) act" where
  "emitService P D M svc_text ipvsService serviceStats =
     (let svc = svc_text ipvsService in
      bind_a (gets_a (\<lambda>(m, s). sm_prevStats m svc)) (\<lambda>prevServiceStats.
      bind_a (case prevServiceStats of
                Some prev \<Rightarrow>
                  bind_a (on_snd (rm_ServiceLookup (mm_Resolver M) (Some ipvsService))) (\<lambda>name.
                    report_a (emitServiceStats P D (metricService name) (prev ''service'') serviceStats) (ret_a ()) ret_a)
              | None \<Rightarrow> modify_a (\<lambda>(m, s). (m\<lparr>sm_prevStats := (sm_prevStats m)(svc \<mapsto> Map.empty)\<rparr>, s))) (\<lambda>_.
      bind_a (setPrev svc ''service'' serviceStats) (\<lambda>_.
        report_a (on_snd (im_GetRealServers (mm_Ipvs M) ipvsService)) (ret_a ())
          (\<lambda>(realServers, realsStats). realLoop P D svc (prevServiceStats \<noteq> None) realServers realsStats)))))"

fun serviceLoop ::
  "('d, 'h, 's) prometheus \<Rightarrow> 'd metricDefs \<Rightarrow> 's ManagerModules \<Rightarrow> (IpvsService \<Rightarrow> 't) \<Rightarrow> IpvsService list \<Rightarrow> Stats list
    \<Rightarrow> (('t, 'h) StatsManager \<times> 's, unit) act" where
  "serviceLoop P D M svc_text [] servicesStats = ret_a ()"
| "serviceLoop P D M svc_text (ipvsService # services) servicesStats =
     bind_a (lift_r (IsFwmarkService (Some ipvsService))) (\<lambda>fwm.
       if fwm then serviceLoop P D M svc_text services (tl servicesStats)
       else if servicesStats = [] then lift_r indexPanic
       else bind_a (emitService P D M svc_text ipvsService (hd servicesStats)) (\<lambda>_.
              serviceLoop P D M svc_text services (tl servicesStats)))"

definition EmitStats ::
  "('d, 'h, 's) prometheus \<Rightarrow> 'd metricDefs \<Rightarrow> 's ManagerModules \<Rightarrow> (IpvsService \<Rightarrow> 't) \<Rightarrow> ('d, 'h) Gauge \<Rightarrow> rat
    \<Rightarrow> (('t, 'h) StatsManager \<times> 's, unit) act" where
  "EmitStats P D M svc_text ManagerStateAgeSec diffSec =
     bind_a (modify_a (\<lambda>(m, s). (m, Gauge_Set P ManagerStateAgeSec (Some diffSec) s))) (\<lambda>_.
     bind_a (wrap_a ''fails to get services: '' (on_snd (im_ListServices (mm_Ipvs M)))) (\<lambda>(services, servicesStats).
       serviceLoop P D M svc_text services servicesStats))"

subsection \<open>Groups of gauges: emitManagerState, collectBgpStats\<close>

definition emitManagerState ::
  "('d, 'h, 's) prometheus \<Rightarrow> (string \<times> string) range_order \<Rightarrow> (string \<times> ('d, 'h) gaugeAndValue) range_order \<Rightarrow> string
    \<Rightarrow> ('d, 'h) GaugeGroup \<times> 's \<Rightarrow> (('d, 'h) GaugeGroup \<times> 's) option" where
  "emitManagerState P rkv r state gs =
     (case PrepareToSet P rkv (Some 1) [(''state'', state)] gs of
        None \<Rightarrow> None
      | Some (_, gs') \<Rightarrow> map_option snd (SetAndReset P r gs'))"

fun prepareRoutes ::
  "('d, 'h, 's) prometheus \<Rightarrow> (string \<times> string) range_order \<Rightarrow> DynamicRoute list
    \<Rightarrow> ('d, 'h) GaugeGroup \<times> 's \<Rightarrow> (('d, 'h) GaugeGroup \<times> 's) option" where
  "prepareRoutes P rkv [] gs = Some gs"
| "prepareRoutes P rkv (dynamicRoute # routes) gs =
     (case getBgpRouting dynamicRoute of
        Inl _ \<Rightarrow> prepareRoutes P rkv routes gs
      | Inr bgpRoute \<Rightarrow>
          (case PrepareToSet P rkv (Some 1) [(''route'', getBgpRouteName bgpRoute)] gs of
             None \<Rightarrow> None
           | Some (_, gs') \<Rightarrow> prepareRoutes P rkv routes gs'))"

text \<open>The result \<open>None\<close> is a call that blocks; an error is reported and ends the call.\<close>

definition collectBgpStats ::
  "('d, 'h, 's) prometheus \<Rightarrow> (string \<times> string) range_order \<Rightarrow> (string \<times> ('d, 'h) gaugeAndValue) range_order
    \<Rightarrow> 's BgpModule \<Rightarrow> (IP option \<Rightarrow> string) \<Rightarrow> DynamicRoutingManager \<times> ('d, 'h) GaugeGroup \<times> ('d, 'h) GaugeGroup \<times> 's
    \<Rightarrow> (DynamicRoutingManager \<times> ('d, 'h) GaugeGroup \<times> ('d, 'h) GaugeGroup \<times> 's) option" where
  "collectBgpStats P rkv r Bgp ip_text = (\<lambda>(m, bgpSessionStat, bgpRouteStat, s).
     case IsSessionEstablished Bgp s of
       (Inl _, s1) \<Rightarrow> Some (m, bgpSessionStat, bgpRouteStat, s1)
     | (Inr established, s1) \<Rightarrow>
         (case PrepareToSet P rkv (Some 1) [(''state'', if established then ''established'' else ''not_established'')] (bgpSessionStat, s1) of
            None \<Rightarrow> None
          | Some (_, gs2) \<Rightarrow>
              (case SetAndReset P r gs2 of
                 None \<Rightarrow> None
               | Some (_, (sess, s3)) \<Rightarrow>
                   (case ListRoutes Bgp ip_text (m, s3) of
                      (Inl _, (m4, s4)) \<Rightarrow> Some (m4, sess, bgpRouteStat, s4)
                    | (Inr routes, (m4, s4)) \<Rightarrow>
                        (case prepareRoutes P rkv routes (bgpRouteStat, s4) of
                           None \<Rightarrow> None
                         | Some gs5 \<Rightarrow>
                             (case SetAndReset P r gs5 of
                                None \<Rightarrow> None
                              | Some (_, (rt, s6)) \<Rightarrow> Some (m4, sess, rt, s6)))))))"

subsection \<open>No panic\<close>

text \<open>Every service of the snapshot has its own counters in it.\<close>

definition prev_ok :: "('t, 'h) StatsManager \<Rightarrow> bool" where
  "prev_ok m \<longleftrightarrow> (\<forall>svc x. sm_prevStats m svc = Some x \<longrightarrow> x ''service'' \<noteq> None)"

text \<open>An operation that cannot panic and keeps a property of the state.\<close>

definition safe_a :: "('s \<Rightarrow> bool) \<Rightarrow> ('s, 'a) act \<Rightarrow> bool" where
  "safe_a I m \<longleftrightarrow> (\<forall>s. I s \<longrightarrow> \<not> is_panic (fst (m s)) \<and> I (snd (m s)))"

named_theorems safe \<open>operations that cannot panic\<close>

lemma safe_ret [safe]: "safe_a I (ret_a a)"
  by (simp add: safe_a_def)

lemma safe_gets [safe]: "safe_a I (gets_a f)"
  by (simp add: safe_a_def)

lemma safe_modify: "(\<And>s. I s \<Longrightarrow> I (f s)) \<Longrightarrow> safe_a I (modify_a f)"
  by (simp add: safe_a_def)

lemma safe_modify2 [safe]: "(\<And>m s. I (m, s) \<Longrightarrow> I (f m s)) \<Longrightarrow> safe_a I (modify_a (\<lambda>(m, s). f m s))"
  by (auto simp: safe_a_def)

lemma safe_bind [safe]:
  assumes "safe_a I m" "\<And>a. safe_a I (f a)"
  shows "safe_a I (bind_a m f)"
  using assms by (fastforce simp: safe_a_def bind_a_def split: prod.splits sum.splits elim: is_panic.elims)

lemma safe_wrap [safe]: "safe_a I m \<Longrightarrow> safe_a I (wrap_a msg m)"
  by (simp add: safe_a_def wrap_a_def split_beta)

lemma safe_report [safe]:
  assumes "safe_a I m" "safe_a I failed" "\<And>a. safe_a I (k a)"
  shows "safe_a I (report_a m failed k)"
  using assms by (fastforce simp: safe_a_def report_a_def split: prod.splits sum.splits go_error.splits)

lemma safe_bind_dep:
  assumes "safe_a I m" "\<And>s a s'. I s \<Longrightarrow> m s = (Inr a, s') \<Longrightarrow> safe_a I (f a)"
  shows "safe_a I (bind_a m f)"
  unfolding safe_a_def
proof (intro allI impI)
  fix s assume "I s"
  with assms(1) have "\<not> is_panic (fst (m s)) \<and> I (snd (m s))" by (simp add: safe_a_def)
  then show "\<not> is_panic (fst (bind_a m f s)) \<and> I (snd (bind_a m f s))"
    using assms(2) [OF \<open>I s\<close>] by (auto simp: bind_a_def safe_a_def split: prod.splits sum.splits elim: is_panic.elims)
qed

lemma safe_report_dep:
  assumes "safe_a I m" "safe_a I failed" "\<And>s a s'. I s \<Longrightarrow> m s = (Inr a, s') \<Longrightarrow> safe_a I (k a)"
  shows "safe_a I (report_a m failed k)"
  unfolding safe_a_def
proof (intro allI impI)
  fix s assume "I s"
  with assms(1) have "\<not> is_panic (fst (m s)) \<and> I (snd (m s))" by (simp add: safe_a_def)
  then show "\<not> is_panic (fst (report_a m failed k s)) \<and> I (snd (report_a m failed k s))"
    using assms(2) assms(3) [OF \<open>I s\<close>] by (auto simp: report_a_def safe_a_def split: prod.splits sum.splits go_error.splits)
qed

lemma safe_pointwise: "(\<And>m s. \<exists>g. F (m, s) = g (m, s) \<and> safe_a I g) \<Longrightarrow> safe_a I F"
  unfolding safe_a_def by (metis surj_pair)

lemma safe_split: "(\<And>a b. p = (a, b) \<Longrightarrow> safe_a I (f a b)) \<Longrightarrow> safe_a I (case p of (a, b) \<Rightarrow> f a b)"
  by (cases p) simp

abbreviation no_panic :: "('s, 'a) act \<Rightarrow> bool" where
  "no_panic \<equiv> safe_a (\<lambda>_. True)"

lemma safe_world [safe]:
  assumes "no_panic m" "\<And>sm s s'. I (sm, s) \<Longrightarrow> I (sm, s')"
  shows "safe_a I (on_snd m)"
  unfolding safe_a_def
proof (intro allI impI)
  fix x assume "I x"
  obtain sm s where x: "x = (sm, s)" by fastforce
  show "\<not> is_panic (fst (on_snd m x)) \<and> I (snd (on_snd m x))"
    using assms(1) assms(2) [of sm s] \<open>I x\<close> by (auto simp: x on_snd_def safe_a_def split: prod.splits) (metis fst_conv)
qed

text \<open>The invariant of the snapshot; \<open>with_entry\<close> says in addition that a service is in it.\<close>

definition with_entry :: "'t set \<Rightarrow> ('t, 'h) StatsManager \<times> 's \<Rightarrow> bool" where
  "with_entry S = (\<lambda>(m, s). prev_ok m \<and> S \<subseteq> dom (sm_prevStats m))"

lemma with_entry_world: "with_entry S (m, s) \<Longrightarrow> with_entry S (m, s')"
  by (simp add: with_entry_def)

lemma with_entry_fields:
  "with_entry S (m, s) \<Longrightarrow> with_entry S (m\<lparr>sm_serviceStats := x\<rparr>, s)"
  "with_entry S (m, s) \<Longrightarrow> with_entry S (m\<lparr>sm_upstreamStats := x\<rparr>, s)"
  by (simp_all add: with_entry_def prev_ok_def)

lemma emitCommonMetrics_safe [safe]: "no_panic (emitCommonMetrics P stats (Some old) current)"
  by (simp add: emitCommonMetrics_def safe_a_def)

lemma instantiate_safe [safe]:
  assumes "\<And>d l. no_panic (pr_GetMetricWith P d l)"
  shows "no_panic (instantiateCommonStats P name b c)"
  unfolding instantiateCommonStats_def CounterDefinition_V_def Let_def by (intro safe assms)

lemma emitServiceStats_safe:
  assumes "\<And>d l. no_panic (pr_GetMetricWith P d l)"
  shows "safe_a (with_entry S) (emitServiceStats P D name (Some old) current)"
proof -
  have "safe_a (with_entry S) (bind_a (on_snd (instantiateCommonStats P name (md_serviceBytesCounter D) (md_servicePacketsCounter D))) (\<lambda>stats.
      bind_a (modify_a (\<lambda>(m, s). (m\<lparr>sm_serviceStats := (sm_serviceStats m)(name \<mapsto> stats)\<rparr>, s))) (\<lambda>_.
        on_snd (emitCommonMetrics P stats (Some old) current))))"
    by (intro safe assms with_entry_fields) (erule with_entry_world)+
  moreover have "safe_a (with_entry S) (on_snd (emitCommonMetrics P stats (Some old) current))" for stats
    by (intro safe) (erule with_entry_world)
  ultimately show ?thesis
    by (intro safe_pointwise) (simp add: emitServiceStats_def split: option.split, blast)
qed

lemma emitUpstreamStats_safe:
  assumes "\<And>d l. no_panic (pr_GetMetricWith P d l)"
  shows "safe_a (with_entry S) (emitUpstreamStats P D name (Some old) current)"
proof -
  have "safe_a (with_entry S) (bind_a (on_snd (instantiateCommonStats P name (md_upstreamBytesCounter D) (md_upstreamPacketsCounter D))) (\<lambda>stats.
      bind_a (modify_a (\<lambda>(m, s). (m\<lparr>sm_upstreamStats := (sm_upstreamStats m)(name \<mapsto> stats)\<rparr>, s))) (\<lambda>_.
        on_snd (emitCommonMetrics P stats (Some old) current))))"
    by (intro safe assms with_entry_fields) (erule with_entry_world)+
  moreover have "safe_a (with_entry S) (on_snd (emitCommonMetrics P stats (Some old) current))" for stats
    by (intro safe) (erule with_entry_world)
  ultimately show ?thesis
    by (intro safe_pointwise) (simp add: emitUpstreamStats_def split: option.split, blast)
qed

lemma setPrev_safe: "svc \<in> S \<Longrightarrow> safe_a (with_entry S) (setPrev svc entry st)"
  by (fastforce simp: safe_a_def setPrev_def with_entry_def prev_ok_def split: option.splits)

lemma realLoop_safe:
  assumes "\<And>d l. no_panic (pr_GetMetricWith P d l)" and "svc \<in> S" and "length rs = length sts"
  shows "safe_a (with_entry S) (realLoop P D svc known rs sts)"
  using assms(3)
proof (induction rs sts rule: list_induct2)
  case Nil
  show ?case unfolding realLoop.simps by (rule safe_ret)
next
  case (Cons r rs st sts)
  have "safe_a (with_entry S) (case prev of
      Some old \<Rightarrow> report_a (emitUpstreamStats P D (getUpstreamHostname r) (Some old) st) (ret_a ()) ret_a
    | None \<Rightarrow> ret_a ())" for prev
    by (cases prev) (auto intro!: safe emitUpstreamStats_safe assms(1))
  then show ?case
    unfolding realLoop.simps Let_def by (intro safe setPrev_safe assms(2) Cons.IH)
qed

text \<open>What is relied on: the modules do not panic and list one counter record per entry.\<close>

definition stats_modules_ok :: "('d, 'h, 's) prometheus \<Rightarrow> 's ManagerModules \<Rightarrow> bool" where
  "stats_modules_ok P M \<longleftrightarrow> (\<forall>d l. no_panic (pr_GetMetricWith P d l)) \<and>
     no_panic (im_ListServices (mm_Ipvs M)) \<and> (\<forall>v. no_panic (im_GetRealServers (mm_Ipvs M) v)) \<and>
     (\<forall>v. no_panic (rm_ServiceLookup (mm_Resolver M) v)) \<and>
     (\<forall>w vs sts w'. im_ListServices (mm_Ipvs M) w = (Inr (vs, sts), w') \<longrightarrow> length vs = length sts) \<and>
     (\<forall>v w rs sts w'. im_GetRealServers (mm_Ipvs M) v w = (Inr (rs, sts), w') \<longrightarrow> length rs = length sts)"

lemma stats_lengths:
  assumes "stats_modules_ok P M"
  shows "im_ListServices (mm_Ipvs M) w = (Inr (vs, sts), w') \<Longrightarrow> length vs = length sts"
    and "im_GetRealServers (mm_Ipvs M) v w = (Inr (rs, sts), w') \<Longrightarrow> length rs = length sts"
  using assms unfolding stats_modules_ok_def by blast+

lemma emitReals_safe:
  fixes P :: "('d, 'h, 's) prometheus" and svc :: 't
  assumes "stats_modules_ok P M" and "svc \<in> S"
  shows "safe_a (with_entry S) (report_a (on_snd (im_GetRealServers (mm_Ipvs M) v)) (ret_a ())
    (\<lambda>(realServers, realsStats). realLoop P D svc known realServers realsStats))"
proof (rule safe_report_dep)
  show "safe_a (with_entry S) (on_snd (im_GetRealServers (mm_Ipvs M) v))"
    using assms(1) by (intro safe_world) (auto simp: stats_modules_ok_def elim: with_entry_world)
next
  fix s :: "('t, 'h) StatsManager \<times> 's" and a s'
  assume "on_snd (im_GetRealServers (mm_Ipvs M) v) s = (Inr a, s')"
  then obtain rs sts where "a = (rs, sts)" "length rs = length sts"
    by (cases a; cases s) (auto simp: on_snd_def split: prod.splits dest: stats_lengths(2) [OF assms(1)])
  then show "safe_a (with_entry S) (case a of (realServers, realsStats) \<Rightarrow> realLoop P D svc known realServers realsStats)"
    using assms realLoop_safe [of P svc S rs sts D known] by (simp add: stats_modules_ok_def)
qed (rule safe_ret)

lemma emitService_safe:
  fixes P :: "('d, 'h, 's) prometheus" and svc_text :: "IpvsService \<Rightarrow> 't"
  assumes "stats_modules_ok P M"
  shows "safe_a (with_entry {}) (emitService P D M svc_text v st)"
  unfolding safe_a_def
proof (intro allI impI)
  fix x :: "('t, 'h) StatsManager \<times> 's"
  assume I: "with_entry {} x"
  obtain m s where x: "x = (m, s)" by fastforce
  let ?svc = "svc_text v"
  let ?reals = "\<lambda>known. report_a (on_snd (im_GetRealServers (mm_Ipvs M) v)) (ret_a ())
    (\<lambda>(realServers, realsStats). realLoop P D ?svc known realServers realsStats)"
  have weaken: "\<not> is_panic (fst (act (m1, s1))) \<and> with_entry {} (snd (act (m1, s1)))"
    if "safe_a (with_entry {?svc}) act" "with_entry {?svc} (m1, s1)" for act :: "(('t, 'h) StatsManager \<times> 's, unit) act" and m1 s1
    using that by (auto simp: safe_a_def with_entry_def split: prod.splits)
  note reals = emitReals_safe [OF assms, of ?svc "{?svc}"]
  show "\<not> is_panic (fst (emitService P D M svc_text v st x)) \<and> with_entry {} (snd (emitService P D M svc_text v st x))"
  proof (cases "sm_prevStats m ?svc")
    case None
    let ?m = "m\<lparr>sm_prevStats := (sm_prevStats m)(?svc \<mapsto> [''service'' \<mapsto> st])\<rparr>"
    have "emitService P D M svc_text v st x = ?reals False (?m, s)"
      using None by (simp add: x emitService_def Let_def bind_a_def setPrev_def gets_a_def)
    moreover have "with_entry {?svc} (?m, s)"
      using I by (auto simp: x with_entry_def prev_ok_def)
    ultimately show ?thesis using weaken [OF reals] by simp
  next
    case (Some prev)
    then obtain old where old: "prev ''service'' = Some old"
      using I by (fastforce simp: x with_entry_def prev_ok_def)
    let ?A = "bind_a (on_snd (rm_ServiceLookup (mm_Resolver M) (Some v))) (\<lambda>name.
      report_a (emitServiceStats P D (metricService name) (Some old) st) (ret_a ()) ret_a)"
    have "safe_a (with_entry {?svc}) (bind_a ?A (\<lambda>_. bind_a (setPrev ?svc ''service'' st) (\<lambda>_. ?reals True)))"
      using assms by (intro safe setPrev_safe emitServiceStats_safe reals) (auto simp: stats_modules_ok_def elim: with_entry_world)
    moreover have "emitService P D M svc_text v st x = bind_a ?A (\<lambda>_. bind_a (setPrev ?svc ''service'' st) (\<lambda>_. ?reals True)) (m, s)"
      using Some old by (simp add: x emitService_def Let_def)
    moreover have "with_entry {?svc} (m, s)"
      using I Some by (auto simp: x with_entry_def)
    ultimately show ?thesis using weaken by simp
  qed
qed

lemma serviceLoop_safe:
  fixes P :: "('d, 'h, 's) prometheus" and svc_text :: "IpvsService \<Rightarrow> 't"
  assumes "stats_modules_ok P M" and "length vs = length sts"
  shows "safe_a (with_entry {}) (serviceLoop P D M svc_text vs sts)"
  using assms(2)
proof (induction vs sts rule: list_induct2)
  case Nil
  show ?case unfolding serviceLoop.simps by (rule safe_ret)
next
  case (Cons v vs st sts)
  show ?case
  proof (cases "IsFwmarkService (Some v)")
    case (Inl e)
    then show ?thesis
      by (auto simp: IsFwmarkService_def split: option.splits IpvsService_Attributes.splits)
  next
    case (Inr fwm)
    then have "serviceLoop P D M svc_text (v # vs) (st # sts) =
        (if fwm then serviceLoop P D M svc_text vs sts
         else bind_a (emitService P D M svc_text v st) (\<lambda>_. serviceLoop P D M svc_text vs sts))"
      by (auto simp: bind_a_def)
    then show ?thesis
      using Cons.IH by (auto intro: safe emitService_safe [OF assms(1)])
  qed
qed

lemma EmitStats_safe:
  fixes P :: "('d, 'h, 's) prometheus" and svc_text :: "IpvsService \<Rightarrow> 't"
  assumes "stats_modules_ok P M"
  shows "safe_a (with_entry {}) (EmitStats P D M svc_text age diffSec)"
proof -
  have list: "safe_a (with_entry {}) (wrap_a ''fails to get services: '' (on_snd (im_ListServices (mm_Ipvs M))) :: (('t, 'h) StatsManager \<times> 's, _) act)"
    using assms by (intro safe) (auto simp: stats_modules_ok_def elim: with_entry_world)
  have "safe_a (with_entry {}) (case p of (vs, sts) \<Rightarrow> serviceLoop P D M svc_text vs sts)"
    if "wrap_a ''fails to get services: '' (on_snd (im_ListServices (mm_Ipvs M))) x = (Inr p, x')" for p and x x' :: "('t, 'h) StatsManager \<times> 's"
  proof -
    obtain vs sts where p: "p = (vs, sts)" by fastforce
    with that have "length vs = length sts"
      by (cases x) (auto simp: wrap_a_ok on_snd_def split: prod.splits dest: stats_lengths(1) [OF assms])
    with p show ?thesis using serviceLoop_safe [OF assms] by simp
  qed
  then show ?thesis
    unfolding EmitStats_def by (intro safe safe_bind_dep list) (auto elim: with_entry_world)
qed

text \<open>
  C35: \<open>EmitStats\<close> never panics, whatever happens between its calls: it finds the previous counters of
  every service it has seen (the nil message is never dereferenced, no nil map is written), provided
  the modules list one counter record per service and upstream.
\<close>

theorem emit_stats_safe:
  fixes P :: "('d, 'h, 's) prometheus" and svc_text :: "IpvsService \<Rightarrow> 't" and D gauge emit and rounds :: "(('s \<Rightarrow> 's) \<times> rat) list"
  assumes "stats_modules_ok P M"
  defines "emit \<equiv> \<lambda>(change, age) (m, s). snd (EmitStats P D M svc_text gauge age (m, change s))"
  shows "\<not> is_panic (fst (EmitStats P D M svc_text gauge age (fold emit rounds (NewStatsManager, s))))"
proof -
  have "with_entry {} (fold emit rounds x)" if "with_entry {} x" for x
    using that
  proof (induction rounds arbitrary: x)
    case (Cons r rounds)
    obtain change age m s where r: "r = (change, age)" "x = (m, s)" by (metis surj_pair)
    have "with_entry {} (m, change s)" using Cons.prems r by (simp add: with_entry_def)
    then have "with_entry {} (emit r x)"
      using EmitStats_safe [OF assms(1), of D svc_text gauge age] by (simp add: r emit_def safe_a_def)
    then show ?case using Cons.IH by simp
  qed simp
  moreover have "with_entry {} (NewStatsManager, s)"
    by (simp add: with_entry_def prev_ok_def NewStatsManager_def)
  ultimately show ?thesis
    using EmitStats_safe [OF assms(1), of D svc_text gauge age] unfolding safe_a_def by blast
qed

subsection \<open>A sample\<close>

text \<open>One service without upstreams, whose counters are the argument.\<close>

definition tcp_service :: IpvsService where
  "tcp_service = \<lparr>ipvs_Attributes = Some (TcpAttributes None), ipvs_Scheduler = RR, ipvs_Flags = []\<rparr>"

definition bytes :: "u64 \<Rightarrow> Stats" where
  "bytes n = \<lparr>st_ConnectionsCount = 0, st_PacketsInCount = 0, st_PacketsOutCount = 0, st_BytesInCount = n, st_BytesOutCount = 0,
     st_ConnectionsRate = 0, st_PacketsInRate = 0, st_PacketsOutRate = 0, st_BytesInRate = 0, st_BytesOutRate = 0,
     st_ActiveConnsCount = 0, st_InactConnsCount = 0, st_PersistConnsCount = 0\<rparr>"

definition one_service :: "Stats \<Rightarrow> 's ManagerModules" where
  "one_service st = \<lparr>
     mm_Bgp = \<lparr>bm_Init = \<lambda>_. ret_a (), bm_Advertise = \<lambda>_. ret_a (), bm_Withdraw = \<lambda>_. ret_a (), bm_ListPaths = ret_a [], bm_IsSessionEstablished = ret_a True\<rparr>,
     mm_AddressTable = \<lparr>at_Add = \<lambda>_ _. ret_a (), at_Delete = \<lambda>_ _. ret_a (), at_IsExists = \<lambda>_ _. ret_a False, at_List = \<lambda>_. ret_a []\<rparr>,
     mm_Ipvs = \<lparr>im_AddService = \<lambda>_. ret_a (), im_DeleteService = \<lambda>_. ret_a (), im_ListServices = ret_a ([tcp_service], [st]),
       im_GetRealServers = \<lambda>_. ret_a ([], []), im_AddRealServers = \<lambda>_ _. ret_a (), im_DeleteRealServers = \<lambda>_ _. ret_a (), im_UpdateRealServers = \<lambda>_ _. ret_a ()\<rparr>,
     mm_Resolver = \<lparr>rm_Lookup = \<lambda>_. ret_a \<lparr>hce_IPv4 = [], hce_IPv6 = []\<rparr>, rm_ReverseLookup = \<lambda>_. ret_a [], rm_ServiceLookup = \<lambda>_. ret_a ''web'',
       rm_Cluster = \<lambda>s. s, rm_UpdateCache = \<lambda>_. ret_a ()\<rparr>,
     mm_ShutdownHandler = None\<rparr>"

definition sample_defs :: "string metricDefs" where
  "sample_defs = \<lparr>
     md_serviceBytesCounter = \<lparr>gd_tagNames = [''name'', ''direction''], gd_gauges = ''service_bytes''\<rparr>,
     md_servicePacketsCounter = \<lparr>gd_tagNames = [''name'', ''direction''], gd_gauges = ''service_packets''\<rparr>,
     md_upstreamBytesCounter = \<lparr>gd_tagNames = [''name'', ''direction''], gd_gauges = ''upstream_bytes''\<rparr>,
     md_upstreamPacketsCounter = \<lparr>gd_tagNames = [''name'', ''direction''], gd_gauges = ''upstream_packets''\<rparr>\<rparr>"

lemma one_service_ok: "stats_modules_ok sample_client (one_service st)"
  by (simp add: stats_modules_ok_def one_service_def sample_client_def safe_a_def)

theorem emit_stats_safe_witness:
  "\<not> is_panic (fst (EmitStats sample_client sample_defs (one_service (bytes 7)) id (gv_gauge sample_gauge) 30
     (fold (\<lambda>(change, age) (m, s). snd (EmitStats sample_client sample_defs (one_service (bytes 7)) id (gv_gauge sample_gauge) age (m, change s)))
        [(id, 10), (id, 20)] (NewStatsManager, []))))"
  by (rule emit_stats_safe) (rule one_service_ok)

end
