(* ===== verification/Dp_Traffic.thy ===== *)
theory Dp_Traffic
  imports Dp_Stats
begin

section \<open>What EmitStats adds to the counters\<close>

text \<open>
  With a client whose counters add up, one call of \<open>EmitStats\<close> adds to the counters of a service name
  what the kernel's counters of its services grew by since the last call, and keeps the new values
  for the next one.
\<close>

subsection \<open>What is relied on\<close>

text \<open>The modules leave counters alone: \<open>val\<close> reads a counter.\<close>

definition quiet :: "('s \<Rightarrow> 'h \<Rightarrow> rat) \<Rightarrow> ('s, 'a) act \<Rightarrow> bool" where
  "quiet val m \<longleftrightarrow> (\<forall>s. val (snd (m s)) = val s)"

definition modules_quiet :: "('s \<Rightarrow> 'h \<Rightarrow> rat) \<Rightarrow> 's ManagerModules \<Rightarrow> (IpvsService \<Rightarrow> string) \<Rightarrow> bool" where
  "modules_quiet val M name_of \<longleftrightarrow>
     quiet val (im_ListServices (mm_Ipvs M)) \<and> (\<forall>v. quiet val (im_GetRealServers (mm_Ipvs M) v)) \<and>
     (\<forall>v s. \<exists>s'. rm_ServiceLookup (mm_Resolver M) (Some v) s = (Inr (name_of v), s') \<and> val s' = val s)"

text \<open>The four vectors are different and have the tags the code gives values for.\<close>

definition defs_ok :: "'d metricDefs \<Rightarrow> bool" where
  "defs_ok D \<longleftrightarrow>
     distinct [gd_gauges (md_serviceBytesCounter D), gd_gauges (md_servicePacketsCounter D),
       gd_gauges (md_upstreamBytesCounter D), gd_gauges (md_upstreamPacketsCounter D)] \<and>
     (\<forall>c\<in>{md_serviceBytesCounter D, md_servicePacketsCounter D, md_upstreamBytesCounter D, md_upstreamPacketsCounter D}.
        gd_tagNames c = [''name'', ''direction''])"

definition handles :: "('d \<Rightarrow> KV \<Rightarrow> 'h) \<Rightarrow> 'd CounterDefinition \<Rightarrow> 'd CounterDefinition \<Rightarrow> string \<Rightarrow> 'h commonStats" where
  "handles handle b p name =
     (let h = (\<lambda>c direction. handle (gd_gauges c) (tagLabels (gd_tagNames c) [[(''name'', name), (''direction'', direction)]]))
      in \<lparr>sc_bytesIn = h b ''in'', sc_bytesOut = h b ''out'', sc_packetsIn = h p ''in'', sc_packetsOut = h p ''out''\<rparr>)"

abbreviation service_handles where
  "service_handles handle D \<equiv> handles handle (md_serviceBytesCounter D) (md_servicePacketsCounter D)"

abbreviation upstream_handles where
  "upstream_handles handle D \<equiv> handles handle (md_upstreamBytesCounter D) (md_upstreamPacketsCounter D)"

text \<open>The four counters of a name and the numbers of the kernel they follow.\<close>

datatype metric = BytesIn | BytesOut | PacketsIn | PacketsOut

fun counter :: "metric \<Rightarrow> 'h commonStats \<Rightarrow> 'h" where
  "counter BytesIn = sc_bytesIn"
| "counter BytesOut = sc_bytesOut"
| "counter PacketsIn = sc_packetsIn"
| "counter PacketsOut = sc_packetsOut"

fun reading :: "metric \<Rightarrow> Stats \<Rightarrow> u64" where
  "reading BytesIn = st_BytesInCount"
| "reading BytesOut = st_BytesOutCount"
| "reading PacketsIn = st_PacketsInCount"
| "reading PacketsOut = st_PacketsOutCount"

lemma tagLabels_pair: "tagLabels [''name'', ''direction''] [[(''name'', n), (''direction'', x)]] = [(''name'', n), (''direction'', x)]"
  by (simp add: tagLabels_def)

lemma instantiate_handles:
  assumes "counters_ok P val handle"
  shows "\<exists>s'. instantiateCommonStats P name b p s = (Inr (handles handle b p name), s') \<and> val s' = val s"
proof -
  have get: "\<exists>s'. CounterDefinition_V P c kv s = (Inr (handle (gd_gauges c) (tagLabels (gd_tagNames c) [kv])), s') \<and> val s' = val s" for c kv s
    using assms by (simp add: counters_ok_def CounterDefinition_V_def)
  obtain s1 where 1: "CounterDefinition_V P b [(''name'', name), (''direction'', ''in'')] s = (Inr (sc_bytesIn (handles handle b p name)), s1)" "val s1 = val s"
    using get by (fastforce simp: handles_def Let_def)
  obtain s2 where 2: "CounterDefinition_V P b [(''name'', name), (''direction'', ''out'')] s1 = (Inr (sc_bytesOut (handles handle b p name)), s2)" "val s2 = val s1"
    using get by (fastforce simp: handles_def Let_def)
  obtain s3 where 3: "CounterDefinition_V P p [(''name'', name), (''direction'', ''in'')] s2 = (Inr (sc_packetsIn (handles handle b p name)), s3)" "val s3 = val s2"
    using get by (fastforce simp: handles_def Let_def)
  obtain s4 where 4: "CounterDefinition_V P p [(''name'', name), (''direction'', ''out'')] s3 = (Inr (sc_packetsOut (handles handle b p name)), s4)" "val s4 = val s3"
    using get by (fastforce simp: handles_def Let_def)
  show ?thesis
    using 1 2 3 4 by (simp add: instantiateCommonStats_def Let_def)
qed

text \<open>Handles of different names, metrics or kinds differ.\<close>

lemma handles_distinct:
  assumes "counters_ok P val handle" "defs_ok D"
  shows "counter f (service_handles handle D n) = counter g (service_handles handle D n') \<longleftrightarrow> f = g \<and> n = n'"
    and "counter f (service_handles handle D n) \<noteq> counter g (upstream_handles handle D n')"
proof -
  have inj: "handle d l = handle d' l' \<longleftrightarrow> d = d' \<and> l = l'" for d l d' l'
    using assms(1) unfolding counters_ok_def by blast
  show "counter f (service_handles handle D n) = counter g (service_handles handle D n') \<longleftrightarrow> f = g \<and> n = n'"
    using assms(2) by (cases f; cases g) (auto simp: handles_def Let_def inj defs_ok_def tagLabels_pair)
  show "counter f (service_handles handle D n) \<noteq> counter g (upstream_handles handle D n')"
    using assms(2) by (cases f; cases g) (auto simp: handles_def Let_def inj defs_ok_def tagLabels_pair)
qed

definition grown :: "metric \<Rightarrow> Stats \<Rightarrow> Stats option \<Rightarrow> rat" where
  "grown f st prev = (case prev of None \<Rightarrow> 0 | Some old \<Rightarrow> diffMetric (reading f st) (reading f old))"

lemma emitCommon_val:
  assumes "counters_ok P val handle"
  shows "\<exists>s'. emitCommonMetrics P stats (Some old) cur s = (Inr (), s') \<and>
    (\<forall>h. (\<forall>f. counter f stats \<noteq> h) \<longrightarrow> val s' h = val s h) \<and>
    (inj (\<lambda>f. counter f stats) \<longrightarrow> (\<forall>f. val s' (counter f stats) = val s (counter f stats) + grown f cur (Some old)))"
proof -
  have add: "val (pr_Add P h v s) h' = val s h' + (if h' = h then v else 0)" for h v s h'
    using assms by (simp add: counters_ok_def)
  let ?s = "snd (emitCommonMetrics P stats (Some old) cur s)"
  have run: "emitCommonMetrics P stats (Some old) cur s = (Inr (), ?s)" by (simp add: emitCommonMetrics_def)
  have frame: "val ?s h = val s h" if h: "\<forall>f. counter f stats \<noteq> h" for h
  proof -
    have "sc_bytesIn stats \<noteq> h" "sc_bytesOut stats \<noteq> h" "sc_packetsIn stats \<noteq> h" "sc_packetsOut stats \<noteq> h"
      using h [rule_format, of BytesIn] h [rule_format, of BytesOut] h [rule_format, of PacketsIn] h [rule_format, of PacketsOut] by simp_all
    then show ?thesis by (simp add: emitCommonMetrics_def add)
  qed
  have grow: "val ?s (counter f stats) = val s (counter f stats) + grown f cur (Some old)" if inj: "inj (\<lambda>f. counter f stats)" for f
  proof -
    have d: "counter f stats = counter g stats \<longleftrightarrow> f = g" for f g
      using inj by (auto dest: injD)
    show ?thesis
      using d [of BytesIn BytesOut] d [of BytesIn PacketsIn] d [of BytesIn PacketsOut] d [of BytesOut PacketsIn]
        d [of BytesOut PacketsOut] d [of PacketsIn PacketsOut]
      by (cases f) (auto simp: emitCommonMetrics_def add grown_def)
  qed
  from run frame grow show ?thesis by blast
qed

subsection \<open>The loops\<close>

text \<open>The cached metrics are the client's.\<close>

definition std :: "('d \<Rightarrow> KV \<Rightarrow> 'h) \<Rightarrow> 'd metricDefs \<Rightarrow> ('t, 'h) StatsManager \<Rightarrow> bool" where
  "std handle D m \<longleftrightarrow> (\<forall>n st. sm_serviceStats m n = Some st \<longrightarrow> st = service_handles handle D n) \<and>
     (\<forall>n st. sm_upstreamStats m n = Some st \<longrightarrow> st = upstream_handles handle D n)"

definition last_seen :: "('t, 'h) StatsManager \<Rightarrow> 't \<Rightarrow> Stats option" where
  "last_seen m svc = Option.bind (sm_prevStats m svc) (\<lambda>x. x ''service'')"

definition service_val :: "('s \<Rightarrow> 'h \<Rightarrow> rat) \<Rightarrow> ('d \<Rightarrow> KV \<Rightarrow> 'h) \<Rightarrow> 'd metricDefs \<Rightarrow> 's \<Rightarrow> string \<Rightarrow> metric \<Rightarrow> rat" where
  "service_val val handle D s n f = val s (counter f (service_handles handle D n))"

lemma emitServiceStats_val:
  assumes "counters_ok P val handle" "defs_ok D" "std handle D m"
  shows "\<exists>m' s'. emitServiceStats P D name (Some old) cur (m, s) = (Inr (), (m', s')) \<and> std handle D m' \<and> sm_prevStats m' = sm_prevStats m \<and>
    (\<forall>n f. service_val val handle D s' n f = service_val val handle D s n f + (if n = name then grown f cur (Some old) else 0))"
proof -
  let ?h = "service_handles handle D name"
  have emit: "\<exists>s'. emitCommonMetrics P ?h (Some old) cur s = (Inr (), s') \<and>
      (\<forall>n f. service_val val handle D s' n f = service_val val handle D s n f + (if n = name then grown f cur (Some old) else 0))" for s
  proof -
    have "inj (\<lambda>f. counter f ?h)" by (simp add: inj_def handles_distinct(1) [OF assms(1,2)])
    with emitCommon_val [OF assms(1), of ?h old cur s] obtain s' where s': "emitCommonMetrics P ?h (Some old) cur s = (Inr (), s')"
      "\<forall>h. (\<forall>f. counter f ?h \<noteq> h) \<longrightarrow> val s' h = val s h"
      "\<forall>f. val s' (counter f ?h) = val s (counter f ?h) + grown f cur (Some old)" by blast
    have "val s' (counter f (service_handles handle D n)) = val s (counter f (service_handles handle D n))" if "n \<noteq> name" for n f
      using s'(2) that handles_distinct(1) [OF assms(1,2)] by metis
    then show ?thesis using s' by (auto simp: service_val_def)
  qed
  show ?thesis
  proof (cases "sm_serviceStats m name")
    case (Some st)
    then have "st = ?h" using assms(3) by (simp add: std_def)
    with Some emit [of s] assms(3) show ?thesis by (auto simp: emitServiceStats_def)
  next
    case None
    from instantiate_handles [OF assms(1)] obtain s1 where s1:
      "instantiateCommonStats P name (md_serviceBytesCounter D) (md_servicePacketsCounter D) s = (Inr ?h, s1)" "val s1 = val s" by blast
    from emit [of s1] obtain s' where s': "emitCommonMetrics P ?h (Some old) cur s1 = (Inr (), s')"
      "\<forall>n f. service_val val handle D s' n f = service_val val handle D s1 n f + (if n = name then grown f cur (Some old) else 0)" by blast
    have "std handle D (m\<lparr>sm_serviceStats := (sm_serviceStats m)(name \<mapsto> ?h)\<rparr>)" using assms(3) by (auto simp: std_def)
    then show ?thesis using None s1 s' by (auto simp: emitServiceStats_def service_val_def)
  qed
qed

lemma emitUpstreamStats_val:
  assumes "counters_ok P val handle" "defs_ok D" "std handle D m"
  shows "\<exists>m' s'. emitUpstreamStats P D name (Some old) cur (m, s) = (Inr (), (m', s')) \<and> std handle D m' \<and> sm_prevStats m' = sm_prevStats m \<and>
    service_val val handle D s' = service_val val handle D s"
proof -
  let ?h = "upstream_handles handle D name"
  have emit: "\<exists>s'. emitCommonMetrics P ?h (Some old) cur s = (Inr (), s') \<and> service_val val handle D s' = service_val val handle D s" for s
  proof -
    from emitCommon_val [OF assms(1), of ?h old cur s] obtain s' where s': "emitCommonMetrics P ?h (Some old) cur s = (Inr (), s')"
      "\<forall>h. (\<forall>f. counter f ?h \<noteq> h) \<longrightarrow> val s' h = val s h" by blast
    then have "service_val val handle D s' n f = service_val val handle D s n f" for n f
      using handles_distinct(2) [OF assms(1,2)] unfolding service_val_def by metis
    then show ?thesis using s'(1) by blast
  qed
  show ?thesis
  proof (cases "sm_upstreamStats m name")
    case (Some st)
    then have "st = ?h" using assms(3) by (simp add: std_def)
    with Some emit [of s] assms(3) show ?thesis by (auto simp: emitUpstreamStats_def)
  next
    case None
    from instantiate_handles [OF assms(1)] obtain s1 where s1:
      "instantiateCommonStats P name (md_upstreamBytesCounter D) (md_upstreamPacketsCounter D) s = (Inr ?h, s1)" "val s1 = val s" by blast
    from emit [of s1] obtain s' where s': "emitCommonMetrics P ?h (Some old) cur s1 = (Inr (), s')"
      "service_val val handle D s' = service_val val handle D s1" by blast
    have "std handle D (m\<lparr>sm_upstreamStats := (sm_upstreamStats m)(name \<mapsto> ?h)\<rparr>)" using assms(3) by (auto simp: std_def)
    then show ?thesis using None s1 s' by (auto simp: emitUpstreamStats_def service_val_def fun_eq_iff)
  qed
qed

text \<open>The entries of upstreams leave the entry of the service alone.\<close>

definition upstream_entry :: "UpstreamState \<Rightarrow> string" where
  "upstream_entry u = IP_String (KglbAddrToNetIp (us_Address u)) @ '':'' @ dec (unat (us_Port u))"

lemma upstream_entry_service: "''service'' \<noteq> upstream_entry u"
proof -
  have "CHR '':'' \<in> set (upstream_entry u)" by (simp add: upstream_entry_def)
  moreover have "CHR '':'' \<notin> set ''service''" by simp
  ultimately show ?thesis by metis
qed

text \<open>What a step on the upstreams of a listed service keeps.\<close>

definition kept :: "('s \<Rightarrow> 'h \<Rightarrow> rat) \<Rightarrow> ('d \<Rightarrow> KV \<Rightarrow> 'h) \<Rightarrow> 'd metricDefs \<Rightarrow> ('t, 'h) StatsManager \<times> 's \<Rightarrow> ('t, 'h) StatsManager \<times> 's \<Rightarrow> bool" where
  "kept val handle D = (\<lambda>(m, s) (m', s'). std handle D m' \<and> last_seen m' = last_seen m \<and>
     dom (sm_prevStats m') = dom (sm_prevStats m) \<and> service_val val handle D s' = service_val val handle D s)"

lemma kept_trans: "kept val handle D x y \<Longrightarrow> kept val handle D y z \<Longrightarrow> kept val handle D x z"
  by (cases x; cases y; cases z) (simp add: kept_def)

lemma kept_refl: "std handle D m \<Longrightarrow> kept val handle D (m, s) (m, s)"
  by (simp add: kept_def)

lemma setPrev_upstream:
  assumes "std handle D m" "svc \<in> dom (sm_prevStats m)"
  shows "\<exists>m'. setPrev svc (upstream_entry u) st (m, s) = (Inr (), (m', s)) \<and> kept val handle D (m, s) (m', s)"
proof -
  obtain x where x: "sm_prevStats m svc = Some x" using assms(2) by blast
  then have "setPrev svc (upstream_entry u) st (m, s) =
      (Inr (), (m\<lparr>sm_prevStats := (sm_prevStats m)(svc \<mapsto> x(upstream_entry u \<mapsto> st))\<rparr>, s))"
    by (simp add: setPrev_def)
  moreover have "last_seen (m\<lparr>sm_prevStats := (sm_prevStats m)(svc \<mapsto> x(upstream_entry u \<mapsto> st))\<rparr>) = last_seen m"
    using x upstream_entry_service by (auto simp: last_seen_def fun_eq_iff)
  ultimately show ?thesis
    using assms by (auto simp: kept_def std_def)
qed

lemma gets_bind: "bind_a (gets_a f) k x = k (f x) x"
  by (simp add: bind_a_def)

lemma realLoop_kept:
  assumes "counters_ok P val handle" "defs_ok D" and "length rs = length sts"
    and "std handle D m" "svc \<in> dom (sm_prevStats m)"
  shows "\<exists>m' s'. realLoop P D svc known rs sts (m, s) = (Inr (), (m', s')) \<and> kept val handle D (m, s) (m', s')"
  using assms(3-5)
proof (induction rs sts arbitrary: m s rule: list_induct2)
  case Nil
  then show ?case by (simp add: kept_def)
next
  case (Cons r rs st sts)
  let ?prev = "if known then Option.bind (sm_prevStats m svc) (\<lambda>x. x (upstream_entry r)) else None"
  let ?emit = "case ?prev of
      Some old \<Rightarrow> report_a (emitUpstreamStats P D (getUpstreamHostname r) (Some old) st) (ret_a ()) ret_a
    | None \<Rightarrow> ret_a ()"
  have "\<exists>m1 s1. ?emit (m, s) = (Inr (), (m1, s1)) \<and> kept val handle D (m, s) (m1, s1) \<and> sm_prevStats m1 = sm_prevStats m"
  proof (cases ?prev)
    case None
    then show ?thesis using Cons.prems by (auto simp: kept_def)
  next
    case (Some old)
    obtain m1 s1 where "emitUpstreamStats P D (getUpstreamHostname r) (Some old) st (m, s) = (Inr (), (m1, s1))"
      "std handle D m1" "sm_prevStats m1 = sm_prevStats m" "service_val val handle D s1 = service_val val handle D s"
      using emitUpstreamStats_val [OF assms(1,2) Cons.prems(1)] by blast
    then show ?thesis unfolding Some by (auto simp: report_a_def kept_def last_seen_def)
  qed
  then obtain m1 s1 where 1: "?emit (m, s) = (Inr (), (m1, s1))" "kept val handle D (m, s) (m1, s1)" "sm_prevStats m1 = sm_prevStats m"
    by blast
  have std1: "std handle D m1" "svc \<in> dom (sm_prevStats m1)" using 1 Cons.prems by (auto simp: kept_def)
  from setPrev_upstream [OF this, where u = r and st = st and s = s1 and val = val] obtain m2 where 2: "setPrev svc (upstream_entry r) st (m1, s1) = (Inr (), (m2, s1))"
    "kept val handle D (m1, s1) (m2, s1)" by blast
  have "std handle D m2" "svc \<in> dom (sm_prevStats m2)" using 2 std1 by (auto simp: kept_def)
  from Cons.IH [OF this] obtain m3 s3 where 3: "realLoop P D svc known rs sts (m2, s1) = (Inr (), (m3, s3))" "kept val handle D (m2, s1) (m3, s3)"
    by blast
  have "realLoop P D svc known (r # rs) (st # sts) (m, s) = (Inr (), (m3, s3))"
    unfolding realLoop.simps Let_def upstream_entry_def [symmetric] gets_bind prod.case
    using 1(1) 2(1) 3(1) by simp
  moreover have "kept val handle D (m, s) (m3, s3)"
    using 1(2) 2(2) 3(2) by (blast intro: kept_trans)
  ultimately show ?case by blast
qed

lemma emitReals_kept:
  assumes "counters_ok P val handle" "defs_ok D" "modules_quiet val M name_of" "stats_modules_ok P M"
    and "std handle D m" "svc \<in> dom (sm_prevStats m)"
  shows "\<exists>m' s'. report_a (on_snd (im_GetRealServers (mm_Ipvs M) v)) (ret_a ())
      (\<lambda>(realServers, realsStats). realLoop P D svc known realServers realsStats) (m, s) = (Inr (), (m', s')) \<and> kept val handle D (m, s) (m', s')"
proof -
  obtain r s1 where get: "im_GetRealServers (mm_Ipvs M) v s = (r, s1)" by fastforce
  have "val s1 = val s"
    using assms(3) get unfolding modules_quiet_def quiet_def by (metis snd_conv)
  then have k: "kept val handle D (m, s) (m, s1)" using assms(5) by (simp add: kept_def service_val_def fun_eq_iff)
  have np: "\<not> is_panic r"
    using assms(4) get unfolding stats_modules_ok_def safe_a_def by (metis fst_conv)
  show ?thesis
  proof (cases r)
    case (Inl e)
    with np get k show ?thesis by (cases e) (auto simp: report_a_def)
  next
    case (Inr p)
    obtain rs sts where p: "p = (rs, sts)" by fastforce
    with get Inr have "length rs = length sts" using stats_lengths(2) [OF assms(4)] by blast
    from realLoop_kept [OF assms(1,2) this assms(5,6), of known s1] obtain m' s' where
      run: "realLoop P D svc known rs sts (m, s1) = (Inr (), (m', s'))" "kept val handle D (m, s1) (m', s')" by blast
    have "kept val handle D (m, s) (m', s')" using k run(2) by (rule kept_trans)
    with get Inr p run(1) show ?thesis by (auto simp: report_a_def)
  qed
qed

text \<open>A service: its counters grow by what is new since it was seen last, which is what is kept.\<close>

lemma setPrev_service:
  assumes "std handle D m" "sm_prevStats m svc = Some x"
  shows "\<exists>m'. setPrev svc ''service'' st (m, s) = (Inr (), (m', s)) \<and> std handle D m' \<and>
    last_seen m' = (last_seen m)(svc \<mapsto> st) \<and> dom (sm_prevStats m') = dom (sm_prevStats m)"
  using assms by (auto simp: setPrev_def std_def last_seen_def fun_eq_iff)

lemma emitService_val:
  assumes "counters_ok P val handle" "defs_ok D" "modules_quiet val M name_of" "stats_modules_ok P M"
    and "std handle D m" "prev_ok m"
  shows "\<exists>m' s'. emitService P D M svc_text v st (m, s) = (Inr (), (m', s')) \<and> std handle D m' \<and> prev_ok m' \<and>
    last_seen m' = (last_seen m)(svc_text v \<mapsto> st) \<and>
    (\<forall>n f. service_val val handle D s' n f = service_val val handle D s n f +
       (if metricService (name_of v) = n then grown f st (last_seen m (svc_text v)) else 0))"
proof -
  let ?svc = "svc_text v"
  let ?first = "case sm_prevStats m ?svc of
      Some prev \<Rightarrow> bind_a (on_snd (rm_ServiceLookup (mm_Resolver M) (Some v))) (\<lambda>name.
        report_a (emitServiceStats P D (metricService name) (prev ''service'') st) (ret_a ()) ret_a)
    | None \<Rightarrow> modify_a (\<lambda>(m, s). (m\<lparr>sm_prevStats := (sm_prevStats m)(?svc \<mapsto> Map.empty)\<rparr>, s))"
  have "\<exists>m1 s1. ?first (m, s) = (Inr (), (m1, s1)) \<and> std handle D m1 \<and>
    sm_prevStats m1 = (case sm_prevStats m ?svc of None \<Rightarrow> (sm_prevStats m)(?svc \<mapsto> Map.empty) | Some _ \<Rightarrow> sm_prevStats m) \<and>
    (\<forall>n f. service_val val handle D s1 n f = service_val val handle D s n f +
       (if metricService (name_of v) = n then grown f st (last_seen m ?svc) else 0))"
  proof (cases "sm_prevStats m ?svc")
    case None
    then show ?thesis using assms(5) by (simp add: std_def last_seen_def grown_def)
  next
    case (Some prev)
    then obtain old where old: "prev ''service'' = Some old" using assms(6) by (fastforce simp: prev_ok_def)
    obtain s0 where s0: "rm_ServiceLookup (mm_Resolver M) (Some v) s = (Inr (name_of v), s0)" "val s0 = val s"
      using assms(3) unfolding modules_quiet_def by blast
    from emitServiceStats_val [OF assms(1,2,5), of "metricService (name_of v)" old st s0] obtain m1 s1 where
      1: "emitServiceStats P D (metricService (name_of v)) (Some old) st (m, s0) = (Inr (), (m1, s1))" "std handle D m1" "sm_prevStats m1 = sm_prevStats m"
      "\<forall>n f. service_val val handle D s1 n f = service_val val handle D s0 n f + (if n = metricService (name_of v) then grown f st (Some old) else 0)"
      by blast
    have "service_val val handle D s0 = service_val val handle D s" using s0(2) by (simp add: service_val_def fun_eq_iff)
    then show ?thesis using 1 s0(1) old Some by (auto simp: report_a_def last_seen_def)
  qed
  then obtain m1 s1 where 1: "?first (m, s) = (Inr (), (m1, s1))" "std handle D m1"
    "sm_prevStats m1 = (case sm_prevStats m ?svc of None \<Rightarrow> (sm_prevStats m)(?svc \<mapsto> Map.empty) | Some _ \<Rightarrow> sm_prevStats m)"
    "\<forall>n f. service_val val handle D s1 n f = service_val val handle D s n f +
       (if metricService (name_of v) = n then grown f st (last_seen m ?svc) else 0)" by blast
  then obtain x where x: "sm_prevStats m1 ?svc = Some x" by (cases "sm_prevStats m ?svc") auto
  have seen1: "(last_seen m1)(?svc \<mapsto> st) = (last_seen m)(?svc \<mapsto> st)" using 1(3) by (auto simp: last_seen_def fun_eq_iff split: option.splits)
  have dom1: "dom (sm_prevStats m1) = insert ?svc (dom (sm_prevStats m))" using 1(3) by (cases "sm_prevStats m ?svc") auto
  from setPrev_service [OF 1(2) x, of st s1] obtain m2 where 2: "setPrev ?svc ''service'' st (m1, s1) = (Inr (), (m2, s1))" "std handle D m2"
    "last_seen m2 = (last_seen m1)(?svc \<mapsto> st)" "dom (sm_prevStats m2) = dom (sm_prevStats m1)" by blast
  have "?svc \<in> dom (sm_prevStats m2)" using 2(4) x by auto
  from emitReals_kept [OF assms(1-4) 2(2) this, of v "sm_prevStats m ?svc \<noteq> None" s1] obtain m3 s3 where
    3: "report_a (on_snd (im_GetRealServers (mm_Ipvs M) v)) (ret_a ())
      (\<lambda>(realServers, realsStats). realLoop P D ?svc (sm_prevStats m ?svc \<noteq> None) realServers realsStats) (m2, s1) = (Inr (), (m3, s3))"
    "kept val handle D (m2, s1) (m3, s3)" by blast
  have run: "emitService P D M svc_text v st (m, s) = (Inr (), (m3, s3))"
    unfolding emitService_def Let_def gets_bind prod.case using 1(1) 2(1) 3(1) by simp
  have seen3: "last_seen m3 = (last_seen m)(?svc \<mapsto> st)" "dom (sm_prevStats m3) = insert ?svc (dom (sm_prevStats m))"
    using 3(2) 2(3,4) seen1 dom1 by (simp_all add: kept_def)
  have "prev_ok m3"
    unfolding prev_ok_def
  proof (intro allI impI)
    fix k y assume y: "sm_prevStats m3 k = Some y"
    have "last_seen m3 k \<noteq> None"
    proof (cases "k = ?svc")
      case False
      then have "k \<in> dom (sm_prevStats m)" using y seen3(2) by blast
      then have "last_seen m k \<noteq> None" using assms(6) by (auto simp: prev_ok_def last_seen_def)
      then show ?thesis using False by (simp add: seen3)
    qed (simp add: seen3)
    then show "y ''service'' \<noteq> None" using y by (simp add: last_seen_def)
  qed
  with run seen3(1) 3(2) 1(4) show ?thesis by (auto simp: kept_def)
qed

abbreviation is_fwm :: "IpvsService \<Rightarrow> bool" where
  "is_fwm v \<equiv> IsFwmarkService (Some v) = Inr True"

definition counted :: "(IpvsService \<times> Stats) list \<Rightarrow> (IpvsService \<times> Stats) list" where
  "counted = filter (\<lambda>(v, _). \<not> is_fwm v)"

lemma serviceLoop_val:
  assumes "counters_ok P val handle" "defs_ok D" "modules_quiet val M name_of" "stats_modules_ok P M"
    and "length vs = length sts" "std handle D m" "prev_ok m" "distinct (map (svc_text \<circ> fst) (counted (zip vs sts)))"
  shows "\<exists>m' s'. serviceLoop P D M svc_text vs sts (m, s) = (Inr (), (m', s')) \<and> std handle D m' \<and> prev_ok m' \<and>
    last_seen m' = (last_seen m)(map (svc_text \<circ> fst) (counted (zip vs sts)) [\<mapsto>] map snd (counted (zip vs sts))) \<and>
    (\<forall>n f. service_val val handle D s' n f = service_val val handle D s n f +
       (\<Sum>(v, st)\<leftarrow>counted (zip vs sts). if metricService (name_of v) = n then grown f st (last_seen m (svc_text v)) else 0))"
  using assms(5-8)
proof (induction vs sts arbitrary: m s rule: list_induct2)
  case Nil
  then show ?case by (simp add: counted_def)
next
  case (Cons v vs st sts)
  have fw: "\<exists>b. IsFwmarkService (Some v) = Inr b"
    by (auto simp: IsFwmarkService_def split: option.split IpvsService_Attributes.split)
  show ?case
  proof (cases "is_fwm v")
    case True
    then show ?thesis using Cons.IH [OF Cons.prems(1,2)] Cons.prems(3) by (simp add: counted_def bind_a_def)
  next
    case False
    then have no: "IsFwmarkService (Some v) = Inr False" using fw by auto
    have c: "counted (zip (v # vs) (st # sts)) = (v, st) # counted (zip vs sts)" using False by (simp add: counted_def)
    from emitService_val [OF assms(1-4) Cons.prems(1,2), of svc_text v st s] obtain m1 s1 where
      1: "emitService P D M svc_text v st (m, s) = (Inr (), (m1, s1))" "std handle D m1" "prev_ok m1" "last_seen m1 = (last_seen m)(svc_text v \<mapsto> st)"
      "\<forall>n f. service_val val handle D s1 n f = service_val val handle D s n f +
         (if metricService (name_of v) = n then grown f st (last_seen m (svc_text v)) else 0)" by blast
    have d: "distinct (map (svc_text \<circ> fst) (counted (zip vs sts)))" "svc_text v \<notin> set (map (svc_text \<circ> fst) (counted (zip vs sts)))"
      using Cons.prems(3) unfolding c by (simp_all add: comp_def)
    from Cons.IH [OF 1(2,3) d(1), of s1] obtain m2 s2 where
      2: "serviceLoop P D M svc_text vs sts (m1, s1) = (Inr (), (m2, s2))" "std handle D m2" "prev_ok m2"
      "last_seen m2 = (last_seen m1)(map (svc_text \<circ> fst) (counted (zip vs sts)) [\<mapsto>] map snd (counted (zip vs sts)))"
      "\<forall>n f. service_val val handle D s2 n f = service_val val handle D s1 n f +
         (\<Sum>(w, t)\<leftarrow>counted (zip vs sts). if metricService (name_of w) = n then grown f t (last_seen m1 (svc_text w)) else 0)" by blast
    have same: "(\<Sum>(w, t)\<leftarrow>counted (zip vs sts). if metricService (name_of w) = n then grown f t (last_seen m1 (svc_text w)) else 0) =
      (\<Sum>(w, t)\<leftarrow>counted (zip vs sts). if metricService (name_of w) = n then grown f t (last_seen m (svc_text w)) else 0)" for n f
      using d(2) by (intro arg_cong [of _ _ sum_list] map_cong) (auto simp: 1(4) image_iff)
    have "serviceLoop P D M svc_text (v # vs) (st # sts) (m, s) = (Inr (), (m2, s2))"
      using 1(1) 2(1) no by (simp add: bind_a_def)
    moreover have "last_seen m2 = (last_seen m)(map (svc_text \<circ> fst) (counted (zip (v # vs) (st # sts))) [\<mapsto>] map snd (counted (zip (v # vs) (st # sts))))"
      unfolding c using 2(4) 1(4) by simp
    moreover have "\<forall>n f. service_val val handle D s2 n f = service_val val handle D s n f +
       (\<Sum>(w, t)\<leftarrow>counted (zip (v # vs) (st # sts)). if metricService (name_of w) = n then grown f t (last_seen m (svc_text w)) else 0)"
      unfolding c using 2(5) 1(5) same by simp
    ultimately show ?thesis using 2(2,3) by blast
  qed
qed

subsection \<open>The property\<close>

lemma f64_exact: "unat w < 2 ^ 53 \<Longrightarrow> f64_of_u64 w = of_nat (unat w)"
proof -
  have "nbits n \<le> k" if "n < 2 ^ k" for n k
    using that
  proof (induction n arbitrary: k rule: nbits.induct)
    case (1 n)
    show ?case
    proof (cases "n = 0")
      case False
      with 1(2) obtain k' where k: "k = Suc k'" by (cases k) auto
      have "n div 2 < 2 ^ k'" using 1(2) k by (simp add: less_mult_imp_div_less mult.commute)
      with 1(1) [OF False this] False k show ?thesis by (simp add: nbits.simps [of n])
    qed (simp add: nbits.simps)
  qed
  then show "unat w < 2 ^ 53 \<Longrightarrow> ?thesis" by (simp add: f64_of_u64_def div_even_def)
qed

lemma diffMetric_exact:
  "old \<le> new \<Longrightarrow> unat (new - old) < 2 ^ 53 \<Longrightarrow> diffMetric new old = of_nat (unat new - unat old)"
  "new < old \<Longrightarrow> unat new < 2 ^ 53 \<Longrightarrow> diffMetric new old = of_nat (unat new)"
  using f64_exact [of "new - old"] f64_exact [of new]
  by (auto simp: diffMetric_def unat_sub not_less)


text \<open>A service that has been seen with 5 bytes.\<close>

lemma ledger_ok: "counters_ok ledger (\<lambda>s. s) Pair" "stats_modules_ok ledger (one_service st)"
  "modules_quiet (\<lambda>s. s) (one_service st) (\<lambda>_. ''web'')" "defs_ok sample_defs"
  by (auto simp: counters_ok_def ledger_def stats_modules_ok_def modules_quiet_def quiet_def one_service_def safe_a_def defs_ok_def sample_defs_def)

definition seen_five :: "(IpvsService, string \<times> KV) StatsManager" where
  "seen_five = NewStatsManager\<lparr>sm_prevStats := [tcp_service \<mapsto> [''service'' \<mapsto> bytes 5]]\<rparr>"


end
