(* ===== verification/Netlink.thy ===== *)
theory Netlink
  imports Dp_Modules "HOL-Library.List_Lexorder" "HOL-Library.Char_ord"
begin

section \<open>kglb/data\_plane: netlink\_address\_impl.go\<close>

text \<open>
  The address table of the kernel behind the interface \<open>AddressTableModule\<close>. The netlink library is a
  parameter, as it is in the code (\<open>netlinkFunc\<close>): a link has type \<open>'l\<close>, an address is the
  \<open>net.IPNet\<close> inside \<open>netlink.Addr\<close>. \<open>netlink_ok\<close> states what the library does for the kernel's
  tables. \<open>sort.Slice\<close> is not stable, but equal texts are equal addresses up to their form.
\<close>

subsection \<open>The module\<close>

datatype nl_family = FAMILY_V4 | FAMILY_V6

record ('l, 's) netlinkFunc =
  nf_AddrAdd :: "'l \<Rightarrow> ip_net \<Rightarrow> ('s, unit) act"
  nf_AddrDel :: "'l \<Rightarrow> ip_net \<Rightarrow> ('s, unit) act"
  nf_AddrList :: "'l \<Rightarrow> nl_family \<Rightarrow> ('s, ip_net list) act"
  nf_ParseAddr :: "string \<Rightarrow> ip_net result"
  nf_LinkByName :: "string \<Rightarrow> ('s, 'l) act"

definition Netlink_List :: "('l, 's) netlinkFunc \<Rightarrow> string \<Rightarrow> ('s, net_ip list) act" where
  "Netlink_List nl iface =
     bind_a (nf_LinkByName nl iface) (\<lambda>ntLink.
     bind_a (map_a (\<lambda>addrFamily. wrap_a ''netlink.AddrList() fails: '' (nf_AddrList nl ntLink addrFamily)) [FAMILY_V4, FAMILY_V6]) (\<lambda>lists.
       ret_a (sort_key IP_String (map fst (concat lists)))))"

definition Netlink_IsExists :: "('l, 's) netlinkFunc \<Rightarrow> net_ip \<Rightarrow> string \<Rightarrow> ('s, bool) act" where
  "Netlink_IsExists nl addr iface = bind_a (Netlink_List nl iface) (\<lambda>addrs. ret_a (list_ex (\<lambda>linkAddr. IP_Equal addr linkAddr) addrs))"

definition Netlink_Add :: "('l, 's) netlinkFunc \<Rightarrow> net_ip \<Rightarrow> string \<Rightarrow> ('s, unit) act" where
  "Netlink_Add nl addr iface =
     bind_a (Netlink_IsExists nl addr iface) (\<lambda>exist.
       if exist then lift_r (fail ''address already exist'')
       else bind_a (lift_r (nf_ParseAddr nl (IP_String addr @ ''/32''))) (\<lambda>ntAddr.
            bind_a (nf_LinkByName nl iface) (\<lambda>ntLink. nf_AddrAdd nl ntLink ntAddr)))"

definition Netlink_Delete :: "('l, 's) netlinkFunc \<Rightarrow> net_ip \<Rightarrow> string \<Rightarrow> ('s, unit) act" where
  "Netlink_Delete nl addr iface =
     bind_a (Netlink_IsExists nl addr iface) (\<lambda>exist.
       if \<not> exist then lift_r (fail ''address does not exist'')
       else bind_a (lift_r (nf_ParseAddr nl (IP_String addr @ ''/32''))) (\<lambda>ntAddr.
            bind_a (nf_LinkByName nl iface) (\<lambda>ntLink. nf_AddrDel nl ntLink ntAddr)))"

definition newNetLinkAddress :: "('l, 's) netlinkFunc \<Rightarrow> 's AddressTableModule" where
  "newNetLinkAddress nl = \<lparr>at_Add = Netlink_Add nl, at_Delete = Netlink_Delete nl, at_IsExists = Netlink_IsExists nl, at_List = Netlink_List nl\<rparr>"

subsection \<open>What the library does\<close>

text \<open>
  \<open>tbl w i\<close> is the kernel's table of interface \<open>i\<close>. Adding appends; deleting needs the very address
  and mask. \<open>ParseAddr\<close> parses an IPv4 address with its mask as \<open>net.ParseCIDR\<close> does.
\<close>

definition netlink_ok :: "('l, 's) netlinkFunc \<Rightarrow> ('s \<Rightarrow> string \<Rightarrow> ip_net list) \<Rightarrow> string set \<Rightarrow> bool" where
  "netlink_ok nl tbl ifaces \<longleftrightarrow> (\<exists>link. \<forall>i\<in>ifaces. \<forall>w.
     nf_LinkByName nl i w = (Inr (link i), w) \<and>
     nf_AddrList nl (link i) FAMILY_V4 w = (Inr (filter (\<lambda>a. is_v4 (fst a)) (tbl w i)), w) \<and>
     nf_AddrList nl (link i) FAMILY_V6 w = (Inr (filter (\<lambda>a. \<not> is_v4 (fst a)) (tbl w i)), w) \<and>
     (\<forall>a. \<exists>w'. nf_AddrAdd nl (link i) a w = (Inr (), w') \<and> tbl w' = (tbl w)(i := tbl w i @ [a])) \<and>
     (\<forall>a\<in>set (tbl w i). \<exists>w'. nf_AddrDel nl (link i) a w = (Inr (), w') \<and> tbl w' = (tbl w)(i := removeAll a (tbl w i)))) \<and>
   (\<forall>bs. length bs = 4 \<longrightarrow> nf_ParseAddr nl (dotted bs @ ''/32'') = Inr (v4InV6Prefix @ bs, cidr_mask 32 4))"

text \<open>An address is on an interface, in whatever form.\<close>

definition on_iface :: "('s \<Rightarrow> string \<Rightarrow> ip_net list) \<Rightarrow> 's \<Rightarrow> net_ip \<Rightarrow> string \<Rightarrow> bool" where
  "on_iface tbl w a i \<longleftrightarrow> (\<exists>x\<in>set (tbl w i). IP_Equal a (fst x))"

lemma Netlink_IsExists_ok:
  assumes "netlink_ok nl tbl ifaces" "i \<in> ifaces"
  shows "Netlink_IsExists nl a i w = (Inr (on_iface tbl w a i), w)"
proof -
  obtain link where "nf_LinkByName nl i w = (Inr (link i), w)"
    "nf_AddrList nl (link i) FAMILY_V4 w = (Inr (filter (\<lambda>a. is_v4 (fst a)) (tbl w i)), w)"
    "nf_AddrList nl (link i) FAMILY_V6 w = (Inr (filter (\<lambda>a. \<not> is_v4 (fst a)) (tbl w i)), w)"
    using assms unfolding netlink_ok_def by metis
  then have "Netlink_List nl i w =
      (Inr (sort_key IP_String (map fst (filter (\<lambda>a. is_v4 (fst a)) (tbl w i) @ filter (\<lambda>a. \<not> is_v4 (fst a)) (tbl w i)))), w)"
    by (simp add: Netlink_List_def)
  then show ?thesis
    by (auto simp: Netlink_IsExists_def on_iface_def list_ex_iff)
qed

lemma netlink_steps:
  assumes "netlink_ok nl tbl ifaces" "i \<in> ifaces" "To4 a = Some bs"
  shows "\<not> on_iface tbl w a i \<Longrightarrow> \<exists>w'. Netlink_Add nl a i w = (Inr (), w') \<and> tbl w' = (tbl w)(i := tbl w i @ [(v4InV6Prefix @ bs, cidr_mask 32 4)])"
    and "(v4InV6Prefix @ bs, cidr_mask 32 4) \<in> set (tbl w i) \<Longrightarrow>
      \<exists>w'. Netlink_Delete nl a i w = (Inr (), w') \<and> tbl w' = (tbl w)(i := removeAll (v4InV6Prefix @ bs, cidr_mask 32 4) (tbl w i))"
proof -
  let ?x = "(v4InV6Prefix @ bs, cidr_mask 32 4)"
  obtain link where l: "nf_LinkByName nl i w = (Inr (link i), w)"
    "\<forall>a. \<exists>w'. nf_AddrAdd nl (link i) a w = (Inr (), w') \<and> tbl w' = (tbl w)(i := tbl w i @ [a])"
    "\<forall>a\<in>set (tbl w i). \<exists>w'. nf_AddrDel nl (link i) a w = (Inr (), w') \<and> tbl w' = (tbl w)(i := removeAll a (tbl w i))"
    using assms(1,2) unfolding netlink_ok_def by metis
  have "IP_String a = dotted bs" using assms(3) by (auto simp: IP_String_def)
  moreover have "length bs = 4" using assms(3) by (rule To4_length)
  ultimately have p: "nf_ParseAddr nl (IP_String a @ ''/32'') = Inr ?x"
    using assms(1) unfolding netlink_ok_def by metis
  show "\<exists>w'. Netlink_Add nl a i w = (Inr (), w') \<and> tbl w' = (tbl w)(i := tbl w i @ [?x])" if "\<not> on_iface tbl w a i"
    using that l(1,2) p Netlink_IsExists_ok [OF assms(1,2), of a w] by (simp add: Netlink_Add_def)
  show "\<exists>w'. Netlink_Delete nl a i w = (Inr (), w') \<and> tbl w' = (tbl w)(i := removeAll ?x (tbl w i))" if "?x \<in> set (tbl w i)"
  proof -
    have "on_iface tbl w a i"
      using that assms(3) \<open>length bs = 4\<close> unfolding on_iface_def
      by (intro bexI [OF _ that]) (auto simp: IP_Equal_def To4_def split: if_splits, metis append_take_drop_id)
    then show ?thesis
      using that l(1,3) p Netlink_IsExists_ok [OF assms(1,2), of a w] by (simp add: Netlink_Delete_def)
  qed
qed

lemma norm_v4: "To4 a = Some bs \<Longrightarrow> norm_ip (v4InV6Prefix @ bs) = norm_ip a"
  unfolding IP_Equal_norm [symmetric] by (auto simp: IP_Equal_def To4_def split: if_splits) (metis append_take_drop_id)


text \<open>A kernel with one table per interface.\<close>

definition memory_netlink :: "(string, string \<Rightarrow> ip_net list) netlinkFunc" where
  "memory_netlink = \<lparr>
     nf_AddrAdd = \<lambda>i a. modify_a (\<lambda>w. w(i := w i @ [a])),
     nf_AddrDel = \<lambda>i a. modify_a (\<lambda>w. w(i := removeAll a (w i))),
     nf_AddrList = \<lambda>i f. gets_a (\<lambda>w. filter (\<lambda>a. is_v4 (fst a) = (f = FAMILY_V4)) (w i)),
     nf_ParseAddr = \<lambda>s. Inr (ParseIP (takeWhile (\<lambda>c. c \<noteq> CHR ''/'') s), cidr_mask 32 4),
     nf_LinkByName = ret_a\<rparr>"

lemma memory_netlink_ok: "netlink_ok memory_netlink (\<lambda>w. w) UNIV"
proof -
  have "takeWhile (\<lambda>c. c \<noteq> CHR ''/'') (dotted bs @ ''/32'') = dotted bs" for bs
    by (subst takeWhile_append2) (use dotted_no_slash in metis, simp)
  then show ?thesis
    by (auto simp: netlink_ok_def memory_netlink_def ParseIP_dotted intro!: exI [of _ id])
qed


end
