(* ===== verification/Pretty.thy ===== *)
theory Pretty
  imports Data_Types "HOL-Library.List_Lexorder" "HOL-Library.Char_ord"
begin

section \<open>kglb/common: pretty.go\<close>

text \<open>
  The dump of a data plane state. \<open>sort.Slice\<close> sorts the upstreams of the state in place, by the text
  of their addresses (the parameter \<open>ip_text\<close>), so the state is returned too. The sort is not stable
  in general; upstreams with equal addresses may come in either order, of which one is taken here.
\<close>

subsection \<open>Parts\<close>

definition PrettyForwardMethod :: "ForwardMethods \<Rightarrow> string result" where
  "PrettyForwardMethod fw = (case fw of TUNNEL \<Rightarrow> Inr ''Tunnel'' | MASQ \<Rightarrow> Inr ''Masq'' | ForwardMethods_num _ \<Rightarrow> fail ''unknown ForwardMethod'')"

definition PrettyIpvsScheduler :: "IpvsService_Scheduler \<Rightarrow> string result" where
  "PrettyIpvsScheduler scheduler =
     (case scheduler of RR \<Rightarrow> Inr ''rr'' | WRR \<Rightarrow> Inr ''wrr'' | IP_VS_SCH \<Rightarrow> Inr ''ip_vs_sch''
      | Scheduler_num _ \<Rightarrow> fail ''unknown kglb ipvs scheduler'')"

text \<open>\<open>uint16(port)\<close> drops the upper half.\<close>

definition addrPort :: "string \<Rightarrow> IP option \<Rightarrow> u32 \<Rightarrow> string" where
  "addrPort proto address port = proto @ ''  '' @ IP_String (KglbAddrToNetIp address) @ '':'' @ dec (unat (ucast port :: u16))"

definition PrettyLoadBalancerService :: "LoadBalancerService option \<Rightarrow> string result" where
  "PrettyLoadBalancerService lb =
     bind_r (GetIpvsServiceFromLbService lb) (\<lambda>ipvsService.
     bind_r (case ipvs_Attributes ipvsService of
         Some (TcpAttributes None) \<Rightarrow> nilDeref
       | Some (TcpAttributes (Some a)) \<Rightarrow> Inr (addrPort ''TCP'' (tcp_Address a) (tcp_Port a))
       | Some (UdpAttributes None) \<Rightarrow> nilDeref
       | Some (UdpAttributes (Some a)) \<Rightarrow> Inr (addrPort ''UDP'' (udp_Address a) (udp_Port a))
       | Some (FwmarkAttributes None) \<Rightarrow> nilDeref
       | Some (FwmarkAttributes (Some f)) \<Rightarrow> Inr (''FWM  '' @ dec (unat (fw_Fwmark f)))
       | None \<Rightarrow> fail ''Unknown attributes type'') (\<lambda>out.
     bind_r (PrettyIpvsScheduler (ipvs_Scheduler ipvsService)) (\<lambda>scheduler.
       Inr (out @ '' '' @ scheduler))))"

definition PrettyUpstreamState :: "UpstreamState \<Rightarrow> string result" where
  "PrettyUpstreamState up =
     bind_r (PrettyForwardMethod (us_ForwardMethod up)) (\<lambda>fw.
       Inr (us_Hostname up @ ''|'' @ IP_String (KglbAddrToNetIp (us_Address up)) @ '':'' @ dec (unat (us_Port up)) @ '' '' @ fw @ '' '' @
            dec (unat (us_Weight up))))"

definition PrettyLinkAddress :: "LinkAddress \<Rightarrow> string result" where
  "PrettyLinkAddress link = Inr (IP_String (KglbAddrToNetIp (la_Address link)) @ ''%'' @ la_LinkName link)"

definition PrettyDynamicRoute :: "DynamicRoute \<Rightarrow> string result" where
  "PrettyDynamicRoute routing =
     (case dr_Attributes routing of
        Some (DynamicRoute_Bgp bgp) \<Rightarrow>
          Inr (dec (unat (case bgp of None \<Rightarrow> 0 | Some a \<Rightarrow> bgp_LocalAsn a)) @ '' '' @
               dec (unat (case bgp of None \<Rightarrow> 0 | Some a \<Rightarrow> bgp_PeerAsn a)) @ '' '' @
               map (\<lambda>c. if c = CHR '' '' then CHR '','' else c) (case bgp of None \<Rightarrow> [] | Some a \<Rightarrow> bgp_Community a) @ '' '' @
               IP_String (KglbAddrToNetIp (GetPrefix bgp)) @ ''/'' @ dec (unat (GetPrefixlen bgp)))
      | None \<Rightarrow> fail ''Unknown routing attribute'')"

subsection \<open>PrettyDataPlaneState\<close>

definition newline :: string where
  "newline = [CHR 0x0A]"

fun lines_of :: "string \<Rightarrow> ('x \<Rightarrow> string result) \<Rightarrow> 'x list \<Rightarrow> string result" where
  "lines_of prefix pretty [] = Inr []"
| "lines_of prefix pretty (x # xs) =
     bind_r (pretty x) (\<lambda>line. bind_r (lines_of prefix pretty xs) (\<lambda>out. Inr (prefix @ line @ newline @ out)))"

definition sortUpstreams :: "(IP option \<Rightarrow> string) \<Rightarrow> BalancerState \<Rightarrow> BalancerState" where
  "sortUpstreams ip_text b = b\<lparr>bs_Upstreams := sort_key (\<lambda>u. ip_text (us_Address u)) (bs_Upstreams b)\<rparr>"

definition prettyBalancer :: "(IP option \<Rightarrow> string) \<Rightarrow> BalancerState \<Rightarrow> string result" where
  "prettyBalancer ip_text balancer =
     bind_r (PrettyLoadBalancerService (bs_LbService balancer)) (\<lambda>lb.
     bind_r (lines_of ''  -> '' PrettyUpstreamState (bs_Upstreams (sortUpstreams ip_text balancer))) (\<lambda>ups.
       Inr (bs_Name balancer @ '' '' @ lb @ newline @ ups)))"

fun prettyBalancers :: "(IP option \<Rightarrow> string) \<Rightarrow> BalancerState list \<Rightarrow> string result \<times> BalancerState list" where
  "prettyBalancers ip_text [] = (Inr [], [])"
| "prettyBalancers ip_text (b # bs) =
     (case prettyBalancer ip_text b of
        Inl e \<Rightarrow> (Inl e, (if is_ok (PrettyLoadBalancerService (bs_LbService b)) then sortUpstreams ip_text b else b) # bs)
      | Inr out \<Rightarrow> (let (r, bs') = prettyBalancers ip_text bs in (bind_r r (\<lambda>out'. Inr (out @ out')), sortUpstreams ip_text b # bs')))"

definition PrettyDataPlaneState :: "(IP option \<Rightarrow> string) \<Rightarrow> DataPlaneState \<Rightarrow> string result \<times> DataPlaneState" where
  "PrettyDataPlaneState ip_text state =
     (let (r, bs) = prettyBalancers ip_text (dp_Balancers state) in
      (bind_r r (\<lambda>balancers.
       bind_r (lines_of '' - '' PrettyDynamicRoute (dp_DynamicRoutes state)) (\<lambda>routes.
       bind_r (lines_of '' - '' PrettyLinkAddress (dp_LinkAddresses state)) (\<lambda>links.
         Inr (''----- Balancers'' @ newline @
              ''Name Prot LocalAddress:Port Scheduler Flags'' @ newline @
              ''  -> RemoteAddress:Port Forward Weight'' @ newline @ balancers @
              ''----- Dynamic Route Map'' @ newline @ ''LocalAsn PeerAsn Community Prefix/Prefixlen'' @ newline @ routes @
              ''----- Address Map'' @ newline @ links)))),
       state\<lparr>dp_Balancers := bs\<rparr>))"

subsection \<open>Lemmas\<close>

lemma lines_of_ok [simp]: "is_ok (lines_of prefix pretty xs) \<longleftrightarrow> (\<forall>x\<in>set xs. is_ok (pretty x))"
  by (induction xs) (auto simp: is_ok_iff)

lemma sortUpstreams_set [simp]: "set (bs_Upstreams (sortUpstreams ip_text b)) = set (bs_Upstreams b)"
  by (simp add: sortUpstreams_def)

lemma prettyBalancer_ok:
  "is_ok (prettyBalancer ip_text b) \<longleftrightarrow>
     is_ok (PrettyLoadBalancerService (bs_LbService b)) \<and> (\<forall>u\<in>set (bs_Upstreams b). is_ok (PrettyUpstreamState u))"
proof -
  have "is_ok (prettyBalancer ip_text b) \<longleftrightarrow> is_ok (PrettyLoadBalancerService (bs_LbService b)) \<and>
      is_ok (lines_of ''  -> '' PrettyUpstreamState (bs_Upstreams (sortUpstreams ip_text b)))"
    by (auto simp: prettyBalancer_def is_ok_iff)
  then show ?thesis by simp
qed

lemma prettyBalancers_ok: "is_ok (fst (prettyBalancers ip_text bs)) \<longleftrightarrow> (\<forall>b\<in>set bs. is_ok (prettyBalancer ip_text b))"
  by (induction bs) (auto simp: is_ok_iff split: sum.splits prod.splits)

lemma PrettyUpstreamState_ok: "is_ok (PrettyUpstreamState u) \<longleftrightarrow> us_ForwardMethod u \<in> {TUNNEL, MASQ}"
  by (cases "us_ForwardMethod u") (simp_all add: PrettyUpstreamState_def PrettyForwardMethod_def)

lemma PrettyDynamicRoute_ok: "is_ok (PrettyDynamicRoute r) \<longleftrightarrow> dr_Attributes r \<noteq> None"
  by (auto simp: PrettyDynamicRoute_def split: option.splits DynamicRoute_Attributes.splits)

text \<open>What can be printed of a service: its message, attributes of a known kind, a known scheduler.\<close>

definition printable_service :: "IpvsService \<Rightarrow> bool" where
  "printable_service s \<longleftrightarrow> attr_ident (ipvs_Attributes s) \<noteq> None \<and> ipvs_Scheduler s \<in> {RR, WRR, IP_VS_SCH}"

lemma PrettyLoadBalancerService_ok:
  "is_ok (PrettyLoadBalancerService lb) \<longleftrightarrow> (\<exists>s. GetIpvsServiceFromLbService lb = Inr s \<and> printable_service s)"
proof (cases "GetIpvsServiceFromLbService lb")
  case (Inr s)
  then show ?thesis
    by (cases "ipvs_Scheduler s")
       (auto simp: PrettyLoadBalancerService_def PrettyIpvsScheduler_def printable_service_def attr_ident_def
         split: option.splits IpvsService_Attributes.splits)
qed (simp add: PrettyLoadBalancerService_def)

definition printable :: "DataPlaneState \<Rightarrow> bool" where
  "printable state \<longleftrightarrow>
     (\<forall>b\<in>set (dp_Balancers state). (\<exists>s. GetIpvsServiceFromLbService (bs_LbService b) = Inr s \<and> printable_service s) \<and>
        (\<forall>u\<in>set (bs_Upstreams b). us_ForwardMethod u \<in> {TUNNEL, MASQ})) \<and>
     (\<forall>r\<in>set (dp_DynamicRoutes state). dr_Attributes r \<noteq> None)"

lemma prettyBalancers_sorted:
  "\<forall>b\<in>set bs. is_ok (prettyBalancer ip_text b) \<Longrightarrow> snd (prettyBalancers ip_text bs) = map (sortUpstreams ip_text) bs"
  by (induction bs) (auto simp: is_ok_iff split: sum.splits prod.splits)

text \<open>
  A state can be dumped exactly when every service has attributes of a known kind and a known
  scheduler, every upstream a known forwarding method and every route its attributes. Dumping has a
  side effect: the upstreams of every balancer are left sorted by the texts of their addresses, the
  same upstreams as before.
\<close>

theorem pretty_printable:
  "(is_ok (fst (PrettyDataPlaneState ip_text state)) \<longleftrightarrow> printable state) \<and>
   (is_ok (fst (PrettyDataPlaneState ip_text state)) \<longrightarrow>
      list_all2 (\<lambda>b b'. sorted (map (\<lambda>u. ip_text (us_Address u)) (bs_Upstreams b')) \<and>
          mset (bs_Upstreams b') = mset (bs_Upstreams b) \<and> b' = b\<lparr>bs_Upstreams := bs_Upstreams b'\<rparr>)
        (dp_Balancers state) (dp_Balancers (snd (PrettyDataPlaneState ip_text state))))"
proof -
  obtain r bs where p: "prettyBalancers ip_text (dp_Balancers state) = (r, bs)" by fastforce
  have "is_ok (fst (PrettyDataPlaneState ip_text state)) \<longleftrightarrow> is_ok r \<and>
      is_ok (lines_of '' - '' PrettyDynamicRoute (dp_DynamicRoutes state)) \<and> is_ok (lines_of '' - '' PrettyLinkAddress (dp_LinkAddresses state))"
    by (auto simp: PrettyDataPlaneState_def p is_ok_iff simp del: lines_of_ok)
  then have parts: "is_ok (fst (PrettyDataPlaneState ip_text state)) \<longleftrightarrow>
      is_ok r \<and> (\<forall>x\<in>set (dp_DynamicRoutes state). is_ok (PrettyDynamicRoute x)) \<and> (\<forall>x\<in>set (dp_LinkAddresses state). is_ok (PrettyLinkAddress x))"
    by simp
  have r: "is_ok r \<longleftrightarrow> (\<forall>b\<in>set (dp_Balancers state). is_ok (prettyBalancer ip_text b))"
    using prettyBalancers_ok [of ip_text "dp_Balancers state"] by (simp add: p)
  have iff: "is_ok (fst (PrettyDataPlaneState ip_text state)) \<longleftrightarrow> printable state"
    unfolding parts r prettyBalancer_ok PrettyLoadBalancerService_ok PrettyUpstreamState_ok PrettyDynamicRoute_ok printable_def
    by (simp add: PrettyLinkAddress_def)
  moreover have "bs = map (sortUpstreams ip_text) (dp_Balancers state)" if "is_ok r"
    using prettyBalancers_sorted [of "dp_Balancers state" ip_text] that r by (simp add: p)
  ultimately show ?thesis
    using parts by (auto simp: PrettyDataPlaneState_def p list_all2_map2 sortUpstreams_def comp_def intro!: list.rel_refl_strong)
qed

theorem pretty_printable_witness:
  "is_ok (fst (PrettyDataPlaneState (\<lambda>_. []) \<lparr>dp_Balancers = [], dp_DynamicRoutes = [\<lparr>dr_Attributes = Some (DynamicRoute_Bgp None)\<rparr>], dp_LinkAddresses = []\<rparr>))"
  using pretty_printable [of "\<lambda>_. []" "\<lparr>dp_Balancers = [], dp_DynamicRoutes = [\<lparr>dr_Attributes = Some (DynamicRoute_Bgp None)\<rparr>], dp_LinkAddresses = []\<rparr>"]
  by (simp add: printable_def)

end
