(* ===== verification/Dns_Resolver.thy ===== *)
theory Dns_Resolver
  imports Data_Types
begin

section \<open>kglb/utils/dns\_resolver\<close>

text \<open>
  The three resolvers behind the interface \<open>DnsResolver\<close> (dns\_resolver.go, system\_resolver.go,
  dns\_resolver\_mock.go). The dns package and \<open>net.Resolver\<close> are parameters, operations on a world
  \<open>'s\<close>: an exchange gives the response code and the answers. A type assertion that does not hold
  panics. Timeouts are part of the world. The cache is a map from hostname and family to addresses.
\<close>

subsection \<open>The dns package\<close>

text \<open>The answers whose contents the code reads; every other record is \<open>RR_other\<close>.\<close>

datatype dns_RR = RR_A net_ip | RR_AAAA net_ip | RR_other

datatype dns_type = TypeA | TypeAAAA

record 's dns_lib =
  dl_IsFqdn :: "string \<Rightarrow> bool"
  dl_Fqdn :: "string \<Rightarrow> string"
  dl_Exchange :: "string \<Rightarrow> dns_type \<Rightarrow> string \<Rightarrow> ('s, nat \<times> dns_RR list) act"

definition typeAssertion :: "'a result" where
  "typeAssertion = Inl (Panic ''interface conversion'')"

subsection \<open>dns\_resolver.go\<close>

record dnsResolverImpl =
  di_serverAddr :: string
  di_searchDomain :: string
  di_dnsCache :: "string \<times> AddressFamily \<rightharpoonup> IP"
  di_cacheMiss :: u64

definition TrimPrefix :: "string \<Rightarrow> string" where
  "TrimPrefix s = (case s of c # s' \<Rightarrow> if c = CHR ''.'' then s' else s | [] \<Rightarrow> [])"

definition NewDnsResolver :: "string \<Rightarrow> string \<Rightarrow> dnsResolverImpl" where
  "NewDnsResolver addrstr searchDomain =
     \<lparr>di_serverAddr = addrstr, di_searchDomain = TrimPrefix searchDomain, di_dnsCache = Map.empty, di_cacheMiss = 0\<rparr>"

definition makeFqdn :: "'s dns_lib \<Rightarrow> dnsResolverImpl \<Rightarrow> string \<Rightarrow> string" where
  "makeFqdn L r hostname =
     dl_Fqdn L (if \<not> dl_IsFqdn L hostname then hostname @ ''.'' @ di_searchDomain r else hostname)"

definition performDnsQuery :: "'s dns_lib \<Rightarrow> dnsResolverImpl \<Rightarrow> string \<Rightarrow> dns_type \<Rightarrow> ('s, dns_RR list) act" where
  "performDnsQuery L r hostname qType =
     bind_a (wrap_a ''failed to perform dns query'' (dl_Exchange L hostname qType (di_serverAddr r))) (\<lambda>(rcode, answer).
       if rcode \<noteq> 0 then lift_r (fail ''Non-success status code from DNS'')
       else if length answer \<noteq> 1 then lift_r (fail ''Invalid DNS responses count'')
       else ret_a answer)"

definition strToIp :: "string \<Rightarrow> IP result" where
  "strToIp addr = (let ip = ParseIP addr in if ip = [] then fail ''cannot parse addr'' else Inr (NetIpToKglbAddr ip))"

definition literalHost :: "IP \<Rightarrow> AddressFamily \<Rightarrow> IP result" where
  "literalHost pbAddr af =
     (case IP_address pbAddr of
        Some (IP_Ipv4 _) \<Rightarrow> if af = AF_INET then Inr pbAddr else fail ''fails to resolve (v4 -> v6)''
      | Some (IP_Ipv6 _) \<Rightarrow> if af = AF_INET6 then Inr pbAddr else fail ''fails to resolve (v6 -> v4)''
      | None \<Rightarrow> fail ''fails to resolve (unknown addr type)'')"

definition answerIp :: "dns_RR list \<Rightarrow> AddressFamily \<Rightarrow> IP result" where
  "answerIp answer af =
     (case af of
        AF_INET \<Rightarrow> (case hd answer of RR_A a \<Rightarrow> Inr (IP (Some (IP_Ipv4 (IP_String a)))) | _ \<Rightarrow> typeAssertion)
      | AF_INET6 \<Rightarrow> (case hd answer of RR_AAAA a \<Rightarrow> Inr (IP (Some (IP_Ipv6 (IP_String a)))) | _ \<Rightarrow> typeAssertion)
      | AddressFamily_num _ \<Rightarrow> fail ''Unknown AddressFamily'')"

definition ResolveHost :: "'s dns_lib \<Rightarrow> string \<Rightarrow> AddressFamily \<Rightarrow> (dnsResolverImpl \<times> 's, IP) act" where
  "ResolveHost L hostname af = (\<lambda>(r, s).
     case strToIp hostname of
       Inr pbAddr \<Rightarrow> (literalHost pbAddr af, (r, s))
     | Inl _ \<Rightarrow>
         (case di_dnsCache r (hostname, af) of
            Some ip \<Rightarrow> (Inr ip, (r, s))
          | None \<Rightarrow>
              bind_a (on_snd (performDnsQuery L r (makeFqdn L r hostname) (if af = AF_INET6 then TypeAAAA else TypeA))) (\<lambda>answer.
              bind_a (lift_r (answerIp answer af)) (\<lambda>resolvedIp.
              bind_a (modify_a (\<lambda>(r, s). (r\<lparr>di_cacheMiss := di_cacheMiss r + 1,
                  di_dnsCache := (di_dnsCache r)((hostname, af) \<mapsto> resolvedIp)\<rparr>, s))) (\<lambda>_.
                ret_a resolvedIp))) (r, s)))"

subsection \<open>system\_resolver.go\<close>

text \<open>\<open>net.IPAddr\<close> and its text.\<close>

record IPAddr =
  ia_IP :: net_ip
  ia_Zone :: string

definition IPAddr_String :: "IPAddr \<Rightarrow> string" where
  "IPAddr_String a = (let ip = (if ia_IP a = [] then [] else IP_String (ia_IP a)) in
     if ia_Zone a \<noteq> [] then ip @ ''%'' @ ia_Zone a else ip)"

fun firstOfFamily :: "AddressFamily \<Rightarrow> IPAddr list \<Rightarrow> IP result" where
  "firstOfFamily af [] = fail ''fails to resolve''"
| "firstOfFamily af (addr # addrs) =
     (if af = AF_INET \<and> To4 (ia_IP addr) \<noteq> None then Inr (IP (Some (IP_Ipv4 (IPAddr_String addr))))
      else if af = AF_INET6 \<and> To4 (ia_IP addr) = None then Inr (IP (Some (IP_Ipv6 (IPAddr_String addr))))
      else firstOfFamily af addrs)"

definition SystemResolver_ResolveHost :: "(string \<Rightarrow> ('s, IPAddr list) act) \<Rightarrow> string \<Rightarrow> AddressFamily \<Rightarrow> ('s, IP) act" where
  "SystemResolver_ResolveHost LookupIPAddr hostname af =
     bind_a (LookupIPAddr hostname) (\<lambda>addrs. lift_r (firstOfFamily af addrs))"

subsection \<open>dns\_resolver\_mock.go\<close>

definition dnsResolverMock_ResolveHost :: "(string \<rightharpoonup> IP option) \<Rightarrow> string \<Rightarrow> AddressFamily \<Rightarrow> IP option result" where
  "dnsResolverMock_ResolveHost data hostname af =
     (case data hostname of None \<Rightarrow> fail ''Host not found'' | Some addr \<Rightarrow> Inr addr)"

definition ResolverMock_ResolveHost ::
  "(string \<Rightarrow> AddressFamily \<Rightarrow> IP option result) \<Rightarrow> string \<Rightarrow> AddressFamily \<Rightarrow> IP option result" where
  "ResolverMock_ResolveHost ResolverFunc hostname af = ResolverFunc hostname af"

subsection \<open>Families\<close>

definition of_family :: "AddressFamily \<Rightarrow> IP \<Rightarrow> bool" where
  "of_family af ip \<longleftrightarrow>
     (case IP_address ip of Some (IP_Ipv4 _) \<Rightarrow> af = AF_INET | Some (IP_Ipv6 _) \<Rightarrow> af = AF_INET6 | None \<Rightarrow> False)"

definition cache_typed :: "dnsResolverImpl \<Rightarrow> bool" where
  "cache_typed r \<longleftrightarrow> (\<forall>hostname af ip. di_dnsCache r (hostname, af) = Some ip \<longrightarrow> of_family af ip)"

lemma literal_family: "literalHost ip af = Inr ip' \<Longrightarrow> of_family af ip'"
  by (auto simp: literalHost_def of_family_def split: option.splits IP_Address.splits if_splits)

lemma answer_family: "answerIp answer af = Inr ip \<Longrightarrow> of_family af ip"
  by (auto simp: answerIp_def of_family_def typeAssertion_def split: AddressFamily.splits dns_RR.splits)

lemma ResolveHost_typed:
  assumes "cache_typed r"
  shows "cache_typed (fst (snd (ResolveHost L hostname af (r, s)))) \<and>
    (\<forall>ip. fst (ResolveHost L hostname af (r, s)) = Inr ip \<longrightarrow> of_family af ip)"
proof (cases "strToIp hostname")
  case (Inr ip)
  then show ?thesis using assms literal_family by (auto simp: ResolveHost_def)
next
  case (Inl e)
  show ?thesis
  proof (cases "di_dnsCache r (hostname, af)")
    case (Some ip)
    then show ?thesis using assms Inl by (auto simp: ResolveHost_def cache_typed_def)
  next
    case None
    obtain q s1 where q: "performDnsQuery L r (makeFqdn L r hostname) (if af = AF_INET6 then TypeAAAA else TypeA) s = (q, s1)"
      by fastforce
    show ?thesis
    proof (cases q)
      case (Inl e')
      then show ?thesis using q None \<open>strToIp hostname = Inl e\<close> assms by (simp add: ResolveHost_def)
    next
      case (Inr answer)
      then show ?thesis
        using q None Inl assms answer_family [of answer af]
        by (cases "answerIp answer af") (auto simp: ResolveHost_def cache_typed_def)
    qed
  qed
qed

lemma system_family: "firstOfFamily af addrs = Inr ip \<Longrightarrow> of_family af ip"
  by (induction addrs) (auto simp: of_family_def split: if_splits)

type_synonym 's dns_request = "('s \<Rightarrow> 's) \<times> string \<times> AddressFamily"

definition serve :: "'s dns_lib \<Rightarrow> 's dns_request list \<Rightarrow> dnsResolverImpl \<times> 's \<Rightarrow> dnsResolverImpl \<times> 's" where
  "serve L requests = fold (\<lambda>(change, h, a) (r, s). snd (ResolveHost L h a (r, change s))) requests"

lemma serve_typed: "cache_typed (fst x) \<Longrightarrow> cache_typed (fst (serve L requests x))"
  unfolding serve_def
proof (induction requests arbitrary: x)
  case (Cons q requests)
  obtain change h a r s where "q = (change, h, a)" "x = (r, s)" by (metis surj_pair)
  then show ?case using Cons ResolveHost_typed [of r L h a "change s"] by simp
qed simp

lemma new_typed: "cache_typed (NewDnsResolver addrstr domain)"
  by (simp add: cache_typed_def NewDnsResolver_def)


text \<open>A server that knows one address of each family.\<close>

definition sample_dns_lib :: "unit dns_lib" where
  "sample_dns_lib = \<lparr>dl_IsFqdn = \<lambda>h. h \<noteq> [] \<and> last h = CHR ''.'', dl_Fqdn = \<lambda>h. if h \<noteq> [] \<and> last h = CHR ''.'' then h else h @ ''.'',
     dl_Exchange = \<lambda>h q server. ret_a (0, [case q of TypeA \<Rightarrow> RR_A [10, 0, 0, 1] | TypeAAAA \<Rightarrow> RR_AAAA (replicate 15 0 @ [1])])\<rparr>"

lemma host_not_literal: "strToIp ''web'' = fail ''cannot parse addr''"
  by (simp add: strToIp_def ParseIP_def Let_def)

lemma sample_resolve:
  "ResolveHost sample_dns_lib ''web'' AF_INET (NewDnsResolver ''ns'' ''corp'', ()) =
     (Inr (IP (Some (IP_Ipv4 (IP_String [10, 0, 0, 1])))),
      ((NewDnsResolver ''ns'' ''corp'')\<lparr>di_cacheMiss := 1, di_dnsCache := [(''web'', AF_INET) \<mapsto> IP (Some (IP_Ipv4 (IP_String [10, 0, 0, 1])))]\<rparr>, ()))"
  by (simp add: ResolveHost_def host_not_literal fail_def performDnsQuery_def sample_dns_lib_def answerIp_def NewDnsResolver_def)


subsection \<open>The cache\<close>

lemma ResolveHost_fills:
  assumes "ResolveHost L hostname af (r, s) = (Inr ip, (r', s'))" and "ParseIP hostname = []"
  shows "di_dnsCache r' (hostname, af) = Some ip"
  using assms
  by (auto simp: ResolveHost_def strToIp_def Let_def fail_def bind_a_def on_snd_def split: option.splits prod.splits sum.splits)

lemma ResolveHost_hit:
  assumes "ParseIP hostname = []" "di_dnsCache r (hostname, af) = Some ip"
  shows "ResolveHost L hostname af (r, s) = (Inr ip, (r, s))"
  using assms by (simp add: ResolveHost_def strToIp_def fail_def)

lemma ResolveHost_keeps:
  "di_dnsCache r (hostname, af) = Some ip \<Longrightarrow> di_dnsCache (fst (snd (ResolveHost L h a (r, s)))) (hostname, af) = Some ip"
proof -
  assume c: "di_dnsCache r (hostname, af) = Some ip"
  show ?thesis
  proof (cases "strToIp h")
    case (Inr p)
    then show ?thesis using c by (simp add: ResolveHost_def)
  next
    case (Inl e)
    show ?thesis
    proof (cases "di_dnsCache r (h, a)")
      case (Some ip')
      then show ?thesis using c Inl by (simp add: ResolveHost_def)
    next
      case None
      then have "(h, a) \<noteq> (hostname, af)" using c by auto
      then show ?thesis
        using None c Inl by (auto simp: ResolveHost_def bind_a_def on_snd_def split: prod.splits sum.splits)
    qed
  qed
qed

lemma serve_keeps:
  "di_dnsCache (fst x) k = Some ip \<Longrightarrow> di_dnsCache (fst (serve L requests x)) k = Some ip"
  unfolding serve_def
proof (induction requests arbitrary: x)
  case (Cons q requests)
  obtain change h a r s where "q = (change, h, a)" "x = (r, s)" by (metis surj_pair)
  then show ?case using Cons ResolveHost_keeps [of r "fst k" "snd k" ip L h a "change s"] by simp
qed simp

text \<open>
  An address that has been resolved once is the answer for ever: whatever else is asked and
  whatever the servers say since, the next request for the same host and family is answered from the
  cache, without a query and without a change of the resolver. Entries are never refreshed.
\<close>

theorem dns_cache_permanent:
  assumes "ResolveHost L hostname af (r, s) = (Inr ip, (r', s'))" and "ParseIP hostname = []"
  shows "ResolveHost L hostname af (serve L requests (r', s')) = (Inr ip, serve L requests (r', s'))"
proof -
  obtain r2 s2 where x: "serve L requests (r', s') = (r2, s2)" by fastforce
  have "di_dnsCache r2 (hostname, af) = Some ip"
    using serve_keeps [of "(r', s')" "(hostname, af)" ip L requests] ResolveHost_fills [OF assms] by (simp add: x)
  then show ?thesis unfolding x using assms(2) by (rule ResolveHost_hit [rotated])
qed

theorem dns_cache_permanent_witness:
  "fst (ResolveHost sample_dns_lib ''web'' AF_INET
     (serve sample_dns_lib [(\<lambda>s. s, ''db'', AF_INET6)] (snd (ResolveHost sample_dns_lib ''web'' AF_INET (NewDnsResolver ''ns'' ''corp'', ()))))) =
   Inr (IP (Some (IP_Ipv4 (IP_String [10, 0, 0, 1]))))"
proof -
  have "ParseIP ''web'' = []" by (simp add: ParseIP_def)
  from dns_cache_permanent [OF sample_resolve this, of "[(\<lambda>s. s, ''db'', AF_INET6)]"] show ?thesis
    unfolding sample_resolve by simp
qed

end
