(* ===== verification/Config_Loader.thy ===== *)
theory Config_Loader
  imports Comparators Validate
begin

section \<open>kglb/utils/config\_loader and the two configuration providers\<close>

text \<open>
  A loader reads one file, parses and validates it through a \<open>ConfigProvider\<close> and puts the result
  into a channel of one slot (one\_time\_file\_loader.go). The providers are the one of the control
  plane (kglbd/config\_loader.go) and the one of the data plane (data\_plane/config\_provider.go). A
  value of type \<open>interface{}\<close> is a \<open>go_any\<close>; a type assertion that does not hold panics. Parameters:
  reading a file, and parsing and comparing messages, which is the protobuf library's.
\<close>

subsection \<open>config\_loader.go\<close>

datatype go_any = AnyControlPlane ControlPlaneConfig | AnyDataPlane DataPlaneState | AnyOther

record ConfigProvider =
  pv_Default :: go_any
  pv_Parse :: "string \<Rightarrow> go_any result"
  pv_Validate :: "go_any \<Rightarrow> unit result"
  pv_Equals :: "go_any \<Rightarrow> go_any \<Rightarrow> bool result"

subsection \<open>one\_time\_file\_loader.go\<close>

record OneTimeFileLoader =
  ot_path :: string
  ot_updateChan :: "go_any option"
  ot_closed :: bool

definition NewOneTimeFileLoader :: "(string \<Rightarrow> string result) \<Rightarrow> ConfigProvider \<Rightarrow> string \<Rightarrow> OneTimeFileLoader result" where
  "NewOneTimeFileLoader ReadFile provider path =
     bind_r (wrap_r ''fails to read file: '' (ReadFile path)) (\<lambda>content.
     bind_r (pv_Parse provider content) (\<lambda>cfg.
     bind_r (pv_Validate provider cfg) (\<lambda>_.
       Inr \<lparr>ot_path = path, ot_updateChan = Some cfg, ot_closed = False\<rparr>)))"

text \<open>
  What a receive from \<open>Updates()\<close> gives: the configuration once, then nothing (the receiver waits),
  and after \<open>Stop\<close> and an empty channel the nil value of a closed channel.
\<close>

datatype received = Got go_any | Waits | GotNil

definition Loader_recv :: "OneTimeFileLoader \<Rightarrow> received \<times> OneTimeFileLoader" where
  "Loader_recv l =
     (case ot_updateChan l of
        Some cfg \<Rightarrow> (Got cfg, l\<lparr>ot_updateChan := None\<rparr>)
      | None \<Rightarrow> (if ot_closed l then GotNil else Waits, l))"

definition Loader_Stop :: "(OneTimeFileLoader, unit) act" where
  "Loader_Stop = (\<lambda>l. if ot_closed l then (Inl (Panic ''close of closed channel''), l) else (Inr (), l\<lparr>ot_closed := True\<rparr>))"

subsection \<open>kglbd/config\_loader.go\<close>

definition conversionPanic :: "'a result" where
  "conversionPanic = Inl (Panic ''interface conversion'')"

definition control_plane_provider ::
  "(string \<Rightarrow> ControlPlaneConfig result) \<Rightarrow> (ControlPlaneConfig \<Rightarrow> ControlPlaneConfig \<Rightarrow> bool) \<Rightarrow> ConfigProvider" where
  "control_plane_provider UnmarshalString proto_Equal = \<lparr>
     pv_Default = AnyControlPlane \<lparr>cp_Balancers = []\<rparr>,
     pv_Parse = \<lambda>content. bind_r (UnmarshalString content) (\<lambda>newConfig. Inr (AnyControlPlane newConfig)),
     pv_Validate = \<lambda>cfg. (case cfg of AnyControlPlane config \<Rightarrow> ValidateControlPlaneConfig config | _ \<Rightarrow> conversionPanic),
     pv_Equals = \<lambda>cfg1 cfg2. (case (cfg1, cfg2) of
         (AnyControlPlane c1, AnyControlPlane c2) \<Rightarrow> Inr (proto_Equal c1 c2) | _ \<Rightarrow> conversionPanic)\<rparr>"

definition MakeConfigLoader ::
  "(string \<Rightarrow> string result) \<Rightarrow> (string \<Rightarrow> ControlPlaneConfig result) \<Rightarrow> (ControlPlaneConfig \<Rightarrow> ControlPlaneConfig \<Rightarrow> bool)
    \<Rightarrow> string \<Rightarrow> OneTimeFileLoader result" where
  "MakeConfigLoader ReadFile UnmarshalString proto_Equal configPath =
     NewOneTimeFileLoader ReadFile (control_plane_provider UnmarshalString proto_Equal) configPath"

subsection \<open>data\_plane/config\_provider.go\<close>

definition data_plane_provider ::
  "(DataPlaneState \<Rightarrow> 'd) \<Rightarrow> (LoadBalancerService option \<Rightarrow> 'k) \<Rightarrow> (IP option \<Rightarrow> string) \<Rightarrow> (string \<Rightarrow> DataPlaneState result) \<Rightarrow> ConfigProvider" where
  "data_plane_provider dp_text lb_text ip_text UnmarshalText = \<lparr>
     pv_Default = AnyDataPlane \<lparr>dp_Balancers = [], dp_DynamicRoutes = [], dp_LinkAddresses = []\<rparr>,
     pv_Parse = \<lambda>content. bind_r (wrap_r ''Failed to parse config: '' (UnmarshalText content)) (\<lambda>cfg. Inr (AnyDataPlane cfg)),
     pv_Validate = \<lambda>cfg. (case cfg of AnyDataPlane state \<Rightarrow> ValidateDataPlaneState ip_text state | _ \<Rightarrow> fail ''unexpected type of config''),
     pv_Equals = \<lambda>cfg1 cfg2. (case (cfg1, cfg2) of
         (AnyDataPlane s1, AnyDataPlane s2) \<Rightarrow> Inr (EqualFunc (DataPlaneStateComparable dp_text lb_text ip_text) s1 s2) | _ \<Rightarrow> conversionPanic)\<rparr>"

subsection \<open>The contract of a provider\<close>

text \<open>
  What the interface promises in its comments: the default is valid, and parsing gives values
  that validation and comparison can handle (they do not panic on them).
\<close>

locale provider =
  fixes P :: ConfigProvider and kind :: "go_any \<Rightarrow> bool"
  assumes default_valid: "pv_Validate P (pv_Default P) = Inr ()"
    and default_kind: "kind (pv_Default P)"
    and parse_kind: "pv_Parse P content = Inr cfg \<Longrightarrow> kind cfg"
    and equals_kind: "kind a \<Longrightarrow> kind b \<Longrightarrow> is_ok (pv_Equals P a b)"
begin

lemma loaded:
  assumes "NewOneTimeFileLoader ReadFile P path = Inr l"
  shows "\<exists>content cfg. ReadFile path = Inr content \<and> pv_Parse P content = Inr cfg \<and> pv_Validate P cfg = Inr () \<and> kind cfg \<and>
    fst (Loader_recv l) = Got cfg \<and> fst (Loader_recv (snd (Loader_recv l))) = Waits \<and> is_ok (pv_Equals P cfg (pv_Default P))"
proof -
  from assms obtain content cfg where c: "ReadFile path = Inr content" "pv_Parse P content = Inr cfg" "pv_Validate P cfg = Inr ()"
    "l = \<lparr>ot_path = path, ot_updateChan = Some cfg, ot_closed = False\<rparr>"
    by (auto simp: NewOneTimeFileLoader_def)
  moreover from c(2) have "kind cfg" by (rule parse_kind)
  ultimately show ?thesis using equals_kind default_kind by (auto simp: Loader_recv_def)
qed

end

lemma control_plane_provider_sels [simp]:
  "pv_Default (control_plane_provider U E) = AnyControlPlane \<lparr>cp_Balancers = []\<rparr>"
  "pv_Parse (control_plane_provider U E) c = bind_r (U c) (\<lambda>newConfig. Inr (AnyControlPlane newConfig))"
  "pv_Validate (control_plane_provider U E) (AnyControlPlane conf) = ValidateControlPlaneConfig conf"
  "pv_Equals (control_plane_provider U E) (AnyControlPlane a) (AnyControlPlane b) = Inr (E a b)"
  by (simp_all add: control_plane_provider_def)

lemma data_plane_provider_sels [simp]:
  "pv_Default (data_plane_provider d k t U) = AnyDataPlane \<lparr>dp_Balancers = [], dp_DynamicRoutes = [], dp_LinkAddresses = []\<rparr>"
  "pv_Parse (data_plane_provider d k t U) c = bind_r (wrap_r ''Failed to parse config: '' (U c)) (\<lambda>cfg. Inr (AnyDataPlane cfg))"
  "pv_Validate (data_plane_provider d k t U) (AnyDataPlane st) = ValidateDataPlaneState t st"
  "pv_Equals (data_plane_provider d k t U) (AnyDataPlane a) (AnyDataPlane b) = Inr (EqualFunc (DataPlaneStateComparable d k t) a b)"
  by (simp_all add: data_plane_provider_def)

interpretation control: provider "control_plane_provider U E" "\<lambda>c. \<exists>conf. c = AnyControlPlane conf" for U E
  by unfold_locales (auto simp: ValidateControlPlaneConfig_def)

interpretation data: provider "data_plane_provider d k t U" "\<lambda>c. \<exists>st. c = AnyDataPlane st" for d k t U
  by unfold_locales (auto simp: ValidateDataPlaneState_ok)

text \<open>
  A loader made for kglbd delivers one configuration, which is the parsed content of the file and
  passes the validation of the control plane; there is no second one, and a file that cannot be
  read, parsed or validated gives no loader. The default configurations of both providers are valid.
\<close>

theorem loaded_config_valid:
  "(is_ok (MakeConfigLoader ReadFile Unmarshal Equal path) \<longleftrightarrow>
     (\<exists>content conf. ReadFile path = Inr content \<and> Unmarshal content = Inr conf \<and> ValidateControlPlaneConfig conf = Inr ())) \<and>
   (\<forall>l. MakeConfigLoader ReadFile Unmarshal Equal path = Inr l \<longrightarrow>
     (\<exists>content conf. ReadFile path = Inr content \<and> Unmarshal content = Inr conf \<and> ValidateControlPlaneConfig conf = Inr () \<and>
        fst (Loader_recv l) = Got (AnyControlPlane conf) \<and> fst (Loader_recv (snd (Loader_recv l))) = Waits)) \<and>
   pv_Validate (control_plane_provider Unmarshal Equal) (pv_Default (control_plane_provider Unmarshal Equal)) = Inr () \<and>
   pv_Validate (data_plane_provider d k t U) (pv_Default (data_plane_provider d k t U)) = Inr ()"
proof (intro conjI allI impI)
  show "is_ok (MakeConfigLoader ReadFile Unmarshal Equal path) \<longleftrightarrow>
     (\<exists>content conf. ReadFile path = Inr content \<and> Unmarshal content = Inr conf \<and> ValidateControlPlaneConfig conf = Inr ())"
    by (auto simp: MakeConfigLoader_def NewOneTimeFileLoader_def is_ok_iff)
  fix l assume "MakeConfigLoader ReadFile Unmarshal Equal path = Inr l"
  from control.loaded [OF this [unfolded MakeConfigLoader_def]] show
    "\<exists>content conf. ReadFile path = Inr content \<and> Unmarshal content = Inr conf \<and> ValidateControlPlaneConfig conf = Inr () \<and>
        fst (Loader_recv l) = Got (AnyControlPlane conf) \<and> fst (Loader_recv (snd (Loader_recv l))) = Waits"
    by auto
qed (rule control.default_valid, rule data.default_valid)

theorem loaded_config_valid_witness:
  "\<exists>l. MakeConfigLoader (\<lambda>_. Inr ''{}'') (\<lambda>_. Inr \<lparr>cp_Balancers = []\<rparr>) (=) ''kglb.json'' = Inr l \<and>
     fst (Loader_recv l) = Got (AnyControlPlane \<lparr>cp_Balancers = []\<rparr>)"
proof -
  have "ValidateControlPlaneConfig \<lparr>cp_Balancers = []\<rparr> = Inr ()" by (simp add: ValidateControlPlaneConfig_def)
  then obtain l where "MakeConfigLoader (\<lambda>_. Inr ''{}'') (\<lambda>_. Inr \<lparr>cp_Balancers = []\<rparr>) (=) ''kglb.json'' = Inr l"
    using loaded_config_valid [of "\<lambda>_. Inr ''{}''" "\<lambda>_. Inr \<lparr>cp_Balancers = []\<rparr>" "(=)" "''kglb.json''"] by (auto simp: is_ok_iff)
  with loaded_config_valid [of "\<lambda>_. Inr ''{}''" "\<lambda>_. Inr \<lparr>cp_Balancers = []\<rparr>" "(=)" "''kglb.json''"] show ?thesis by auto
qed

end
