(* ===== verification/Fwmark_Conn.thy ===== *)
theory Fwmark_Conn
  imports Fwmark Discovery Checker_Factory
begin

section \<open>kglb/utils/fwmark: fwmark\_conn.go\<close>

text \<open>
  TCP connections over sockets that carry a mark. The system calls, the clock, \<open>net.ResolveTCPAddr\<close>
  and \<open>net.FileConn\<close> are a record of operations on a world \<open>'s\<close>; a connection has type \<open>'c\<close>. Times
  are nanoseconds. A context is its deadline, if it has one. \<open>int\<close> has 64 bits in Go and holds every
  number that occurs here.
\<close>

subsection \<open>System calls\<close>

datatype sockaddr = SockaddrInet4 int "u8 list" | SockaddrInet6 int "u8 list"

datatype sock_af = SOCK_AF_INET | SOCK_AF_INET6

datatype sock_opt = SO_REUSEADDR | TCP_MAXSEG | SO_MARK | TCP_USER_TIMEOUT

datatype sock_timeo = SO_RCVTIMEO | SO_SNDTIMEO

type_synonym context_ = "int option"

record ('s, 'c) sys =
  sy_Now :: "('s, int) act"
  sy_ResolveTCPAddr :: "string \<Rightarrow> string \<Rightarrow> ('s, net_ip \<times> int) act"
  sy_Socket :: "sock_af \<Rightarrow> ('s, int) act"
  sy_SetsockoptInt :: "int \<Rightarrow> sock_opt \<Rightarrow> int \<Rightarrow> ('s, unit) act"
  sy_SetsockoptTimeval :: "int \<Rightarrow> sock_timeo \<Rightarrow> int \<times> int \<Rightarrow> ('s, unit) act"
  sy_Bind :: "int \<Rightarrow> sockaddr \<Rightarrow> ('s, unit) act"
  sy_Connect :: "int \<Rightarrow> sockaddr \<Rightarrow> ('s, unit) act"
  sy_Close :: "int \<Rightarrow> ('s, unit) act"
  sy_FileConn :: "int \<Rightarrow> ('s, 'c) act"
  sy_ConnClose :: "'c \<Rightarrow> ('s, unit) act"
  sy_FileClose :: "int \<Rightarrow> ('s, unit) act"

text \<open>\<open>syscall.NsecToTimeval\<close> of a positive time, rounded up to microseconds, and \<open>IP.IsUnspecified\<close>.\<close>

definition NsecToTimeval :: "int \<Rightarrow> int \<times> int" where
  "NsecToTimeval nsec = (let n = nsec + 999 in (n div 1000000000, n mod 1000000000 div 1000))"

definition IsUnspecified :: "net_ip \<Rightarrow> bool" where
  "IsUnspecified ip \<longleftrightarrow> IP_Equal ip (v4InV6Prefix @ [0, 0, 0, 0]) \<or> IP_Equal ip (replicate 16 0)"

subsection \<open>The connection\<close>

definition basePort :: int where
  "basePort = 50000"

record 'c connWrap =
  cw_Conn :: 'c
  cw_file :: int

definition connWrap_Close :: "('s, 'c) sys \<Rightarrow> 'c connWrap \<Rightarrow> ('s, unit) act" where
  "connWrap_Close S c = (\<lambda>s.
     let (err, s1) = sy_ConnClose S (cw_Conn c) s;
         (err2, s2) = sy_FileClose S (cw_file c) s1
     in (if is_ok err then err2 else err, s2))"

record tcpConnParams =
  tp_timeout :: int
  tp_fwmark :: u32
  tp_localIp :: net_ip
  tp_remoteIp :: net_ip
  tp_remotePort :: int

definition toSockaddr :: "net_ip \<Rightarrow> int \<Rightarrow> sockaddr" where
  "toSockaddr ip port =
     (case To4 ip of
        Some a \<Rightarrow> SockaddrInet4 port a
      | None \<Rightarrow> SockaddrInet6 port (case To16 ip of Some a \<Rightarrow> a | None \<Rightarrow> replicate 16 0))"

text \<open>The steps of \<open>tcpConn\<close>: binding the local address, marking, and the timeouts.\<close>

definition bindLocal :: "('s, 'c) sys \<Rightarrow> int \<Rightarrow> tcpConnParams \<Rightarrow> ('s, unit) act" where
  "bindLocal S fd params =
     (if tp_localIp params \<noteq> [] \<and> \<not> IsUnspecified (tp_localIp params) then
        if tp_fwmark params \<noteq> 0 then
          bind_a (wrap_a ''SetsockoptInt() so_reuseaddr fails'' (sy_SetsockoptInt S fd SO_REUSEADDR 1)) (\<lambda>_.
          bind_a (wrap_a ''SetsockoptInt() tcp_maxseg fails'' (sy_SetsockoptInt S fd TCP_MAXSEG 1400)) (\<lambda>_.
            wrap_a ''Bind() fails'' (sy_Bind S fd (toSockaddr (tp_localIp params) (basePort + uint (tp_fwmark params))))))
        else wrap_a ''Bind() fails'' (sy_Bind S fd (toSockaddr (tp_localIp params) 0))
      else ret_a ())"

definition markSocket :: "('s, 'c) sys \<Rightarrow> int \<Rightarrow> tcpConnParams \<Rightarrow> ('s, unit) act" where
  "markSocket S fd params =
     when_a (tp_fwmark params \<noteq> 0) (wrap_a ''SetsockoptInt() fails'' (sy_SetsockoptInt S fd SO_MARK (uint (tp_fwmark params))))"

definition applyTimeouts :: "('s, 'c) sys \<Rightarrow> int \<Rightarrow> tcpConnParams \<Rightarrow> ('s, unit) act" where
  "applyTimeouts S fd params =
     when_a (tp_timeout params > 0)
       (let tv = NsecToTimeval (tp_timeout params) in
        bind_a (each_a (\<lambda>opt. wrap_a ''fails to apply'' (sy_SetsockoptTimeval S fd opt tv)) [SO_RCVTIMEO, SO_SNDTIMEO]) (\<lambda>_.
          wrap_a ''fails to apply TCP_USER_TIMEOUT'' (sy_SetsockoptInt S fd TCP_USER_TIMEOUT (tp_timeout params div 1000000))))"

definition tcpConn :: "('s, 'c) sys \<Rightarrow> int \<Rightarrow> tcpConnParams \<Rightarrow> ('s, unit) act" where
  "tcpConn S fd params =
     (if tp_remoteIp params = [] \<or> IsUnspecified (tp_remoteIp params) then lift_r (fail ''remoteIp is required'')
      else if tp_remotePort params = 0 then lift_r (fail ''remotePort is required'')
      else bind_a (bindLocal S fd params) (\<lambda>_.
           bind_a (markSocket S fd params) (\<lambda>_.
           bind_a (applyTimeouts S fd params) (\<lambda>_.
             sy_Connect S fd (toSockaddr (tp_remoteIp params) (tp_remotePort params))))))"

definition newTcpConnection :: "('s, 'c) sys \<Rightarrow> context_ \<Rightarrow> int \<Rightarrow> tcpConnParams \<Rightarrow> ('s, 'c connWrap) act" where
  "newTcpConnection S ctx fd params =
     bind_a (case ctx of
         None \<Rightarrow> ret_a params
       | Some deadline \<Rightarrow>
           bind_a (sy_Now S) (\<lambda>now. let dur = deadline - now in
             if dur \<le> 0 then lift_r (fail ''deadline has already passed'') else ret_a (params\<lparr>tp_timeout := dur\<rparr>))) (\<lambda>params.
     bind_a (tcpConn S fd params) (\<lambda>_.
     bind_a (sy_FileConn S fd) (\<lambda>fileConn.
       ret_a \<lparr>cw_Conn = fileConn, cw_file = fd\<rparr>)))"

definition NewTcpConnection ::
  "('s, 'c) sys \<Rightarrow> context_ \<Rightarrow> string \<Rightarrow> net_ip \<Rightarrow> string \<Rightarrow> u32 \<Rightarrow> ('s, 'c connWrap) act" where
  "NewTcpConnection S ctx network localIp dstAddress fwmark =
     (if network \<notin> {''tcp'', ''tcp4'', ''tcp6''} then lift_r (fail ''unknown network'')
      else
        bind_a (wrap_a ''ResolveTCPAddr() fails'' (sy_ResolveTCPAddr S network dstAddress)) (\<lambda>(ip, port).
        bind_a (wrap_a ''Socket() fails'' (sy_Socket S (if To4 ip \<noteq> None then SOCK_AF_INET else SOCK_AF_INET6))) (\<lambda>fd. \<lambda>s.
          case newTcpConnection S ctx fd
              \<lparr>tp_timeout = 0, tp_fwmark = fwmark, tp_localIp = localIp, tp_remoteIp = ip, tp_remotePort = port\<rparr> s of
            (Inr c, s') \<Rightarrow> (Inr c, s')
          | (Inl e, s') \<Rightarrow> (Inl e, snd (sy_Close S fd s')))))"

subsection \<open>Traces\<close>

text \<open>
  The calls on sockets, logged with their outcome. The clock and the lookup of addresses are not
  logged. \<open>runs f p\<close>: the calls \<open>f\<close> makes are those of \<open>p\<close>, in this order; \<open>f\<close> succeeds only when
  all of them have been made and have succeeded, and stops at the first one that fails.
\<close>

datatype sock_call =
  Call_Socket sock_af int
| Call_SetsockoptInt int sock_opt int
| Call_SetsockoptTimeval int sock_timeo "int \<times> int"
| Call_Bind int sockaddr
| Call_Connect int sockaddr
| Call_Close int
| Call_FileConn int
| Call_ConnClose
| Call_FileClose int

datatype sock_event = Did sock_call | Failed sock_call

definition event :: "sock_call \<Rightarrow> 'a result \<Rightarrow> sock_event" where
  "event c r = (if is_ok r then Did c else Failed c)"

definition recorded :: "('a result \<Rightarrow> sock_call) \<Rightarrow> ('s, 'a) act \<Rightarrow> ('s \<times> sock_event list, 'a) act" where
  "recorded c f = (\<lambda>(s, l). case f s of (r, s') \<Rightarrow> (r, (s', l @ [event (c r) r])))"

definition traced_sys :: "('s, 'c) sys \<Rightarrow> ('s \<times> sock_event list, 'c) sys" where
  "traced_sys S = \<lparr>
     sy_Now = on_fst (sy_Now S),
     sy_ResolveTCPAddr = \<lambda>n a. on_fst (sy_ResolveTCPAddr S n a),
     sy_Socket = \<lambda>af. recorded (\<lambda>r. Call_Socket af (case r of Inr fd \<Rightarrow> fd | Inl _ \<Rightarrow> -1)) (sy_Socket S af),
     sy_SetsockoptInt = \<lambda>fd opt v. recorded (\<lambda>_. Call_SetsockoptInt fd opt v) (sy_SetsockoptInt S fd opt v),
     sy_SetsockoptTimeval = \<lambda>fd opt tv. recorded (\<lambda>_. Call_SetsockoptTimeval fd opt tv) (sy_SetsockoptTimeval S fd opt tv),
     sy_Bind = \<lambda>fd sa. recorded (\<lambda>_. Call_Bind fd sa) (sy_Bind S fd sa),
     sy_Connect = \<lambda>fd sa. recorded (\<lambda>_. Call_Connect fd sa) (sy_Connect S fd sa),
     sy_Close = \<lambda>fd. recorded (\<lambda>_. Call_Close fd) (sy_Close S fd),
     sy_FileConn = \<lambda>fd. recorded (\<lambda>_. Call_FileConn fd) (sy_FileConn S fd),
     sy_ConnClose = \<lambda>c. recorded (\<lambda>_. Call_ConnClose) (sy_ConnClose S c),
     sy_FileClose = \<lambda>f. recorded (\<lambda>_. Call_FileClose f) (sy_FileClose S f)\<rparr>"

definition stopped_in :: "sock_call list \<Rightarrow> sock_event list \<Rightarrow> bool" where
  "stopped_in p l \<longleftrightarrow> (\<exists>p1 p2. p = p1 @ p2 \<and> (l = map Did p1 \<or> (\<exists>c p3. p2 = c # p3 \<and> l = map Did p1 @ [Failed c])))"

definition trace_of :: "sock_call list \<Rightarrow> 'a result \<Rightarrow> sock_event list \<Rightarrow> bool" where
  "trace_of p r m \<longleftrightarrow> (if is_ok r then m = map Did p else stopped_in p m)"

definition runs :: "('s \<times> sock_event list, 'a) act \<Rightarrow> sock_call list \<Rightarrow> bool" where
  "runs f p \<longleftrightarrow> (\<forall>s l r s' l'. f (s, l) = (r, (s', l')) \<longrightarrow>
     (\<exists>m. l' = l @ m \<and> trace_of p r m))"

named_theorems run_rules \<open>traces of the steps of a connection\<close>

lemma stopped_in_append: "stopped_in p m \<Longrightarrow> stopped_in (p @ q) m"
  unfolding stopped_in_def by (metis append.assoc append_Cons)

lemma stopped_in_prepend: "stopped_in q m \<Longrightarrow> stopped_in (p @ q) (map Did p @ m)"
  unfolding stopped_in_def by (metis append.assoc map_append)

lemma stopped_in_Nil: "stopped_in p []"
  unfolding stopped_in_def by (metis append_Nil list.map(1))

lemma runs_bind:
  assumes f: "runs f p" and g: "\<And>a. runs (g a) q"
  shows "runs (bind_a f g) (p @ q)"
  unfolding runs_def
proof (intro allI impI)
  fix s l r s' l'
  assume e: "bind_a f g (s, l) = (r, (s', l'))"
  obtain r1 s1 l1 where 1: "f (s, l) = (r1, (s1, l1))" by (metis surj_pair)
  with f obtain m1 where m1: "l1 = l @ m1" "trace_of p r1 m1" unfolding runs_def by blast
  show "\<exists>m. l' = l @ m \<and> trace_of (p @ q) r m"
  proof (cases r1)
    case (Inl x)
    with e 1 m1 show ?thesis by (auto simp: trace_of_def intro: stopped_in_append)
  next
    case (Inr a)
    then have "g a (s1, l1) = (r, (s', l'))" using e 1 by simp
    with g [of a] obtain m2 where "l' = l1 @ m2" "trace_of q r m2" unfolding runs_def by blast
    with m1 Inr show ?thesis by (intro exI [of _ "m1 @ m2"]) (simp add: trace_of_def stopped_in_prepend)
  qed
qed

lemma runs_silent: "(\<And>s l. \<exists>r s'. f (s, l) = (r, (s', l))) \<Longrightarrow> runs f []"
  unfolding runs_def trace_of_def by (metis append_Nil2 list.map(1) prod.inject stopped_in_Nil)

lemma runs_basic [run_rules]:
  "runs (ret_a a) []" "runs (lift_r r) []" "runs (on_fst h) []"
  by (rule runs_silent; auto simp: on_fst_def split: prod.splits)+

lemma runs_refuse [run_rules]: "runs (lift_r (fail msg)) p"
  by (auto simp: runs_def trace_of_def fail_def intro: stopped_in_Nil)

lemma runs_recorded [run_rules]: "runs (recorded (\<lambda>_. c) h) [c]"
proof -
  have "stopped_in [c] [Failed c]" unfolding stopped_in_def by (rule exI [of _ "[]"]) simp
  then show ?thesis by (auto simp: runs_def trace_of_def recorded_def event_def split: prod.splits if_splits)
qed

lemma runs_wrap [run_rules]: "runs f p \<Longrightarrow> runs (wrap_a msg f) p"
  unfolding runs_def
proof (intro allI impI)
  fix s l r s' l'
  assume f: "\<forall>s l r s' l'. f (s, l) = (r, s', l') \<longrightarrow> (\<exists>m. l' = l @ m \<and> trace_of p r m)"
    and "wrap_a msg f (s, l) = (r, s', l')"
  then obtain r1 where "f (s, l) = (r1, s', l')" "r = wrap_r msg r1" by (auto simp: wrap_a_def split: prod.splits)
  with f show "\<exists>m. l' = l @ m \<and> trace_of p r m" by (auto simp: trace_of_def)
qed

lemma runs_when [run_rules]: "runs f p \<Longrightarrow> runs (when_a b f) (if b then p else [])"
  by (cases b) (simp_all add: runs_basic)

lemma runs_each [run_rules]: "(\<And>x. runs (f x) (p x)) \<Longrightarrow> runs (each_a f xs) (concat (map p xs))"
  by (induction xs) (simp_all add: runs_basic runs_bind)

lemma traced_sys_simps [simp]:
  "sy_Now (traced_sys S) = on_fst (sy_Now S)"
  "sy_ResolveTCPAddr (traced_sys S) n a = on_fst (sy_ResolveTCPAddr S n a)"
  "sy_SetsockoptInt (traced_sys S) fd opt v = recorded (\<lambda>_. Call_SetsockoptInt fd opt v) (sy_SetsockoptInt S fd opt v)"
  "sy_SetsockoptTimeval (traced_sys S) fd ti tv = recorded (\<lambda>_. Call_SetsockoptTimeval fd ti tv) (sy_SetsockoptTimeval S fd ti tv)"
  "sy_Bind (traced_sys S) fd sa = recorded (\<lambda>_. Call_Bind fd sa) (sy_Bind S fd sa)"
  "sy_Connect (traced_sys S) fd sa = recorded (\<lambda>_. Call_Connect fd sa) (sy_Connect S fd sa)"
  "sy_Close (traced_sys S) fd = recorded (\<lambda>_. Call_Close fd) (sy_Close S fd)"
  "sy_FileConn (traced_sys S) fd = recorded (\<lambda>_. Call_FileConn fd) (sy_FileConn S fd)"
  by (simp_all add: traced_sys_def)

lemma traced_Socket [simp]:
  "sy_Socket S af s = (Inr fd, s') \<Longrightarrow> sy_Socket (traced_sys S) af (s, l) = (Inr fd, (s', l @ [Did (Call_Socket af fd)]))"
  "sy_Socket S af s = (Inl e, s') \<Longrightarrow> sy_Socket (traced_sys S) af (s, l) = (Inl e, (s', l @ [Failed (Call_Socket af (-1))]))"
  by (simp_all add: traced_sys_def recorded_def event_def)

text \<open>The calls that make a connection of \<open>params\<close>.\<close>

definition bind_plan :: "int \<Rightarrow> tcpConnParams \<Rightarrow> sock_call list" where
  "bind_plan fd params =
     (if tp_localIp params = [] \<or> IsUnspecified (tp_localIp params) then []
      else if tp_fwmark params = 0 then [Call_Bind fd (toSockaddr (tp_localIp params) 0)]
      else [Call_SetsockoptInt fd SO_REUSEADDR 1, Call_SetsockoptInt fd TCP_MAXSEG 1400,
            Call_Bind fd (toSockaddr (tp_localIp params) (basePort + uint (tp_fwmark params)))])"

definition mark_plan :: "int \<Rightarrow> u32 \<Rightarrow> sock_call list" where
  "mark_plan fd fwmark = (if fwmark \<noteq> 0 then [Call_SetsockoptInt fd SO_MARK (uint fwmark)] else [])"

definition timeout_plan :: "int \<Rightarrow> int \<Rightarrow> sock_call list" where
  "timeout_plan fd t =
     (if t > 0 then [Call_SetsockoptTimeval fd SO_RCVTIMEO (NsecToTimeval t), Call_SetsockoptTimeval fd SO_SNDTIMEO (NsecToTimeval t),
        Call_SetsockoptInt fd TCP_USER_TIMEOUT (t div 1000000)]
      else [])"

definition conn_plan :: "int \<Rightarrow> tcpConnParams \<Rightarrow> sock_call list" where
  "conn_plan fd params =
     bind_plan fd params @ mark_plan fd (tp_fwmark params) @ timeout_plan fd (tp_timeout params) @
     [Call_Connect fd (toSockaddr (tp_remoteIp params) (tp_remotePort params))]"

lemma bindLocal_runs: "runs (bindLocal (traced_sys S) fd params) (bind_plan fd params)"
proof -
  have three: "runs (bind_a f1 (\<lambda>_. bind_a f2 (\<lambda>_. f3))) [c1, c2, c3]" if "runs f1 [c1]" "runs f2 [c2]" "runs f3 [c3]"
    for f1 f2 f3 :: "('s \<times> sock_event list, unit) act" and c1 c2 c3
    using runs_bind [OF that(1) runs_bind [OF that(2,3)]] by simp
  show ?thesis
    by (auto simp: bindLocal_def bind_plan_def intro!: three run_rules)
qed

lemma markSocket_runs: "runs (markSocket (traced_sys S) fd params) (mark_plan fd (tp_fwmark params))"
  unfolding markSocket_def mark_plan_def traced_sys_simps by (intro run_rules)

lemma applyTimeouts_runs: "runs (applyTimeouts (traced_sys S) fd params) (timeout_plan fd (tp_timeout params))"
proof -
  let ?t = "tp_timeout params"
  have each: "runs (each_a (\<lambda>opt. wrap_a ''fails to apply'' (sy_SetsockoptTimeval (traced_sys S) fd opt (NsecToTimeval ?t))) [SO_RCVTIMEO, SO_SNDTIMEO])
      (concat (map (\<lambda>opt. [Call_SetsockoptTimeval fd opt (NsecToTimeval ?t)]) [SO_RCVTIMEO, SO_SNDTIMEO]))"
    unfolding traced_sys_simps by (intro run_rules)
  have usr: "runs (wrap_a msg (sy_SetsockoptInt (traced_sys S) fd TCP_USER_TIMEOUT (?t div 1000000))) [Call_SetsockoptInt fd TCP_USER_TIMEOUT (?t div 1000000)]" for msg
    unfolding traced_sys_simps by (intro run_rules)
  have plan: "timeout_plan fd ?t = (if ?t > 0 then concat (map (\<lambda>opt. [Call_SetsockoptTimeval fd opt (NsecToTimeval ?t)]) [SO_RCVTIMEO, SO_SNDTIMEO]) @
      [Call_SetsockoptInt fd TCP_USER_TIMEOUT (?t div 1000000)] else [])"
    by (simp add: timeout_plan_def)
  show ?thesis
    unfolding applyTimeouts_def Let_def plan by (rule runs_when [OF runs_bind [OF each usr]])
qed

lemma tcpConn_runs: "runs (tcpConn (traced_sys S) fd params) (conn_plan fd params)"
  unfolding tcpConn_def conn_plan_def
  by (auto intro!: runs_refuse runs_bind bindLocal_runs markSocket_runs applyTimeouts_runs runs_recorded)

subsection \<open>The trace of a connection\<close>

lemma newTcpConnection_trace:
  assumes "newTcpConnection (traced_sys S) ctx fd params (s, l) = (r, (s', l'))"
  shows "\<exists>t m. l' = l @ m \<and> (if ctx = None then t = tp_timeout params else 0 < t) \<and>
    trace_of (conn_plan fd (params\<lparr>tp_timeout := t\<rparr>) @ [Call_FileConn fd]) r m"
proof -
  let ?rest = "\<lambda>params. bind_a (tcpConn (traced_sys S) fd params) (\<lambda>_. bind_a (sy_FileConn (traced_sys S) fd) (\<lambda>fileConn.
      ret_a \<lparr>cw_Conn = fileConn, cw_file = fd\<rparr>))"
  have rest: "\<exists>m. l' = l @ m \<and> trace_of (conn_plan fd params @ [Call_FileConn fd]) r m"
    if "?rest params (s, l) = (r, (s', l'))" for params s
  proof -
    have "runs (?rest params) (conn_plan fd params @ [Call_FileConn fd] @ [])"
      unfolding traced_sys_simps by (intro runs_bind tcpConn_runs run_rules)
    with that show ?thesis unfolding runs_def append_Nil2 by blast
  qed
  show ?thesis
  proof (cases ctx)
    case None
    then have "?rest params (s, l) = (r, (s', l'))" using assms by (simp add: newTcpConnection_def)
    with rest [of params s] None show ?thesis by (intro exI [of _ "tp_timeout params"]) simp
  next
    case (Some deadline)
    obtain q s1 where now: "sy_Now S s = (q, s1)" by fastforce
    show ?thesis
    proof (cases "\<exists>now. q = Inr now \<and> deadline - now > 0")
      case True
      then obtain now1 where "q = Inr now1" "deadline - now1 > 0" by blast
      moreover from this have "?rest (params\<lparr>tp_timeout := deadline - now1\<rparr>) (s1, l) = (r, (s', l'))"
        using assms now Some by (simp add: newTcpConnection_def)
      ultimately show ?thesis
        using rest [of "params\<lparr>tp_timeout := deadline - now1\<rparr>" s1] Some by (intro exI [of _ "deadline - now1"]) simp
    next
      case False
      then have "\<not> is_ok r \<and> l' = l"
        using assms now Some by (cases q) (auto simp: newTcpConnection_def fail_def)
      then show ?thesis using Some by (intro exI [of _ 1] exI [of _ "[]"]) (simp add: trace_of_def stopped_in_Nil)
    qed
  qed
qed

definition conn_params :: "u32 \<Rightarrow> net_ip \<Rightarrow> net_ip \<Rightarrow> int \<Rightarrow> int \<Rightarrow> tcpConnParams" where
  "conn_params fwmark localIp ip port t =
     \<lparr>tp_timeout = t, tp_fwmark = fwmark, tp_localIp = localIp, tp_remoteIp = ip, tp_remotePort = port\<rparr>"

lemma newTcpConnection_owns:
  "newTcpConnection S ctx fd params s = (Inr c, s') \<Longrightarrow> cw_file c = fd"
  by (auto simp: newTcpConnection_def bind_a_ok)

text \<open>Either nothing was opened, or one socket was, and what follows is a part of the plan.\<close>

lemma NewTcpConnection_trace:
  assumes "NewTcpConnection (traced_sys S) ctx network localIp dstAddress fwmark (s, []) = (r, (s', l))"
  shows "(\<not> is_ok r \<and> (l = [] \<or> (\<exists>af. l = [Failed (Call_Socket af (-1))]))) \<or>
    (\<exists>ip port af fd t m c. fst (sy_ResolveTCPAddr S network dstAddress s) = Inr (ip, port) \<and>
       (if ctx = None then t = 0 else 0 < t) \<and> c \<in> {Did (Call_Close fd), Failed (Call_Close fd)} \<and>
       trace_of (conn_plan fd (conn_params fwmark localIp ip port t) @ [Call_FileConn fd]) r m \<and>
       l = Did (Call_Socket af fd) # m @ (if is_ok r then [] else [c]) \<and> (\<forall>x. r = Inr x \<longrightarrow> cw_file x = fd))"
proof (cases "network \<in> {''tcp'', ''tcp4'', ''tcp6''}")
  case False
  then show ?thesis using assms by (auto simp: NewTcpConnection_def fail_def)
next
  case True
  then have net: "(network \<notin> {''tcp'', ''tcp4'', ''tcp6''}) = False" by simp
  note run = assms [unfolded NewTcpConnection_def net if_False]
  obtain q s1 where q: "sy_ResolveTCPAddr S network dstAddress s = (q, s1)" by fastforce
  show ?thesis
  proof (cases q)
    case (Inl e)
    then show ?thesis using run q by auto
  next
    case (Inr ipport)
    obtain ip port where ip: "ipport = (ip, port)" by fastforce
    let ?af = "if To4 ip \<noteq> None then SOCK_AF_INET else SOCK_AF_INET6"
    let ?plan = "\<lambda>fd t. conn_plan fd (conn_params fwmark localIp ip port t) @ [Call_FileConn fd]"
    obtain k s2 where k: "sy_Socket S ?af s1 = (k, s2)" by fastforce
    show ?thesis
    proof (cases k)
      case (Inl e)
      then have "\<not> is_ok r \<and> l = [Failed (Call_Socket ?af (-1))]"
        using run q k Inr ip by auto
      then show ?thesis by blast
    next
      case fd: (Inr fd)
      obtain r1 s3 l3 where n: "newTcpConnection (traced_sys S) ctx fd (conn_params fwmark localIp ip port 0) (s2, [Did (Call_Socket ?af fd)]) = (r1, (s3, l3))"
        by (metis surj_pair)
      have res: "(r, s', l) = (case r1 of Inr c \<Rightarrow> (Inr c, s3, l3) | Inl e \<Rightarrow> (Inl e, snd (sy_Close (traced_sys S) fd (s3, l3))))"
        using run q k Inr ip fd n
        by (simp add: conn_params_def [symmetric] split: sum.splits prod.splits)
      have cp: "(conn_params fwmark localIp ip port 0)\<lparr>tp_timeout := t\<rparr> = conn_params fwmark localIp ip port t"
        "tp_timeout (conn_params fwmark localIp ip port 0) = 0" for t by (simp_all add: conn_params_def)
      from newTcpConnection_trace [OF n, unfolded cp] obtain t m where t: "if ctx = None then t = 0 else 0 < t"
        "l3 = Did (Call_Socket ?af fd) # m"
        "trace_of (?plan fd t) r1 m"
        by (metis append_Cons append_Nil)
      obtain c s4 where c: "sy_Close (traced_sys S) fd (s3, l3) = (c, s4, l3 @ [event (Call_Close fd) c])"
        by (cases "sy_Close S fd s3") (auto simp: recorded_def)
      have "event (Call_Close fd) c \<in> {Did (Call_Close fd), Failed (Call_Close fd)}" by (simp add: event_def)
      then show ?thesis
        using res t c q Inr ip newTcpConnection_owns [of "traced_sys S" ctx fd _ _] n
        by (intro disjI2 exI [of _ ip] exI [of _ port] exI [of _ ?af] exI [of _ fd] exI [of _ t] exI [of _ m] exI [of _ "event (Call_Close fd) c"])
           (cases r1; simp add: trace_of_def)
    qed
  qed
qed

subsection \<open>What precedes a connect\<close>

fun call_of :: "sock_event \<Rightarrow> sock_call" where
  "call_of (Did c) = c"
| "call_of (Failed c) = c"

fun connects :: "sock_event \<Rightarrow> bool" where
  "connects (Did (Call_Connect fd sa)) = True"
| "connects (Failed (Call_Connect fd sa)) = True"
| "connects _ = False"

text \<open>The events before the first attempt to connect.\<close>

definition before_connect :: "sock_event list \<Rightarrow> sock_event list" where
  "before_connect l = takeWhile (\<lambda>e. \<not> connects e) l"

lemma connects_iff: "connects e \<longleftrightarrow> (\<exists>fd sa. e = Did (Call_Connect fd sa) \<or> e = Failed (Call_Connect fd sa))"
  by (cases e rule: connects.cases) auto

lemma trace_of_set:
  assumes "trace_of p r m" and "e \<in> set m"
  shows "call_of e \<in> set p"
proof (cases "is_ok r")
  case False
  with assms(1) obtain p1 p2 where p: "p = p1 @ p2" "m = map Did p1 \<or> (\<exists>c p3. p2 = c # p3 \<and> m = map Did p1 @ [Failed c])"
    unfolding trace_of_def stopped_in_def by auto
  then have "e \<in> Did ` set p1 \<or> (\<exists>c p3. p2 = c # p3 \<and> e = Failed c)" using assms(2) by auto
  then show ?thesis unfolding p(1) by auto
qed (use assms in \<open>auto simp: trace_of_def\<close>)

lemma trace_of_before:
  assumes t: "trace_of (q @ [c, d]) r m" and c: "connects (Did c)" and q: "\<forall>x\<in>set q. \<not> connects (Did x)" and d: "\<not> connects (Did d)"
    and e: "e \<in> set m" "connects e"
  shows "before_connect (m @ m') = map Did q \<and> e \<in> {Did c, Failed c}"
proof -
  have "\<exists>k m1. m = map Did q @ k # m1 \<and> k \<in> {Did c, Failed c} \<and> (\<forall>x\<in>set m1. \<not> connects x)"
  proof (cases "is_ok r")
    case True
    with t d show ?thesis by (auto simp: trace_of_def)
  next
    case False
    with t obtain p1 p2 where p: "q @ [c, d] = p1 @ p2" "m = map Did p1 \<or> (\<exists>x p3. p2 = x # p3 \<and> m = map Did p1 @ [Failed x])"
      unfolding trace_of_def stopped_in_def by auto
    have f: "connects (Failed x) = connects (Did x)" for x by (cases x) auto
    consider us where "p1 @ us = q" "p2 = us @ [c, d]" | "p1 = q @ [c]" "p2 = [d]" | "p1 = q @ [c, d]" "p2 = []"
    proof (cases p2 rule: rev_cases)
      case (snoc xs y)
      then have "q @ [c] = p1 @ xs" "y = d" using p(1) by (simp_all flip: append_assoc append_Cons [of c "[]" "[d]", simplified])
      then show ?thesis using that snoc by (cases xs rule: rev_cases) auto
    qed (use that p(1) in auto)
    then show ?thesis
    proof cases
      case (1 us)
      show ?thesis
      proof (cases us)
        case Nil
        then have "m = map Did q \<or> m = map Did q @ [Failed c]" using 1 p(2) by auto
        moreover have "m \<noteq> map Did q" using e q by auto
        ultimately show ?thesis by auto
      next
        case (Cons u us')
        then have "e \<in> Did ` set q \<or> e = Failed u \<and> u \<in> set q" using 1 p(2) e(1) by auto
        then show ?thesis using e(2) q f by auto
      qed
    qed (use p(2) d f in auto)
  qed
  then obtain k m1 where k: "m = map Did q @ k # m1" "k \<in> {Did c, Failed c}" "\<forall>x\<in>set m1. \<not> connects x" by blast
  have "connects k" using k(2) c by (cases c) auto
  then have "before_connect (m @ m') = map Did q"
    using q by (simp add: k(1) before_connect_def takeWhile_tail)
  moreover have "e = k" using e k(1,3) q by auto
  ultimately show ?thesis using k(2) by simp
qed

lemma marked_conn:
  assumes "NewTcpConnection (traced_sys S) ctx network localIp dstAddress fwmark (s, []) = (r, (s', l))"
    and "e \<in> set l" and "connects e"
  shows "\<exists>fd ip port. fst (sy_ResolveTCPAddr S network dstAddress s) = Inr (ip, port) \<and>
    e \<in> {Did (Call_Connect fd (toSockaddr ip port)), Failed (Call_Connect fd (toSockaddr ip port))} \<and>
    (fwmark \<noteq> 0 \<longrightarrow> Did (Call_SetsockoptInt fd SO_MARK (uint fwmark)) \<in> set (before_connect l)) \<and>
    (localIp \<noteq> [] \<and> \<not> IsUnspecified localIp \<longrightarrow>
       Did (Call_Bind fd (toSockaddr localIp (if fwmark = 0 then 0 else 50000 + uint fwmark))) \<in> set (before_connect l)) \<and>
    (ctx \<noteq> None \<longrightarrow> (\<exists>t>0. \<forall>opt. Did (Call_SetsockoptTimeval fd opt (NsecToTimeval t)) \<in> set (before_connect l)))"
proof -
  have "\<not> (\<not> is_ok r \<and> (l = [] \<or> (\<exists>af. l = [Failed (Call_Socket af (-1))])))" using assms(2,3) by auto
  with NewTcpConnection_trace [OF assms(1)] obtain ip port af fd t m c where
    ip: "fst (sy_ResolveTCPAddr S network dstAddress s) = Inr (ip, port)" and t: "if ctx = None then t = 0 else 0 < t"
    and c: "c \<in> {Did (Call_Close fd), Failed (Call_Close fd)}"
    and m: "trace_of (conn_plan fd (conn_params fwmark localIp ip port t) @ [Call_FileConn fd]) r m"
    and l: "l = Did (Call_Socket af fd) # m @ (if is_ok r then [] else [c])"
    by blast
  let ?params = "conn_params fwmark localIp ip port t"
  define q where "q = bind_plan fd ?params @ mark_plan fd fwmark @ timeout_plan fd t"
  have plan: "conn_plan fd ?params @ [Call_FileConn fd] = q @ [Call_Connect fd (toSockaddr ip port), Call_FileConn fd]"
    by (simp add: conn_plan_def q_def conn_params_def)
  have quiet: "\<forall>x\<in>set q. \<not> connects (Did x)"
    by (auto simp: q_def bind_plan_def mark_plan_def timeout_plan_def split: if_splits)
  have "e \<in> set m" using l c assms(2,3) by (auto split: if_splits)
  from trace_of_before [OF m [unfolded plan] _ quiet _ this assms(3), of "if is_ok r then [] else [c]"]
  have "before_connect (m @ (if is_ok r then [] else [c])) = map Did q"
    and e: "e \<in> {Did (Call_Connect fd (toSockaddr ip port)), Failed (Call_Connect fd (toSockaddr ip port))}" by simp_all
  then have "set (before_connect l) = insert (Did (Call_Socket af fd)) (Did ` set q)"
    by (simp add: l before_connect_def)
  moreover have "\<forall>opt. Did (Call_SetsockoptTimeval fd opt (NsecToTimeval t)) \<in> Did ` set q" if "ctx \<noteq> None"
  proof
    fix opt
    show "Did (Call_SetsockoptTimeval fd opt (NsecToTimeval t)) \<in> Did ` set q"
      using that t by (cases opt) (simp_all add: q_def timeout_plan_def)
  qed
  moreover have "fwmark \<noteq> 0 \<longrightarrow> Did (Call_SetsockoptInt fd SO_MARK (uint fwmark)) \<in> Did ` set q"
    by (simp add: q_def mark_plan_def)
  moreover have "localIp \<noteq> [] \<and> \<not> IsUnspecified localIp \<longrightarrow>
      Did (Call_Bind fd (toSockaddr localIp (if fwmark = 0 then 0 else 50000 + uint fwmark))) \<in> Did ` set q"
    by (simp add: q_def bind_plan_def conn_params_def basePort_def)
  moreover have "ctx \<noteq> None \<longrightarrow> 0 < t" using t by simp
  ultimately show ?thesis using ip e by (metis insertI2)
qed

text \<open>
  No unmarked connection: whatever system calls fail, a socket is only connected to the resolved
  address of the destination, and before that it has been marked with the mark, bound to the local
  address (at the port that belongs to the mark) and, under a deadline, given its timeouts.
\<close>

theorem marked_connection:
  assumes "NewTcpConnection (traced_sys S) ctx network localIp dstAddress fwmark (s, []) = (r, (s', l))"
    and "e \<in> set l" and "connects e"
  shows "\<exists>fd ip port. fst (sy_ResolveTCPAddr S network dstAddress s) = Inr (ip, port) \<and>
    e \<in> {Did (Call_Connect fd (toSockaddr ip port)), Failed (Call_Connect fd (toSockaddr ip port))} \<and>
    (fwmark \<noteq> 0 \<longrightarrow> Did (Call_SetsockoptInt fd SO_MARK (uint fwmark)) \<in> set (before_connect l)) \<and>
    (localIp \<noteq> [] \<and> \<not> IsUnspecified localIp \<longrightarrow>
       Did (Call_Bind fd (toSockaddr localIp (if fwmark = 0 then 0 else 50000 + uint fwmark))) \<in> set (before_connect l)) \<and>
    (ctx \<noteq> None \<longrightarrow> (\<exists>t>0. \<forall>opt. Did (Call_SetsockoptTimeval fd opt (NsecToTimeval t)) \<in> set (before_connect l)))"
  using assms by (rule marked_conn)

text \<open>A system where every call succeeds.\<close>

definition sample_sys :: "(unit, unit) sys" where
  "sample_sys = \<lparr>sy_Now = ret_a 0, sy_ResolveTCPAddr = \<lambda>_ _. ret_a ([10, 0, 0, 1], 80), sy_Socket = \<lambda>_. ret_a 3,
     sy_SetsockoptInt = \<lambda>_ _ _. ret_a (), sy_SetsockoptTimeval = \<lambda>_ _ _. ret_a (), sy_Bind = \<lambda>_ _. ret_a (), sy_Connect = \<lambda>_ _. ret_a (),
     sy_Close = \<lambda>_. ret_a (), sy_FileConn = \<lambda>_. ret_a (), sy_ConnClose = \<lambda>_. ret_a (), sy_FileClose = \<lambda>_. ret_a ()\<rparr>"

lemma not_unspecified: "\<not> IsUnspecified [10, 0, 0, 1]"
proof -
  have "replicate 16 (0 :: u8) ! 10 = 0" by (rule nth_replicate) simp
  moreover have "(v4InV6Prefix @ [10, 0, 0, 1]) ! 10 = 255" by (simp add: v4InV6Prefix_def)
  ultimately have "v4InV6Prefix @ [10, 0, 0, 1] \<noteq> replicate 16 0" by auto
  then show ?thesis by (simp add: IsUnspecified_def IP_Equal_def)
qed

lemma sample_connection:
  "NewTcpConnection (traced_sys sample_sys) None ''tcp'' [] ''10.0.0.1:80'' 7 ((), []) =
     (Inr \<lparr>cw_Conn = (), cw_file = 3\<rparr>, ((), map Did [Call_Socket SOCK_AF_INET 3, Call_SetsockoptInt 3 SO_MARK 7,
        Call_Connect 3 (SockaddrInet4 80 [10, 0, 0, 1]), Call_FileConn 3]))"
  by (simp add: NewTcpConnection_def newTcpConnection_def tcpConn_def bindLocal_def markSocket_def applyTimeouts_def toSockaddr_def
      sample_sys_def To4_def not_unspecified recorded_def event_def)

theorem marked_connection_witness:
  "Did (Call_SetsockoptInt 3 SO_MARK 7) \<in> set (before_connect (map Did [Call_Socket SOCK_AF_INET 3, Call_SetsockoptInt 3 SO_MARK 7,
     Call_Connect 3 (SockaddrInet4 80 [10, 0, 0, 1]), Call_FileConn 3]))"
  using marked_connection [OF sample_connection, of "Did (Call_Connect 3 (SockaddrInet4 80 [10, 0, 0, 1]))"] by auto

text \<open>
  C26: Sockets do not leak: a connection that fails leaves no socket open (nothing was opened, or the
  socket is closed by the last call and not before), and one that succeeds owns its socket, which has
  not been closed.
\<close>

theorem socket_released:
  assumes "NewTcpConnection (traced_sys S) ctx network localIp dstAddress fwmark (s, []) = (r, (s', l))"
  shows "(\<not> is_ok r \<and> (\<forall>af fd. Did (Call_Socket af fd) \<notin> set l)) \<or>
    (\<exists>af fd m. l = Did (Call_Socket af fd) # m \<and>
       (case r of
          Inr c \<Rightarrow> cw_file c = fd \<and> (\<forall>e\<in>set m. call_of e \<noteq> Call_Close fd)
        | Inl _ \<Rightarrow> m \<noteq> [] \<and> call_of (last m) = Call_Close fd \<and> (\<forall>e\<in>set (butlast m). call_of e \<noteq> Call_Close fd)))"
proof -
  have quiet: "call_of e \<noteq> Call_Close fd" if "trace_of (conn_plan fd params @ [Call_FileConn fd]) r m" "e \<in> set m" for fd params m e
  proof -
    have "call_of e \<in> set (conn_plan fd params @ [Call_FileConn fd])"
      using that by (rule trace_of_set)
    then show ?thesis by (auto simp: conn_plan_def bind_plan_def mark_plan_def timeout_plan_def split: if_splits)
  qed
  from NewTcpConnection_trace [OF assms] show ?thesis
  proof (elim disjE exE conjE)
    fix ip port af fd t m c
    assume m: "trace_of (conn_plan fd (conn_params fwmark localIp ip port t) @ [Call_FileConn fd]) r m"
      and l: "l = Did (Call_Socket af fd) # m @ (if is_ok r then [] else [c])" and c: "c \<in> {Did (Call_Close fd), Failed (Call_Close fd)}"
    assume own: "\<forall>x. r = Inr x \<longrightarrow> cw_file x = fd"
    let ?m = "m @ (if is_ok r then [] else [c])"
    have "\<forall>e\<in>set m. call_of e \<noteq> Call_Close fd" using quiet [OF m] by blast
    then have "case r of Inr c \<Rightarrow> cw_file c = fd \<and> (\<forall>e\<in>set ?m. call_of e \<noteq> Call_Close fd)
        | Inl _ \<Rightarrow> ?m \<noteq> [] \<and> call_of (last ?m) = Call_Close fd \<and> (\<forall>e\<in>set (butlast ?m). call_of e \<noteq> Call_Close fd)"
      using c own by (cases r) auto
    then show ?thesis using l by blast
  qed auto
qed

theorem socket_released_witness:
  "(let l = map Did [Call_Socket SOCK_AF_INET 3, Call_SetsockoptInt 3 SO_MARK 7, Call_Connect 3 (SockaddrInet4 80 [10, 0, 0, 1]), Call_FileConn 3]
    in \<forall>e\<in>set (tl l). call_of e \<noteq> Call_Close 3)"
  using socket_released [OF sample_connection] by simp

end
