(* ===== verification/Health_Checks.thy ===== *)
theory Health_Checks
  imports Fwmark_Conn
begin

section \<open>The checks of kglb/utils/health\_checker and the marked dial function\<close>

text \<open>
  \<open>Check\<close> of every checker, and the dial function that a balancer with marks gives its checker
  (\<open>fwMarkDialContext\<close> in control\_plane/health\_checker\_factory.go). A dial function takes the
  deadline of its context. The network is a record of operations on a world: the default dialer,
  reading and writing on a connection of type \<open>'c\<close>, and the DNS client's messages. An HTTP exchange is
  one operation of the http package, on a request that says what the code has put into it.
\<close>

subsection \<open>net.SplitHostPort and strconv.Atoi\<close>

definition SplitHostPort :: "string \<Rightarrow> (string \<times> string) result" where
  "SplitHostPort hostport =
     (if CHR '':'' \<notin> set hostport then fail ''missing port in address''
      else let port = rev (takeWhile (\<lambda>c. c \<noteq> CHR '':'') (rev hostport)); i = length hostport - length port - 1 in
        if hd hostport = CHR ''['' then
          let e = length (takeWhile (\<lambda>c. c \<noteq> CHR '']'') hostport) in
          if CHR '']'' \<notin> set hostport then fail ''missing ']' in address''
          else if e + 1 \<noteq> i then fail ''missing port or too many colons in address''
          else if CHR ''['' \<in> set (drop 1 hostport) \<or> CHR '']'' \<in> set (drop (e + 1) hostport) then fail ''unexpected bracket in address''
          else Inr (take (e - 1) (drop 1 hostport), port)
        else if CHR '':'' \<in> set (take i hostport) then fail ''too many colons in address''
        else if CHR ''['' \<in> set hostport \<or> CHR '']'' \<in> set hostport then fail ''unexpected bracket in address''
        else Inr (take i hostport, port))"

definition Atoi :: "string \<Rightarrow> int result" where
  "Atoi s =
     (let (neg, ds) = (if s \<noteq> [] \<and> hd s = CHR ''-'' then (True, tl s) else if s \<noteq> [] \<and> hd s = CHR ''+'' then (False, tl s) else (False, s));
          n = (if neg then - int (undec ds) else int (undec ds))
      in if ds = [] \<or> (\<exists>c\<in>set ds. \<not> is_digit c) then fail ''invalid syntax''
         else if n < - (2 ^ 63) \<or> 2 ^ 63 \<le> n then fail ''value out of range''
         else Inr n)"

lemma split_join:
  assumes h: "set host \<inter> {CHR ''['', CHR '']''} = {}" and p: "set port \<inter> {CHR ''['', CHR '']'', CHR '':''} = {}"
  shows "SplitHostPort (JoinHostPort host port) = Inr (host, port)"
proof -
  have tail: "takeWhile (\<lambda>c. c \<noteq> CHR '':'') (rev port @ CHR '':'' # xs) = rev port" for xs
    using p by (subst takeWhile_append2) auto
  show ?thesis
  proof (cases "CHR '':'' \<in> set host")
    case True
    have "takeWhile (\<lambda>c. c \<noteq> CHR '']'') (host @ CHR '']'' # CHR '':'' # port) = host"
      using h by (subst takeWhile_append2) auto
    then show ?thesis using True h p tail [of "CHR '']'' # rev host @ ''[''"]
      by (simp add: SplitHostPort_def JoinHostPort_def Let_def)
  next
    case False
    have "hd (host @ CHR '':'' # port) \<noteq> CHR ''[''" using h by (cases host) auto
    then show ?thesis using False h p tail [of "rev host"]
      by (simp add: SplitHostPort_def JoinHostPort_def Let_def)
  qed
qed

lemma digit_sign: "is_digit c \<Longrightarrow> c \<noteq> CHR ''-'' \<and> c \<noteq> CHR ''+'' \<and> c \<notin> {CHR ''['', CHR '']'', CHR '':''}"
  by (auto simp: is_digit_def)

lemma Atoi_Itoa:
  assumes "0 \<le> n" "n < 2 ^ 63"
  shows "Atoi (Itoa n) = Inr n" and "set (Itoa n) \<inter> {CHR ''['', CHR '']'', CHR '':''} = {}"
proof -
  have "hd (dec (nat n)) \<noteq> CHR ''-''" "hd (dec (nat n)) \<noteq> CHR ''+''"
    using digit_sign dec_digits hd_in_set [OF dec_nonempty] by blast+
  then show "Atoi (Itoa n) = Inr n" using assms dec_digits [of _ "nat n"] by (auto simp: Atoi_def Itoa_def)
  show "set (Itoa n) \<inter> {CHR ''['', CHR '']'', CHR '':''} = {}"
    using assms(1) dec_digits [of _ "nat n"] digit_sign by (auto simp: Itoa_def)
qed

subsection \<open>health\_checker.go and the parts the checkers share\<close>

type_synonym ('s, 'c) DialContextFunc = "context_ \<Rightarrow> string \<Rightarrow> string \<Rightarrow> ('s, 'c) act"

record ('s, 'c) net_env =
  ne_Now :: "'s \<Rightarrow> int"
  ne_Dial :: "('s, 'c) DialContextFunc"
  ne_Close :: "'c \<Rightarrow> ('s, unit) act"
  ne_SetDeadline :: "'c \<Rightarrow> int \<Rightarrow> ('s, unit) act"
  ne_Write :: "'c \<Rightarrow> string \<Rightarrow> ('s, unit) act"
  ne_MsgId :: "('s, u16) act"
  ne_WriteMsg :: "'c \<Rightarrow> u16 \<Rightarrow> string \<Rightarrow> nat \<Rightarrow> ('s, unit) act"
  ne_ReadMsg :: "'c \<Rightarrow> ('s, u16 \<times> int) act"

text \<open>\<open>defaultDialContext\<close> stands in for a dial function that is not given.\<close>

definition dial_or_default :: "('s, 'c) net_env \<Rightarrow> ('s, 'c) DialContextFunc option \<Rightarrow> ('s, 'c) DialContextFunc" where
  "dial_or_default E dialContext = (case dialContext of None \<Rightarrow> ne_Dial E | Some d \<Rightarrow> d)"

definition timeout_ns :: "u32 \<Rightarrow> int" where
  "timeout_ns timeoutMs = int (timeoutMsToDuration timeoutMs) * 1000000"

text \<open>Dial under a timeout, go on with the connection, and close it whatever happens (\<open>defer\<close>).\<close>

definition connected ::
  "('s, 'c) net_env \<Rightarrow> ('s, 'c) DialContextFunc \<Rightarrow> int \<Rightarrow> string \<Rightarrow> string \<Rightarrow> ('c \<Rightarrow> ('s, 'r) act) \<Rightarrow> ('s, 'r) act" where
  "connected E dialContext timeout network address body = (\<lambda>s.
     case dialContext (Some (ne_Now E s + timeout)) network address s of
       (Inl e, s') \<Rightarrow> (Inl e, s')
     | (Inr c, s') \<Rightarrow> (case body c s' of (r, s'') \<Rightarrow> (r, snd (ne_Close E c s''))))"

definition ProtocolString :: "HcIPProtocol \<Rightarrow> string" where
  "ProtocolString p = (case p of HC_TCP \<Rightarrow> ''tcp'' | HC_UDP \<Rightarrow> ''udp'' | HcIPProtocol_num n \<Rightarrow> Itoa n)"

subsection \<open>tcp\_checker.go, dummy\_checker.go\<close>

definition TcpChecker_Check :: "('s, 'c) net_env \<Rightarrow> ('s, 'c) DialContextFunc option \<Rightarrow> u32 option \<Rightarrow> string \<Rightarrow> int \<Rightarrow> ('s, unit) act" where
  "TcpChecker_Check E dialContext params host port =
     connected E (dial_or_default E dialContext) (timeout_ns (case params of None \<Rightarrow> 0 | Some t \<Rightarrow> t)) ''tcp''
       (JoinHostPort host (Itoa port)) (\<lambda>_. ret_a ())"

definition DummyChecker_Check :: "string \<Rightarrow> int \<Rightarrow> ('s, unit) act" where
  "DummyChecker_Check host port = ret_a ()"

subsection \<open>dns\_checker.go\<close>

text \<open>The table \<open>queryTypes\<close> with the numbers of the record types A, NS and MX; a missing key gives 0.\<close>

definition queryTypeOf :: "DNSQueryType \<Rightarrow> nat" where
  "queryTypeOf t = (case t of Q_A \<Rightarrow> 1 | Q_AAAA \<Rightarrow> 1 | Q_NS \<Rightarrow> 2 | Q_MX \<Rightarrow> 15 | _ \<Rightarrow> 0)"

definition nil_dns :: DnsCheckerAttributes where
  "nil_dns = \<lparr>dns_QueryString = [], dns_QueryType = Q_A, dns_Protocol = HC_TCP, dns_Rcode = 0, dns_CheckTimeoutMs = 0\<rparr>"

definition DnsChecker_Check ::
  "('s, 'c) net_env \<Rightarrow> ('s, 'c) DialContextFunc option \<Rightarrow> DnsCheckerAttributes option \<Rightarrow> string \<Rightarrow> int \<Rightarrow> ('s, unit) act" where
  "DnsChecker_Check E dialContext params host port =
     (let p = (case params of None \<Rightarrow> nil_dns | Some p \<Rightarrow> p); timeout = timeout_ns (dns_CheckTimeoutMs p) in
      connected E (dial_or_default E dialContext) timeout (ProtocolString (dns_Protocol p)) (JoinHostPort host (Itoa port)) (\<lambda>conn.
        bind_a (\<lambda>s. (Inr (), snd (ne_SetDeadline E conn (ne_Now E s + timeout) s))) (\<lambda>_.
        bind_a (ne_MsgId E) (\<lambda>msgReq.
        bind_a (ne_WriteMsg E conn msgReq (dns_QueryString p) (queryTypeOf (dns_QueryType p))) (\<lambda>_.
        bind_a (ne_ReadMsg E conn) (\<lambda>(msgRecv, rcode).
          if msgRecv \<noteq> msgReq then lift_r (fail ''message id in response does not match requested'')
          else if rcode \<noteq> uint (dns_Rcode p) then lift_r (fail ''incorrect rcode'')
          else ret_a ()))))))"

subsection \<open>syslog\_checker.go\<close>

text \<open>A checker with the host name and process number of its probes; \<open>time.Now().Format\<close> is a parameter.\<close>

record SyslogChecker =
  sc_params :: "SyslogCheckerAttributes option"
  sc_hostname :: string
  sc_pid :: int

definition nil_syslog :: SyslogCheckerAttributes where
  "nil_syslog = \<lparr>syslog_LogLevel = 0, syslog_Port = 0, syslog_Protocol = HC_TCP, syslog_CheckTimeoutMs = 0\<rparr>"

definition syslog_params :: "SyslogChecker \<Rightarrow> SyslogCheckerAttributes" where
  "syslog_params h = (case sc_params h of None \<Rightarrow> nil_syslog | Some p \<Rightarrow> p)"

definition syslogDial :: "('s, 'c) net_env \<Rightarrow> SyslogCheckerAttributes \<Rightarrow> ('s, 'c) DialContextFunc" where
  "syslogDial E params ctx network address =
     (if syslog_Port params > 0 then
        bind_a (lift_r (wrap_r ''fails to parse address'' (SplitHostPort address))) (\<lambda>(host, _).
          ne_Dial E ctx network (JoinHostPort host (Itoa (uint (syslog_Port params)))))
      else ne_Dial E ctx network address)"

definition syslogFormat :: "string \<Rightarrow> SyslogChecker \<Rightarrow> int \<Rightarrow> string \<Rightarrow> string \<Rightarrow> string" where
  "syslogFormat timestamp h level tag msg =
     ''<'' @ Itoa level @ ''>'' @ timestamp @ '' '' @ sc_hostname h @ '' '' @ tag @ ''['' @ Itoa (sc_pid h) @ '']: '' @ msg @
     (if msg \<noteq> [] \<and> last msg = CHR 0x0A then [] else [CHR 0x0A])"

definition SyslogChecker_Check ::
  "(int \<Rightarrow> string) \<Rightarrow> ('s, 'c) net_env \<Rightarrow> SyslogChecker \<Rightarrow> string \<Rightarrow> int \<Rightarrow> ('s, unit) act" where
  "SyslogChecker_Check RFC3339 E h host port =
     (let p = syslog_params h in
      connected E (syslogDial E p) (timeout_ns (syslog_CheckTimeoutMs p)) (ProtocolString (syslog_Protocol p)) (JoinHostPort host (Itoa port)) (\<lambda>conn.
        bind_a (gets_a (\<lambda>s. syslogFormat (RFC3339 (ne_Now E s)) h (uint (syslog_LogLevel p)) ''SyslogHealthChecker'' ''probe message.'')) (\<lambda>probeMsg.
          ne_Write E conn probeMsg)))"

subsection \<open>health\_checker\_factory.go: the dial function of a balancer with marks\<close>

text \<open>\<open>m\<close> is the state of the manager of marks when the function is called.\<close>

definition fwmarkDial ::
  "(context_ \<Rightarrow> string \<Rightarrow> net_ip \<Rightarrow> string \<Rightarrow> u32 \<Rightarrow> ('s, 'c) act) \<Rightarrow> Manager \<Rightarrow> FwmarkDial \<Rightarrow> ('s, 'c) DialContextFunc" where
  "fwmarkDial tcpConnFunc m d ctx network address =
     bind_a (lift_r (wrap_r ''fails to parse address'' (SplitHostPort address))) (\<lambda>(host, portStr).
     bind_a (lift_r (wrap_r ''fails to parse address'' (Atoi portStr))) (\<lambda>port.
     bind_a (lift_r (wrap_r ''fails to get allocated fwmark'' (GetAllocatedFwmark m host))) (\<lambda>fwmarkId.
       wrap_a ''fails to connect using fwmark''
         (tcpConnFunc ctx network (fd_localIp d) (JoinHostPort (fd_vip d) (Itoa (int (fd_vport d)))) fwmarkId))))"

subsection \<open>http\_checker.go\<close>

text \<open>
  The http and url packages are parameters: parsing of URLs and of requests, the canonical form of a
  header's name, and the exchange, which gives the status code. \<open>order\<close> is the order in which the
  headers of the configuration are visited.
\<close>

record 'u http_request =
  rq_url :: string
  rq_proxy :: "'u option"
  rq_headers :: "(string, string) gomap"
  rq_host :: string
  rq_followRedirects :: bool
  rq_tls :: bool
  rq_sessions :: string
  rq_deadline :: int

record ('s, 'u) http_lib =
  hl_Canonical :: "string \<Rightarrow> string"
  hl_Parse :: "string \<Rightarrow> 'u result"
  hl_SetPath :: "string \<Rightarrow> 'u \<Rightarrow> 'u"
  hl_String :: "'u \<Rightarrow> string"
  hl_NewRequest :: "string \<Rightarrow> unit result"
  hl_Do :: "'u http_request \<Rightarrow> ('s, int) act"
  hl_Now :: "'s \<Rightarrow> int"

record HttpChecker =
  hk_params :: "HttpCheckerAttributes option"
  hk_headers :: "(string, string) gomap"
  hk_scheme :: string
  hk_isSecure :: bool
  hk_perRealSessionCaches :: "(string, nat) gomap"

definition nil_http :: HttpCheckerAttributes where
  "nil_http = \<lparr>http_Scheme = [], http_Uri = [], http_Headers = [], http_Codes = [], http_ProxyCheckUrl = [],
     http_FollowRedirects = False, http_CheckTimeoutMs = 0\<rparr>"

definition http_params :: "HttpCheckerAttributes option \<Rightarrow> HttpCheckerAttributes" where
  "http_params params = (case params of None \<Rightarrow> nil_http | Some p \<Rightarrow> p)"

definition makeHttpChecker ::
  "('s, 'u) http_lib \<Rightarrow> (string \<times> string) range_order \<Rightarrow> HttpCheckerAttributes option \<Rightarrow> HttpChecker" where
  "makeHttpChecker H order params =
     (let headers = fold (\<lambda>(k, v) hs. AList.update (hl_Canonical H k) v hs) (order 0 (http_Headers (http_params params))) [];
          headers = AList.update (hl_Canonical H ''User-Agent'') ''KgLB healthchecker/1.0'' headers;
          scheme = http_Scheme (http_params params);
          scheme = (if 3 \<le> length scheme \<and> drop (length scheme - 3) scheme = ''://'' then scheme else scheme @ ''://'')
      in \<lparr>hk_params = params, hk_headers = headers, hk_scheme = scheme, hk_isSecure = (scheme = ''https://''),
          hk_perRealSessionCaches = []\<rparr>)"

definition getTLSSessionForHost :: "string \<Rightarrow> HttpChecker \<Rightarrow> HttpChecker" where
  "getTLSSessionForHost key h =
     (case map_of (hk_perRealSessionCaches h) key of
        Some _ \<Rightarrow> h
      | None \<Rightarrow> h\<lparr>hk_perRealSessionCaches := AList.update key 0 (hk_perRealSessionCaches h)\<rparr>)"

text \<open>The request that \<open>Check\<close> makes of a parsed base URL.\<close>

definition httpRequest ::
  "('s, 'u) http_lib \<Rightarrow> HttpChecker \<Rightarrow> string \<Rightarrow> int \<Rightarrow> 'u \<Rightarrow> 'u http_request" where
  "httpRequest H h key deadline baseURL =
     (let p = http_params (hk_params h);
          customHost = (case map_of (hk_headers h) ''Host'' of None \<Rightarrow> [] | Some v \<Rightarrow> v);
          (requestURL, proxy) = (if http_ProxyCheckUrl p = [] then (hl_String H (hl_SetPath H (http_Uri p) baseURL), None)
                                 else (http_ProxyCheckUrl p, Some baseURL))
      in \<lparr>rq_url = requestURL, rq_proxy = proxy, rq_headers = hk_headers h, rq_host = customHost,
          rq_followRedirects = http_FollowRedirects p, rq_tls = hk_isSecure h, rq_sessions = key, rq_deadline = deadline\<rparr>)"

definition HttpChecker_Check :: "('s, 'u) http_lib \<Rightarrow> string \<Rightarrow> int \<Rightarrow> (HttpChecker \<times> 's, unit) act" where
  "HttpChecker_Check H host port = (\<lambda>(h, s).
     let p = http_params (hk_params h); key = host @ ''-'' @ Itoa port; h = getTLSSessionForHost key h in
     bind_a (lift_r (hl_Parse H (hk_scheme h @ JoinHostPort host (Itoa port)))) (\<lambda>baseURL.
       let req = httpRequest H h key (hl_Now H s + timeout_ns (http_CheckTimeoutMs p)) baseURL in
       bind_a (lift_r (hl_NewRequest H (rq_url req))) (\<lambda>_.
       bind_a (on_snd (hl_Do H req)) (\<lambda>status.
         if list_ex (\<lambda>code. status = uint code) (http_Codes p) then ret_a ()
         else lift_r (fail ''http health check fails: unexpected status code'')))) (h, s))"

subsection \<open>What a positive verdict says\<close>

lemma connected_ok:
  "fst (connected E dial timeout network address body s) = Inr x \<longleftrightarrow>
     (\<exists>c s'. dial (Some (ne_Now E s + timeout)) network address s = (Inr c, s') \<and> fst (body c s') = Inr x)"
  by (auto simp: connected_def split: prod.splits sum.splits)

lemma fst_bind_a: "fst (bind_a f g s) = Inr b \<longleftrightarrow> (\<exists>a s'. f s = (Inr a, s') \<and> fst (g a s') = Inr b)"
  by (auto simp: bind_a_def split: prod.splits sum.splits)

text \<open>
  A TCP check is positive exactly when the connection is made. A DNS check is positive exactly when the
  question is sent and the answer read carries the number of the question and the response code of the
  configuration. A syslog check is positive exactly when the probe is written, whatever the daemon does
  with it. An HTTP check is positive exactly when the exchange succeeds with one of the status codes of
  the configuration: with no codes no host is ever healthy.
\<close>

lemma tcp_verdict:
  "fst (TcpChecker_Check E dialContext params host port s) = Inr () \<longleftrightarrow>
     is_ok (fst (dial_or_default E dialContext (Some (ne_Now E s + timeout_ns (case params of None \<Rightarrow> 0 | Some t \<Rightarrow> t))) ''tcp'' (JoinHostPort host (Itoa port)) s))"
  by (auto simp: TcpChecker_Check_def connected_ok is_ok_iff prod_eq_iff)

lemma dns_verdict:
  "fst (DnsChecker_Check E dialContext (Some d) host port s) = Inr () \<longleftrightarrow>
     (\<exists>c s0 i s2 s3 s4. dial_or_default E dialContext (Some (ne_Now E s + timeout_ns (dns_CheckTimeoutMs d)))
          (ProtocolString (dns_Protocol d)) (JoinHostPort host (Itoa port)) s = (Inr c, s0) \<and>
        ne_MsgId E (snd (ne_SetDeadline E c (ne_Now E s0 + timeout_ns (dns_CheckTimeoutMs d)) s0)) = (Inr i, s2) \<and>
        ne_WriteMsg E c i (dns_QueryString d) (queryTypeOf (dns_QueryType d)) s2 = (Inr (), s3) \<and>
        ne_ReadMsg E c s3 = (Inr (i, uint (dns_Rcode d)), s4))"
proof -
  have b: "fst ((case x of (msgRecv, rcode) \<Rightarrow> if msgRecv \<noteq> i then lift_r (fail a) else if rcode \<noteq> n then lift_r (fail b) else ret_a ()) s') = Inr ()
      \<longleftrightarrow> x = (i, n)" for x i n a b s'
    by (cases x) auto
  show ?thesis
    unfolding DnsChecker_Check_def option.case Let_def connected_ok fst_bind_a b by auto
qed

lemma syslog_verdict:
  "fst (SyslogChecker_Check fmt E sc host port s) = Inr () \<longleftrightarrow>
     (\<exists>c s0. syslogDial E (syslog_params sc) (Some (ne_Now E s + timeout_ns (syslog_CheckTimeoutMs (syslog_params sc))))
          (ProtocolString (syslog_Protocol (syslog_params sc))) (JoinHostPort host (Itoa port)) s = (Inr c, s0) \<and>
        is_ok (fst (ne_Write E c (syslogFormat (fmt (ne_Now E s0)) sc (uint (syslog_LogLevel (syslog_params sc))) ''SyslogHealthChecker'' ''probe message.'') s0)))"
  by (simp add: SyslogChecker_Check_def Let_def connected_ok fst_bind_a is_ok_unit)

lemma getTLSSession_fields [simp]:
  "hk_params (getTLSSessionForHost k h) = hk_params h" "hk_scheme (getTLSSessionForHost k h) = hk_scheme h"
  "httpRequest H (getTLSSessionForHost k h) = httpRequest H h"
  by (auto simp: getTLSSessionForHost_def httpRequest_def fun_eq_iff split: option.splits)

lemma fst_codes:
  "fst ((if list_ex (\<lambda>code. status = uint code) codes then ret_a () else lift_r (fail msg)) s) = Inr () \<longleftrightarrow> (\<exists>code\<in>set codes. status = uint code)"
  by (auto simp: list_ex_iff)

lemma on_snd_eq: "on_snd f (x, s) = (r, s') \<longleftrightarrow> (\<exists>t. f s = (r, t) \<and> s' = (x, t))"
  by (auto simp: on_snd_def split: prod.splits)

lemma lift_r_eq: "lift_r r s = (r', s') \<longleftrightarrow> r = r' \<and> s = s'"
  by auto

lemma http_verdict:
  "fst (HttpChecker_Check H host port (h, s)) = Inr () \<longleftrightarrow>
     (\<exists>url code. hl_Parse H (hk_scheme h @ JoinHostPort host (Itoa port)) = Inr url \<and> code \<in> set (http_Codes (http_params (hk_params h))) \<and>
        (let req = httpRequest H h (host @ ''-'' @ Itoa port) (hl_Now H s + timeout_ns (http_CheckTimeoutMs (http_params (hk_params h)))) url in
         hl_NewRequest H (rq_url req) = Inr () \<and> fst (hl_Do H req s) = Inr (uint code)))"
  unfolding HttpChecker_Check_def Let_def prod.case getTLSSession_fields fst_bind_a fst_codes on_snd_eq lift_r_eq
  by (auto simp: prod_eq_iff)

subsection \<open>Connections are closed\<close>

datatype 'c conn_event = Opened 'c | Closed 'c

definition traced_dial :: "('s, 'c) DialContextFunc \<Rightarrow> ('s \<times> 'c conn_event list, 'c) DialContextFunc" where
  "traced_dial d ctx network address = (\<lambda>(s, l). case d ctx network address s of
       (Inr c, s') \<Rightarrow> (Inr c, (s', l @ [Opened c]))
     | (Inl e, s') \<Rightarrow> (Inl e, (s', l)))"

definition traced_env :: "('s, 'c) net_env \<Rightarrow> ('s \<times> 'c conn_event list, 'c) net_env" where
  "traced_env E = \<lparr>
     ne_Now = \<lambda>(s, l). ne_Now E s,
     ne_Dial = traced_dial (ne_Dial E),
     ne_Close = \<lambda>c (s, l). (case ne_Close E c s of (r, s') \<Rightarrow> (r, (s', l @ [Closed c]))),
     ne_SetDeadline = \<lambda>c t. on_fst (ne_SetDeadline E c t),
     ne_Write = \<lambda>c msg. on_fst (ne_Write E c msg),
     ne_MsgId = on_fst (ne_MsgId E),
     ne_WriteMsg = \<lambda>c i q t. on_fst (ne_WriteMsg E c i q t),
     ne_ReadMsg = \<lambda>c. on_fst (ne_ReadMsg E c)\<rparr>"

text \<open>Every connection is closed before the next one is opened.\<close>

fun balanced :: "'c conn_event list \<Rightarrow> bool" where
  "balanced [] = True"
| "balanced (Opened c # Closed d # l) = (c = d \<and> balanced l)"
| "balanced _ = False"

lemma balanced_append: "balanced l \<Longrightarrow> balanced m \<Longrightarrow> balanced (l @ m)"
  by (induction l rule: balanced.induct) auto

text \<open>A checker run on a list of hosts and ports.\<close>

definition check_all :: "(string \<Rightarrow> int \<Rightarrow> ('w, unit) act) \<Rightarrow> (string \<times> int) list \<Rightarrow> 'w \<Rightarrow> 'w" where
  "check_all check targets w = fold (\<lambda>(host, port) w. snd (check host port w)) targets w"

text \<open>The contract of the interface \<open>HealthChecker\<close>: one check leaves no connection behind.\<close>

locale conn_checker =
  fixes check :: "string \<Rightarrow> int \<Rightarrow> ('s \<times> 'c conn_event list, unit) act"
  assumes releases: "\<exists>m. snd (snd (check host port (s, l))) = l @ m \<and> balanced m"
begin

lemma all_released: "balanced (snd w) \<Longrightarrow> balanced (snd (check_all check targets w))"
  unfolding check_all_def
proof (induction targets arbitrary: w)
  case (Cons t targets)
  obtain host port s l where t: "t = (host, port)" "w = (s, l)" by (metis surj_pair)
  from releases [of host port s l] obtain m where "snd (snd (check host port (s, l))) = l @ m" "balanced m" by blast
  then have "balanced (snd (snd (check host port w)))" using Cons.prems by (simp add: t balanced_append)
  from Cons.IH [OF this] show ?case by (simp add: t)
qed simp

end

text \<open>Operations that open and close nothing.\<close>

definition silent :: "('s \<times> 'e, 'a) act \<Rightarrow> bool" where
  "silent f \<longleftrightarrow> (\<forall>w. snd (snd (f w)) = snd w)"

lemma silent_bind: "silent f \<Longrightarrow> (\<And>x. silent (g x)) \<Longrightarrow> silent (bind_a f g)"
  unfolding silent_def bind_a_def by (auto split: prod.splits sum.splits) (metis sndI)+

lemma silent_basic: "silent (ret_a a)" "silent (lift_r r)" "silent (on_fst f)" "silent (gets_a g)" "silent (\<lambda>w. (r, snd (on_fst f w)))"
  by (auto simp: silent_def on_fst_def split: prod.splits)

lemma connected_releases:
  assumes dial: "dial = traced_dial d" and body: "\<And>c. silent (body c)"
  shows "\<exists>m. snd (snd (connected (traced_env E) dial timeout network address body (s, l))) = l @ m \<and> balanced m"
proof (cases "d (Some (ne_Now E s + timeout)) network address s")
  case (Pair q s1)
  show ?thesis
  proof (cases q)
    case (Inr c)
    obtain r s2 l2 where b: "body c (s1, l @ [Opened c]) = (r, (s2, l2))" by (metis surj_pair)
    with body [of c] have "l2 = l @ [Opened c]" unfolding silent_def by (metis sndI)
    then show ?thesis using Pair Inr b
      by (auto simp: connected_def dial traced_dial_def traced_env_def split: prod.splits intro!: exI [of _ "[Opened c, Closed c]"])
  qed (use Pair in \<open>auto simp: connected_def dial traced_dial_def traced_env_def intro!: exI [of _ "[]"]\<close>)
qed

lemma dial_or_default_traced: "dial_or_default (traced_env E) (map_option traced_dial dc) = traced_dial (dial_or_default E dc)"
  by (cases dc) (simp_all add: dial_or_default_def traced_env_def)

lemma syslogDial_traced: "syslogDial (traced_env E) p = traced_dial (syslogDial E p)"
proof (intro ext)
  fix ctx n a w
  show "syslogDial (traced_env E) p ctx n a w = traced_dial (syslogDial E p) ctx n a w"
    by (cases w; cases "SplitHostPort a") (auto simp: syslogDial_def traced_env_def traced_dial_def bind_a_def split: prod.splits sum.splits)
qed

interpretation tcp_checker: conn_checker "TcpChecker_Check (traced_env E) (map_option traced_dial dc) params"
  for E :: "('s, 'c) net_env" and dc params
  by unfold_locales (unfold TcpChecker_Check_def dial_or_default_traced, rule connected_releases [OF refl], rule silent_basic)

interpretation dns_checker: conn_checker "DnsChecker_Check (traced_env E) (map_option traced_dial dc) params"
  for E :: "('s, 'c) net_env" and dc params
proof
  fix host port s l
  have split: "silent (case x of (a, b) \<Rightarrow> if P a then lift_r e1 else if Q b then lift_r e2 else ret_a u)" for x P Q e1 e2 u
    by (cases x) (simp add: silent_basic)
  have E: "ne_SetDeadline (traced_env E) c t = on_fst (ne_SetDeadline E c t)" "ne_MsgId (traced_env E) = on_fst (ne_MsgId E)"
    "ne_WriteMsg (traced_env E) c i q n = on_fst (ne_WriteMsg E c i q n)" "ne_ReadMsg (traced_env E) c = on_fst (ne_ReadMsg E c)" for c t i q n
    by (simp_all add: traced_env_def)
  have deadline: "silent (\<lambda>w. (r, snd (on_fst (f w) w)))" for r and f :: "'s \<times> 'c conn_event list \<Rightarrow> ('s, unit) act"
    by (auto simp: silent_def on_fst_def split: prod.splits)
  show "\<exists>m. snd (snd (DnsChecker_Check (traced_env E) (map_option traced_dial dc) params host port (s, l))) = l @ m \<and> balanced m"
    unfolding DnsChecker_Check_def Let_def dial_or_default_traced E
    by (intro connected_releases [OF refl] silent_bind split deadline silent_basic)
qed

interpretation syslog_checker: conn_checker "SyslogChecker_Check fmt (traced_env E) h"
  for E :: "('s, 'c) net_env" and fmt h
proof
  fix host port s l
  have "ne_Write (traced_env E) c m = on_fst (ne_Write E c m)" for c m by (simp add: traced_env_def)
  then show "\<exists>m. snd (snd (SyslogChecker_Check fmt (traced_env E) h host port (s, l))) = l @ m \<and> balanced m"
    unfolding SyslogChecker_Check_def Let_def syslogDial_traced
    by (intro connected_releases [OF refl] silent_bind) (simp_all add: silent_basic)
qed

text \<open>
  C27: No check leaks a connection: over every list of hosts, whatever the network does, with any dial
  function, the TCP, DNS and syslog checkers close every connection they open, once, before they open
  the next one.
\<close>

theorem checks_close:
  "balanced (snd (check_all (TcpChecker_Check (traced_env E) (map_option traced_dial dc) tcp) targets (s, []))) \<and>
   balanced (snd (check_all (DnsChecker_Check (traced_env E) (map_option traced_dial dc) dns) targets (s, []))) \<and>
   balanced (snd (check_all (SyslogChecker_Check fmt (traced_env E) h) targets (s, [])))"
  by (intro conjI tcp_checker.all_released dns_checker.all_released syslog_checker.all_released) simp_all

subsection \<open>Checks through a mark\<close>

text \<open>The network of a checker whose connections are marked sockets.\<close>

definition uses_sockets :: "('s, 'c) sys \<Rightarrow> ('s \<times> sock_event list, 'c connWrap) net_env \<Rightarrow> bool" where
  "uses_sockets S E \<longleftrightarrow> (\<forall>c. ne_Close E c = connWrap_Close (traced_sys S) c)"

lemma connWrap_Close_events:
  "\<exists>m. snd (snd (connWrap_Close (traced_sys S) c (s, l))) = l @ m \<and> (\<forall>e\<in>set m. \<not> connects e)"
  by (auto simp: connWrap_Close_def traced_sys_def recorded_def event_def split: prod.splits)

lemma before_connect_append: "e \<in> set l \<Longrightarrow> connects e \<Longrightarrow> before_connect (l @ m) = before_connect l"
  unfolding before_connect_def by (rule takeWhile_append1) auto

lemma fwmarkDial_mark:
  assumes "set host \<inter> {CHR ''['', CHR '']''} = {}" "0 \<le> port" "port < 2 ^ 63"
  shows "fwmarkDial f m d ctx network (JoinHostPort host (Itoa port)) =
    (case GetAllocatedFwmark m host of
       Inl e \<Rightarrow> lift_r (Inl (wrap_err ''fails to get allocated fwmark'' e))
     | Inr w \<Rightarrow> wrap_a ''fails to connect using fwmark'' (f ctx network (fd_localIp d) (JoinHostPort (fd_vip d) (Itoa (int (fd_vport d)))) w))"
  using Atoi_Itoa [OF assms(2,3)] split_join [OF assms(1) Atoi_Itoa(2) [OF assms(2,3)]]
  by (auto simp: fwmarkDial_def fun_eq_iff split: sum.splits)

text \<open>
  C25: A check of a balancer with marks goes where its mark goes: whatever system calls fail, a TCP
  check of a host only ever connects to the resolved address of the VIP and its port, over a socket
  that was marked, before, with the mark allocated for that host, and bound to the source address of
  the factory. Without a mark the host is not checked: the verdict is negative and no socket is opened.
\<close>

theorem fwmark_check:
  assumes "uses_sockets S E" and "set host \<inter> {CHR ''['', CHR '']''} = {}" "0 \<le> port" "port < 2 ^ 63"
    and run: "TcpChecker_Check E (Some (fwmarkDial (NewTcpConnection (traced_sys S)) m d)) params host port (s, []) = (r, (s', l))"
  shows "(\<forall>e. e \<in> set l \<and> connects e \<longrightarrow> (\<exists>w fd ip vport. GetAllocatedFwmark m host = Inr w \<and>
      fst (sy_ResolveTCPAddr S ''tcp'' (JoinHostPort (fd_vip d) (Itoa (int (fd_vport d)))) s) = Inr (ip, vport) \<and>
      call_of e = Call_Connect fd (toSockaddr ip vport) \<and>
      (w \<noteq> 0 \<longrightarrow> Did (Call_SetsockoptInt fd SO_MARK (uint w)) \<in> set (before_connect l)) \<and>
      (fd_localIp d \<noteq> [] \<and> \<not> IsUnspecified (fd_localIp d) \<and> w \<noteq> 0 \<longrightarrow>
         Did (Call_Bind fd (toSockaddr (fd_localIp d) (50000 + uint w))) \<in> set (before_connect l)))) \<and>
    (\<not> is_ok (GetAllocatedFwmark m host) \<longrightarrow> \<not> is_ok r \<and> l = [])"
proof (cases "GetAllocatedFwmark m host")
  case (Inl x)
  then show ?thesis using run
    by (auto simp: TcpChecker_Check_def connected_def dial_or_default_def fwmarkDial_mark [OF assms(2-4)])
next
  case (Inr w)
  define ctx :: context_ where "ctx = Some (ne_Now E (s, []) + timeout_ns (case params of None \<Rightarrow> 0 | Some t \<Rightarrow> t))"
  obtain q s1 l1 where conn: "NewTcpConnection (traced_sys S) ctx ''tcp'' (fd_localIp d) (JoinHostPort (fd_vip d) (Itoa (int (fd_vport d)))) w (s, []) = (q, (s1, l1))"
    by (metis surj_pair)
  have "\<exists>m. l = l1 @ m \<and> (\<forall>e\<in>set m. \<not> connects e)"
  proof (cases q)
    case (Inl x)
    with run conn Inr show ?thesis
      by (auto simp: TcpChecker_Check_def connected_def dial_or_default_def fwmarkDial_mark [OF assms(2-4)] ctx_def)
  next
    case c: (Inr c)
    with run conn Inr assms(1) have "(s', l) = snd (connWrap_Close (traced_sys S) c (s1, l1))"
      by (auto simp: TcpChecker_Check_def connected_def dial_or_default_def fwmarkDial_mark [OF assms(2-4)] ctx_def uses_sockets_def)
    with connWrap_Close_events [of S c s1 l1] show ?thesis by (metis snd_conv)
  qed
  then obtain m' where m': "l = l1 @ m'" "\<forall>e\<in>set m'. \<not> connects e" by blast
  have "\<exists>fd ip vport. fst (sy_ResolveTCPAddr S ''tcp'' (JoinHostPort (fd_vip d) (Itoa (int (fd_vport d)))) s) = Inr (ip, vport) \<and>
      call_of e = Call_Connect fd (toSockaddr ip vport) \<and>
      (w \<noteq> 0 \<longrightarrow> Did (Call_SetsockoptInt fd SO_MARK (uint w)) \<in> set (before_connect l)) \<and>
      (fd_localIp d \<noteq> [] \<and> \<not> IsUnspecified (fd_localIp d) \<and> w \<noteq> 0 \<longrightarrow>
         Did (Call_Bind fd (toSockaddr (fd_localIp d) (50000 + uint w))) \<in> set (before_connect l))" if "e \<in> set l" "connects e" for e
  proof -
    have e: "e \<in> set l1" using that m' by auto
    show ?thesis
      using marked_conn [OF conn e that(2)] before_connect_append [OF e that(2), of m'] unfolding m'(1) by auto
  qed
  then show ?thesis using Inr by auto
qed

text \<open>A host with mark 7 behind a VIP.\<close>

definition sample_env :: "(unit \<times> sock_event list, unit connWrap) net_env" where
  "sample_env = \<lparr>ne_Now = \<lambda>_. 0, ne_Dial = \<lambda>_ _ _. lift_r (fail []), ne_Close = connWrap_Close (traced_sys sample_sys), ne_SetDeadline = \<lambda>_ _. ret_a (),
     ne_Write = \<lambda>_ _. ret_a (), ne_MsgId = ret_a 0, ne_WriteMsg = \<lambda>_ _ _ _. ret_a (), ne_ReadMsg = \<lambda>_. ret_a (0, 0)\<rparr>"

definition sample_marks :: Manager where
  "sample_marks = snd (AllocateFwmark ''a'' (NewManager 3 7))"

definition sample_dial :: FwmarkDial where
  "sample_dial = \<lparr>fd_vip = ''10.0.0.1'', fd_vport = 80, fd_localIp = []\<rparr>"

definition sample_events :: "sock_event list" where
  "sample_events = map Did ([Call_Socket SOCK_AF_INET 3, Call_SetsockoptInt 3 SO_MARK 7] @ timeout_plan 3 5000000000 @
     [Call_Connect 3 (SockaddrInet4 80 [10, 0, 0, 1]), Call_FileConn 3, Call_ConnClose, Call_FileClose 3])"

lemma sample_marks_get: "GetAllocatedFwmark sample_marks ''a'' = Inr 7"
  by (simp add: sample_marks_def NewManager_def poolLoop.simps [of 7] fm_ops)

lemma sample_check:
  "TcpChecker_Check sample_env (Some (fwmarkDial (NewTcpConnection (traced_sys sample_sys)) sample_marks sample_dial)) None ''a'' 80 ((), []) =
     (Inr (), ((), sample_events))"
proof -
  have "NewTcpConnection (traced_sys sample_sys) (Some 5000000000) ''tcp'' [] addr 7 ((), []) =
     (Inr \<lparr>cw_Conn = (), cw_file = 3\<rparr>, ((), map Did ([Call_Socket SOCK_AF_INET 3, Call_SetsockoptInt 3 SO_MARK 7] @ timeout_plan 3 5000000000 @
        [Call_Connect 3 (SockaddrInet4 80 [10, 0, 0, 1]), Call_FileConn 3])))" for addr
    by (simp add: NewTcpConnection_def newTcpConnection_def tcpConn_def bindLocal_def markSocket_def applyTimeouts_def toSockaddr_def
        sample_sys_def To4_def not_unspecified recorded_def event_def timeout_plan_def Let_def)
  then show ?thesis
    by (simp add: TcpChecker_Check_def connected_def dial_or_default_def fwmarkDial_mark sample_marks_get sample_dial_def timeout_ns_def
        timeoutMsToDuration_def sample_env_def connWrap_Close_def sample_sys_def traced_sys_def recorded_def event_def sample_events_def)
qed

theorem fwmark_check_witness:
  "Did (Call_SetsockoptInt 3 SO_MARK 7) \<in> set (before_connect sample_events)"
proof -
  have "uses_sockets sample_sys sample_env" by (simp add: uses_sockets_def sample_env_def)
  moreover have "Did (Call_Connect 3 (SockaddrInet4 80 [10, 0, 0, 1])) \<in> set sample_events" by (simp add: sample_events_def)
  ultimately show ?thesis
    using fwmark_check [OF _ _ _ _ sample_check, THEN conjunct1, rule_format, of "Did (Call_Connect 3 (SockaddrInet4 80 [10, 0, 0, 1]))"]
    by (auto simp: sample_marks_get)
qed

end
