(* ===== verification/Kglbd.thy ===== *)
theory Kglbd
  imports Push Ipvs_Mqliang Netlink Dns_Resolver Config_Loader Health_Checks Dp_Stats
begin

section \<open>kglbd: service.go\<close>

text \<open>
  The daemon: how the data plane modules, the manager, the configuration, the marks, the resolver and
  the servicer are put together (\<open>initModules\<close>), and the operations of the service. The world holds
  the state of the two modules that live in memory; its extension \<open>'e\<close> is everything behind the
  library of ipvs and netlink, which are parameters, as are the file and the protobuf parser.
\<close>

subsection \<open>The modules\<close>

record kglbd_world =
  kw_bgp :: "BgpRouteAttributes option list"
  kw_resolver :: CacheResolver

record ('e, 'l) kglbd_env =
  ke_IPVSHandle :: "'e kglbd_world_scheme IPVSHandle result"
  ke_libipvs :: libipvs
  ke_flags :: "(IpvsService_Flag \<times> u32) range_order"
  ke_netlink :: "('l, 'e kglbd_world_scheme) netlinkFunc"
  ke_ip_text :: "IP option \<Rightarrow> string"
  ke_now :: nat
  ke_ReadFile :: "string \<Rightarrow> string result"
  ke_Unmarshal :: "string \<Rightarrow> ControlPlaneConfig result"
  ke_proto_Equal :: "ControlPlaneConfig \<Rightarrow> ControlPlaneConfig \<Rightarrow> bool"
  ke_Hostname :: "string result"
  ke_LookupIPAddr :: "string \<Rightarrow> ('e kglbd_world_scheme, IPAddr list) act"

definition defaultMaxFwmark :: u32 where
  "defaultMaxFwmark = 5000"

definition defaultFwmarkBase :: u32 where
  "defaultFwmarkBase = 10000"

record ('e, 'l) Service =
  sv_modules :: "'e kglbd_world_scheme ManagerModules"
  sv_dataPlaneMng :: "'l DpManager"
  sv_ConfigLoader :: OneTimeFileLoader
  sv_CheckerFactory :: "BalancerConfig \<Rightarrow> HealthCheckerAttributes result"
  sv_ResolveHost :: "string \<Rightarrow> AddressFamily \<Rightarrow> ('e kglbd_world_scheme, IP) act"
  sv_controlPlaneMng :: ControlPlaneServicer

text \<open>The checker factory of kglbd has no source addresses.\<close>

definition initModules :: "('e, 'n) kglbd_env \<Rightarrow> string \<Rightarrow> ('e kglbd_world_scheme, ('e, 'l) Service) act" where
  "initModules K configPath =
     bind_a (modify_a (\<lambda>w. w\<lparr>kw_bgp := [], kw_resolver := NewCacheResolver\<rparr>)) (\<lambda>_.
     let bgp = zoom_bgp kw_bgp (\<lambda>x. kw_bgp_update (\<lambda>_. x)) (NoOpBgpModule (ke_ip_text K));
         resolver = cache_resolver kw_resolver (\<lambda>x. kw_resolver_update (\<lambda>_. x)) in
     bind_a (lift_r (NewIpvsMqLiang (ke_IPVSHandle K) resolver)) (\<lambda>ipvs.
     let dpModules = \<lparr>mm_Bgp = bgp, mm_AddressTable = newNetLinkAddress (ke_netlink K), mm_Ipvs = ipvs_module (ke_libipvs K) (ke_flags K) ipvs,
           mm_Resolver = resolver, mm_ShutdownHandler = None\<rparr>;
         dataPlaneMng = NewDpManager (ke_now K) in
     bind_a (lift_r (MakeConfigLoader (ke_ReadFile K) (ke_Unmarshal K) (ke_proto_Equal K) configPath)) (\<lambda>loader.
       ret_a \<lparr>sv_modules = dpModules, sv_dataPlaneMng = dataPlaneMng, sv_ConfigLoader = loader,
         sv_CheckerFactory = Checker (ke_Hostname K) [] [],
         sv_ResolveHost = SystemResolver_ResolveHost (ke_LookupIPAddr K),
         sv_controlPlaneMng = newControlPlaneServicer (NewManager defaultMaxFwmark defaultFwmarkBase) False\<rparr>)))"

subsection \<open>The operations\<close>

definition Service_Set ::
  "('e, 'l) Service \<Rightarrow> ('k, 'l) dp_env \<Rightarrow> DataPlaneState \<Rightarrow> ('l DpManager \<times> 'e kglbd_world_scheme, unit) act" where
  "Service_Set s e state = SetState (sv_modules s) e state"

definition Service_Shutdown :: "('e, 'l) Service \<Rightarrow> ('k, 'l) dp_env \<Rightarrow> ('l DpManager \<times> 'e kglbd_world_scheme, unit) act" where
  "Service_Shutdown s e = Shutdown (sv_modules s) e"

text \<open>\<open>statsLoop\<close>: \<open>None\<close> when the loop has ended; an error is only logged.\<close>

datatype stats_event = CtxDone | StatsTick rat

definition statsLoop_event ::
  "('d, 'h, 'e kglbd_world_scheme) prometheus \<Rightarrow> 'd metricDefs \<Rightarrow> ('e, 'l) Service \<Rightarrow> (IpvsService \<Rightarrow> 't) \<Rightarrow> ('d, 'h) Gauge \<Rightarrow> stats_event
    \<Rightarrow> ('t, 'h) StatsManager \<times> 'e kglbd_world_scheme \<Rightarrow> (('t, 'h) StatsManager \<times> 'e kglbd_world_scheme) option" where
  "statsLoop_event P D s svc_text gauge ev x =
     (case ev of CtxDone \<Rightarrow> None | StatsTick diffSec \<Rightarrow> Some (snd (EmitStats P D (sv_modules s) svc_text gauge diffSec x)))"

subsection \<open>What a started service is made of\<close>

lemma initModules_ok:
  assumes "initModules K configPath w = (Inr svc, w')"
  obtains config where "sv_controlPlaneMng svc = newControlPlaneServicer (NewManager defaultMaxFwmark defaultFwmarkBase) False"
    "sv_CheckerFactory svc = Checker (ke_Hostname K) [] []" "ValidateControlPlaneConfig config = Inr ()"
    "fst (Loader_recv (sv_ConfigLoader svc)) = Got (AnyControlPlane config)"
    "w' = w\<lparr>kw_bgp := [], kw_resolver := NewCacheResolver\<rparr>"
  using assms
  by (auto simp: initModules_def Let_def bind_a_ok MakeConfigLoader_def NewOneTimeFileLoader_def Loader_recv_def control_plane_provider_def)

subsection \<open>The marks of kglbd\<close>

lemma kglbd_pool: "all_marks (NewManager defaultMaxFwmark defaultFwmarkBase) = map (\<lambda>k. of_nat (10000 + k)) [0..<5000]"
  using poolLoop_nat [of 15000 10000 5000]
  by (simp add: all_marks_def NewManager_def defaultMaxFwmark_def defaultFwmarkBase_def)

text \<open>
  C28: The marks of kglbd can be probed: after any calls on its manager, a mark allocated for a host
  is not zero, and the local port that a marked connection binds, 50000 plus the mark, is a valid
  port, above the well-known ones, and different for different hosts.
\<close>

theorem kglbd_mark_ports:
  assumes "initModules K configPath w = (Inr svc, w')"
    and "m = fold fm_exec calls (cs_FwmarkManager (sv_controlPlaneMng svc))" and "GetAllocatedFwmark m a = Inr mark"
  shows "mark \<noteq> 0 \<and> 60000 \<le> basePort + uint mark \<and> basePort + uint mark < 65000 \<and>
    (\<forall>b mark'. GetAllocatedFwmark m b = Inr mark' \<longrightarrow> a \<noteq> b \<longrightarrow> basePort + uint mark \<noteq> basePort + uint mark')"
proof -
  from assms(1) have "cs_FwmarkManager (sv_controlPlaneMng svc) = NewManager defaultMaxFwmark defaultFwmarkBase"
    by (rule initModules_ok) (simp add: newControlPlaneServicer_def)
  then have m: "fm_inv m" "all_marks m = map (\<lambda>k. of_nat (10000 + k)) [0..<5000]"
    using fm_history_inv [OF NewManager_inv(1), of calls defaultMaxFwmark defaultFwmarkBase] assms(2) kglbd_pool by simp_all
  from assms(3) obtain v where "map_of (fm_allocated m) a = Some v" "md_fwmark v = mark" by (auto simp: GetAllocatedFwmark_ok)
  then have "mark \<in> set (marks m)" unfolding marks_def by (force dest: map_of_SomeD)
  moreover have "set (marks m) \<subseteq> set (all_marks m)" using m(1) unfolding fm_inv_def by (metis set_append set_mset_mset Un_upper2)
  ultimately have "mark \<in> (\<lambda>k. of_nat (10000 + k)) ` {0..<5000}" unfolding m(2) set_map set_upt by blast
  then obtain k where "k \<in> {0..<5000}" "mark = of_nat (10000 + k)" by blast
  then have k: "k < 5000" "mark = of_nat (10000 + k)" by simp_all
  have "unat (of_nat (10000 + k) :: u32) = 10000 + k" by (subst unat_of_nat) (use k(1) in simp)
  then have "unat mark = 10000 + k" by (simp only: k(2))
  then have u: "uint mark = 10000 + int k" by (simp add: uint_nat)
  then have "mark \<noteq> 0" by auto
  moreover have "a = b" if "GetAllocatedFwmark m b = Inr mark'" "uint mark = uint mark'" for b mark'
    using GetAllocatedFwmark_inj [OF m(1) assms(3)] that by (metis word_uint_eqI)
  ultimately show ?thesis using u k(1) by (auto simp: basePort_def)
qed

text \<open>A kernel that accepts everything, and a file with a given configuration.\<close>

definition sample_kglbd :: "ControlPlaneConfig \<Rightarrow> (unit, unit) kglbd_env" where
  "sample_kglbd config = \<lparr>
     ke_IPVSHandle = Inr \<lparr>ih_NewService = \<lambda>_. ret_a (), ih_DelService = \<lambda>_. ret_a (), ih_ListServices = ret_a [], ih_NewDestination = \<lambda>_ _. ret_a (),
       ih_DelDestination = \<lambda>_ _. ret_a (), ih_UpdateDestination = \<lambda>_ _. ret_a (), ih_ListDestinations = \<lambda>_. ret_a []\<rparr>,
     ke_libipvs = linux_ipvs, ke_flags = \<lambda>_ xs. xs,
     ke_netlink = \<lparr>nf_AddrAdd = \<lambda>_ _. ret_a (), nf_AddrDel = \<lambda>_ _. ret_a (), nf_AddrList = \<lambda>_ _. ret_a [], nf_ParseAddr = \<lambda>_. fail [], nf_LinkByName = \<lambda>_. ret_a ()\<rparr>,
     ke_ip_text = \<lambda>_. [], ke_now = 0, ke_ReadFile = \<lambda>_. Inr [], ke_Unmarshal = \<lambda>_. Inr config, ke_proto_Equal = \<lambda>_ _. False,
     ke_Hostname = Inr ''host'', ke_LookupIPAddr = \<lambda>_. ret_a []\<rparr>"

lemma sample_kglbd_starts:
  assumes "ValidateControlPlaneConfig config = Inr ()"
  shows "\<exists>svc w'. initModules (sample_kglbd config) path w = (Inr (svc :: (unit, unit) Service), w') \<and>
    fst (Loader_recv (sv_ConfigLoader svc)) = Got (AnyControlPlane config)"
  using assms
  by (simp add: initModules_def sample_kglbd_def Let_def bind_a_def NewIpvsMqLiang_def MakeConfigLoader_def NewOneTimeFileLoader_def
      control_plane_provider_def Loader_recv_def)

theorem kglbd_mark_ports_witness:
  "\<exists>svc w'. initModules (sample_kglbd \<lparr>cp_Balancers = []\<rparr>) ''kglb.json'' \<lparr>kw_bgp = [], kw_resolver = NewCacheResolver\<rparr> = (Inr (svc :: (unit, unit) Service), w') \<and>
     (let m = fold fm_exec [CallAllocate ''a''] (cs_FwmarkManager (sv_controlPlaneMng svc)) in
      \<exists>mark. GetAllocatedFwmark m ''a'' = Inr mark \<and> 60000 \<le> basePort + uint mark)"
proof -
  have "ValidateControlPlaneConfig \<lparr>cp_Balancers = []\<rparr> = Inr ()" by (simp add: ValidateControlPlaneConfig_ok config_ok_def)
  from sample_kglbd_starts [OF this] obtain svc :: "(unit, unit) Service" and w'
    where svc: "initModules (sample_kglbd \<lparr>cp_Balancers = []\<rparr>) ''kglb.json'' \<lparr>kw_bgp = [], kw_resolver = NewCacheResolver\<rparr> = (Inr svc, w')" by blast
  define m where "m = fold fm_exec [CallAllocate ''a''] (cs_FwmarkManager (sv_controlPlaneMng svc))"
  from svc have mgr: "cs_FwmarkManager (sv_controlPlaneMng svc) = NewManager 5000 10000"
    by (rule initModules_ok) (simp add: newControlPlaneServicer_def defaultMaxFwmark_def defaultFwmarkBase_def)
  have "GetAllocatedFwmark m ''a'' = Inr 10000"
    by (simp add: m_def mgr NewManager_def poolLoop.simps [of 10000] fm_ops)
  with kglbd_mark_ports [OF svc m_def this] svc show ?thesis unfolding m_def by auto
qed

subsection \<open>Balancers with marks\<close>

lemma no_source_address: "bc_EnableFwmarks conf \<Longrightarrow> \<not> is_ok (Checker Hostname [] [] conf)"
  by (auto simp: Checker_def fwMarkDialContext_def split: prod.splits)

lemma configBalancer_config: "cs_config (snd (configBalancer C c s)) = cs_config s"
  by (auto simp: configBalancer_def Let_def split: sum.splits option.splits prod.splits)

lemma configBalancer_new:
  assumes "configBalancer C conf s = (Inr (), s')" and "map_of (cs_balancers s) (cfg_key conf) = None"
  shows "is_ok (C conf)"
  using assms by (auto simp: configBalancer_def cfg_key_def newBalancer_def Let_def is_ok_iff split: sum.splits option.splits prod.splits)

lemma configBalancers_new:
  assumes "each_a (configBalancer C) confs s = (Inr (), s')" and "distinct (map cfg_key confs)"
    and "\<forall>c\<in>set confs. map_of (cs_balancers s) (cfg_key c) = None" and "b \<in> set confs"
  shows "is_ok (C b)"
  using assms
proof (induction confs arbitrary: s)
  case (Cons c confs)
  from Cons.prems(1) obtain s1 where s1: "configBalancer C c s = (Inr (), s1)" "each_a (configBalancer C) confs s1 = (Inr (), s')"
    by (auto simp: bind_a_ok)
  from configBalancer_ok [OF s1(1)] obtain x where "s1 = s\<lparr>cs_balancers := AList.update (cfg_key c) x (cs_balancers s)\<rparr>" .
  then have "\<forall>c'\<in>set confs. map_of (cs_balancers s1) (cfg_key c') = None"
    using Cons.prems(2,3) by (auto simp: image_iff)
  then show ?case
    using Cons configBalancer_new [OF s1(1)] s1(2) by auto
qed simp


definition sample_marked :: ControlPlaneConfig where
  "sample_marked = \<lparr>cp_Balancers = [sample_tcp\<lparr>bc_EnableFwmarks := True\<rparr>]\<rparr>"

lemma sample_marked_valid: "ValidateControlPlaneConfig sample_marked = Inr ()"
proof -
  have "ValidateBalancer (sample_tcp\<lparr>bc_EnableFwmarks := True\<rparr>) = Inr ()"
    by (simp add: sample_defs ValidateBalancer_def ValidateLbService_def ValidateIpvsService_def mk_lb_def
        ValidateUpstreamChecker_def ValidateUpstreamRouting_def ValidateUpstreamDiscovery_def ValidateDynamicRouting_def)
  then show ?thesis by (simp add: ValidateControlPlaneConfig_ok config_ok_def sample_marked_def)
qed


end
