(* ===== verification/Cp_Metrics.thy ===== *)
theory Cp_Metrics
  imports V2stats Messages
begin

section \<open>The metrics of the control plane\<close>

text \<open>
  The gauges that the balancer (\<open>updateBalancerStateGauge\<close>, \<open>updateUpstreamCountGauge\<close> of balancer.go) and
  the servicer (\<open>updateAvailabilityGauge\<close> of servicer.go) publish through gauge groups, and the counters
  of checks that the health manager keeps per host (health\_manager.go), over the prometheus client. An
  error is only reported. The locks of the health manager make its operations on counters atomic.
\<close>

subsection \<open>Gauges\<close>

text \<open>The value of an operation on a group that returns: the group, the world, and whether it failed.\<close>

type_synonym ('d, 'h, 's) group_op = "('d, 'h) GaugeGroup \<times> 's \<Rightarrow> (('d, 'h) GaugeGroup \<times> 's) option"

definition prepared ::
  "('d, 'h, 's) prometheus \<Rightarrow> (string \<times> string) range_order \<Rightarrow> f64 \<Rightarrow> KV \<Rightarrow> ('d, 'h, 's) group_op \<Rightarrow> ('d, 'h, 's) group_op" where
  "prepared P rkv value tags k = (\<lambda>gs.
     case PrepareToSet P rkv value tags gs of
       None \<Rightarrow> None
     | Some (Inl _, gs') \<Rightarrow> Some gs'
     | Some (Inr _, gs') \<Rightarrow> k gs')"

definition published ::
  "('d, 'h, 's) prometheus \<Rightarrow> (string \<times> ('d, 'h) gaugeAndValue) range_order \<Rightarrow> ('d, 'h, 's) group_op" where
  "published P r = (\<lambda>gs. map_option snd (SetAndReset P r gs))"

definition updateBalancerStateGauge ::
  "('d, 'h, 's) prometheus \<Rightarrow> (string \<times> string) range_order \<Rightarrow> (string \<times> ('d, 'h) gaugeAndValue) range_order
    \<Rightarrow> string \<Rightarrow> string \<Rightarrow> f64 \<Rightarrow> string \<Rightarrow> ('d, 'h, 's) group_op" where
  "updateBalancerStateGauge P rkv r setup service value state =
     prepared P rkv value [(''setup'', setup), (''service'', service), (''state'', state)] (published P r)"

definition updateUpstreamCountGauge ::
  "('d, 'h, 's) prometheus \<Rightarrow> (string \<times> string) range_order \<Rightarrow> (string \<times> ('d, 'h) gaugeAndValue) range_order
    \<Rightarrow> string \<Rightarrow> string \<Rightarrow> UpstreamState list \<Rightarrow> ('d, 'h, 's) group_op" where
  "updateUpstreamCountGauge P rkv r setup service upstreams =
     (let total = length upstreams;
          alive = length (filter (\<lambda>u. us_Weight u \<noteq> 0) upstreams);
          tags = (\<lambda>a. [(''setup'', setup), (''service'', service), (''alive'', a)])
      in prepared P rkv (Some (of_nat alive)) (tags ''true'')
        (prepared P rkv (Some (of_nat (total - alive))) (tags ''false'') (published P r)))"

definition updateAvailabilityGauge ::
  "('d, 'h, 's) prometheus \<Rightarrow> (string \<times> string) range_order \<Rightarrow> (string \<times> ('d, 'h) gaugeAndValue) range_order
    \<Rightarrow> bool \<Rightarrow> int \<Rightarrow> ('d, 'h, 's) group_op" where
  "updateAvailabilityGauge P rkv r initialState value =
     prepared P rkv (Some (of_int value)) [(''initialized'', if initialState then ''false'' else ''true'')] (published P r)"

subsection \<open>Counters of checks\<close>

record 'h HealthCounters =
  hct_passCounters :: "(string, 'h) gomap"
  hct_failCounters :: "(string, 'h) gomap"

text \<open>\<open>None\<close> when the counter cannot be made, which is only reported.\<close>

definition getHealthCheckCounter ::
  "('d, 'h, 's) prometheus \<Rightarrow> 'd CounterDefinition \<Rightarrow> string \<Rightarrow> string \<Rightarrow> string \<Rightarrow> string \<Rightarrow> (string, 'h) gomap \<times> 's
    \<Rightarrow> 'h option \<times> (string, 'h) gomap \<times> 's" where
  "getHealthCheckCounter P healthCheckCounter setup service host result = (\<lambda>(srcMap, s).
     case map_of srcMap host of
       Some counter \<Rightarrow> (Some counter, srcMap, s)
     | None \<Rightarrow>
         (case CounterDefinition_V P healthCheckCounter
              [(''setup'', setup), (''service'', service), (''host'', host), (''result'', result)] s of
            (Inl _, s') \<Rightarrow> (None, srcMap, s')
          | (Inr newCounter, s') \<Rightarrow> (Some newCounter, AList.update host newCounter srcMap, s')))"

definition increaseCounter :: "('d, 'h, 's) prometheus \<Rightarrow> 'h option \<times> 'm \<times> 's \<Rightarrow> 'm \<times> 's" where
  "increaseCounter P = (\<lambda>(counter, m, s). case counter of None \<Rightarrow> (m, s) | Some c \<Rightarrow> (m, pr_Add P c 1 s))"

definition increasePassCounter ::
  "('d, 'h, 's) prometheus \<Rightarrow> 'd CounterDefinition \<Rightarrow> string \<Rightarrow> string \<Rightarrow> string \<Rightarrow> 'h HealthCounters \<times> 's \<Rightarrow> 'h HealthCounters \<times> 's" where
  "increasePassCounter P c setup service host = (\<lambda>(h, s).
     let (m, s') = increaseCounter P (getHealthCheckCounter P c setup service host ''pass'' (hct_passCounters h, s))
     in (h\<lparr>hct_passCounters := m\<rparr>, s'))"

definition increaseFailCounter ::
  "('d, 'h, 's) prometheus \<Rightarrow> 'd CounterDefinition \<Rightarrow> string \<Rightarrow> string \<Rightarrow> string \<Rightarrow> 'h HealthCounters \<times> 's \<Rightarrow> 'h HealthCounters \<times> 's" where
  "increaseFailCounter P c setup service host = (\<lambda>(h, s).
     let (m, s') = increaseCounter P (getHealthCheckCounter P c setup service host ''fail'' (hct_failCounters h, s))
     in (h\<lparr>hct_failCounters := m\<rparr>, s'))"

text \<open>Step 3 of a check: a host that discovery has disabled counts as neither.\<close>

definition countCheck ::
  "('d, 'h, 's) prometheus \<Rightarrow> 'd CounterDefinition \<Rightarrow> string \<Rightarrow> string \<Rightarrow> string \<times> bool \<times> bool \<Rightarrow> 'h HealthCounters \<times> 's \<Rightarrow> 'h HealthCounters \<times> 's" where
  "countCheck P c setup service = (\<lambda>(host, enabled, checkStatus) hs.
     if checkStatus then increasePassCounter P c setup service host hs
     else if enabled then increaseFailCounter P c setup service host hs
     else hs)"

subsection \<open>No gauge of a group is ever exported\<close>

text \<open>Asking for a metric exports at most this one.\<close>

definition get_exports :: "('d, 'h, 's) prometheus \<Rightarrow> ('s \<Rightarrow> 'd \<Rightarrow> KV \<Rightarrow> rat option) \<Rightarrow> bool" where
  "get_exports P exported \<longleftrightarrow>
     (\<forall>d l s. \<exists>h s'. pr_GetMetricWith P d l s = (Inr h, s') \<and> (\<forall>d' l'. (d', l') \<noteq> (d, l) \<longrightarrow> exported s' d' l' = exported s d' l'))"

text \<open>The gauges of the group belong to its vector, of which nothing else is exported.\<close>

definition members_of :: "'d \<Rightarrow> (string, ('d, 'h) gaugeAndValue) gomap \<Rightarrow> bool" where
  "members_of d m \<longleftrightarrow> wf_map m \<and> (\<forall>k gv. map_of m k = Some gv \<longrightarrow> ga_gauges (gv_gauge gv) = d)"

definition only_members :: "('s \<Rightarrow> 'd \<Rightarrow> KV \<Rightarrow> rat option) \<Rightarrow> 'd GaugeDefinition \<Rightarrow> ('d, 'h) GaugeGroup \<times> 's \<Rightarrow> bool" where
  "only_members exported D = (\<lambda>(g, s). \<not> gg_mu g \<and> gg_gaugeDef g = D \<and> members_of (gd_gauges D) (gg_gaugesAndValues g) \<and>
     (\<forall>l. exported s (gd_gauges D) l \<noteq> None \<longrightarrow> (\<exists>k gv. map_of (gg_gaugesAndValues g) k = Some gv \<and> ga_labels (gv_gauge gv) = l)))"

definition invisible :: "('s \<Rightarrow> 'd \<Rightarrow> KV \<Rightarrow> rat option) \<Rightarrow> 'd GaugeDefinition \<Rightarrow> ('d, 'h) GaugeGroup \<times> 's \<Rightarrow> bool" where
  "invisible exported D gs \<longleftrightarrow> only_members exported D gs \<and> (\<forall>l. exported (snd gs) (gd_gauges D) l = None)"

lemma members_of_update: "members_of d m \<Longrightarrow> ga_gauges (gv_gauge gv) = d \<Longrightarrow> members_of d (AList.update k gv m)"
  by (simp add: members_of_def)

lemma members_of_delete: "members_of d m \<Longrightarrow> members_of d (AList.delete k m)"
  by (simp add: members_of_def)

lemma resetGauge_members:
  "members_of d m \<Longrightarrow> \<forall>(k, gv)\<in>set xs. ga_gauges (gv_gauge gv) = d \<Longrightarrow> members_of d (fst (fold (resetGauge P) xs (m, s)))"
proof (induction xs arbitrary: m s)
  case (Cons x xs)
  then show ?case by (cases x) (auto simp: members_of_update members_of_delete)
qed simp

lemma prepared_members:
  assumes g: "get_exports P exported" and inv: "only_members exported D gs"
  shows "\<exists>gs'. prepared P rkv value tags k gs = k gs' \<and> only_members exported D gs'"
proof -
  obtain g s where gs: "gs = (g, s)" by fastforce
  note i = inv [unfolded gs only_members_def, simplified]
  let ?k = "KV_String rkv tags" and ?m = "gg_gaugesAndValues g"
  show ?thesis
  proof (cases "map_of ?m ?k")
    case (Some gv)
    let ?g = "g\<lparr>gg_gaugesAndValues := AList.update ?k \<lparr>gv_gauge = gv_gauge gv, gv_value = value\<rparr> ?m, gg_mu := False\<rparr>"
    have "prepared P rkv value tags k gs = k (?g, s)"
      using i Some by (simp add: prepared_def PrepareToSet_def locked_def gs Let_def)
    moreover have "\<exists>k' gv'. map_of (gg_gaugesAndValues ?g) k' = Some gv' \<and> ga_labels (gv_gauge gv') = l"
      if "exported s (gd_gauges D) l \<noteq> None" for l
    proof -
      from i that obtain k' gv' where "map_of ?m k' = Some gv'" "ga_labels (gv_gauge gv') = l" by blast
      then show ?thesis using Some by (cases "k' = ?k") (auto intro!: exI [of _ k'])
    qed
    then have "only_members exported D (?g, s)"
      using i Some by (auto simp: only_members_def members_of_def)
    ultimately show ?thesis by blast
  next
    case None
    let ?l = "tagLabels (gd_tagNames D) [tags]"
    from g obtain h s' where h: "pr_GetMetricWith P (gd_gauges D) ?l s = (Inr h, s')"
      "\<forall>d' l'. (d', l') \<noteq> (gd_gauges D, ?l) \<longrightarrow> exported s' d' l' = exported s d' l'" unfolding get_exports_def by blast
    let ?gv = "\<lparr>gv_gauge = \<lparr>ga_Gauge = h, ga_gauges = gd_gauges D, ga_labels = ?l\<rparr>, gv_value = value\<rparr>"
    let ?g = "g\<lparr>gg_gaugesAndValues := AList.update ?k ?gv ?m, gg_mu := False\<rparr>"
    have "prepared P rkv value tags k gs = k (?g, s')"
      using i None h(1) by (simp add: prepared_def PrepareToSet_def locked_def gs Let_def GaugeDefinition_V_def)
    moreover have "\<exists>k gv. map_of (AList.update ?k ?gv ?m) k = Some gv \<and> ga_labels (gv_gauge gv) = l"
      if "exported s' (gd_gauges D) l \<noteq> None" for l
    proof (cases "l = ?l")
      case False
      then have "exported s (gd_gauges D) l \<noteq> None" using that h(2) by simp
      with i obtain k gv where "map_of ?m k = Some gv" "ga_labels (gv_gauge gv) = l" by blast
      then show ?thesis using None by (intro exI [of _ k] exI [of _ gv]) auto
    qed (auto intro!: exI [of _ ?k])
    then have "only_members exported D (?g, s')"
      using i members_of_update [of "gd_gauges D" ?m ?gv ?k] by (simp add: only_members_def)
    ultimately show ?thesis by blast
  qed
qed

lemma published_invisible:
  assumes p: "prometheus_ok P exported" and r: "go_range r" and inv: "only_members exported D gs"
  shows "\<exists>gs'. published P r gs = Some gs' \<and> invisible exported D gs'"
proof -
  obtain g s where gs: "gs = (g, s)" by fastforce
  note i = inv [unfolded gs only_members_def, simplified]
  let ?m = "gg_gaugesAndValues g"
  define s1 where "s1 = fold (setGauge P) (r 0 ?m) s"
  obtain m s2 where m: "fold (resetGauge P) (r 1 ?m) (?m, s1) = (m, s2)" by fastforce
  have run: "SetAndReset P r (g, s) = Some (Inr (), g\<lparr>gg_gaugesAndValues := m, gg_mu := False\<rparr>, s2)"
    using i m by (simp add: SetAndReset_def locked_def s1_def [symmetric])
  have "exported s2 (gd_gauges D) l = None" for l
  proof (cases "exported s (gd_gauges D) l")
    case None
    then have "exported s1 (gd_gauges D) l = None" unfolding s1_def by (rule setGauge_fold_unexported [OF p])
    then show ?thesis using resetGauge_fold_unexported [OF p, of s1 _ l "r 1 ?m" ?m] m by simp
  next
    case Some
    with i obtain k gv where gv: "map_of ?m k = Some gv" "ga_labels (gv_gauge gv) = l" by blast
    with i have "ga_gauges (gv_gauge gv) = gd_gauges D" by (auto simp: members_of_def)
    then show ?thesis
      using set_and_reset_clears [OF p r, of g k gv s] i gv map_of_SomeD [OF gv(1)] run by auto
  qed
  moreover have "members_of (gd_gauges D) m"
  proof -
    have "\<forall>(k, gv)\<in>set (r 1 ?m). ga_gauges (gv_gauge gv) = gd_gauges D"
      using i r by (auto simp: members_of_def)
    then show ?thesis using resetGauge_members [of "gd_gauges D" ?m "r 1 ?m" P s1] i m by simp
  qed
  ultimately show ?thesis using i run by (auto simp: published_def gs invisible_def only_members_def)
qed

datatype gauge_update =
  BalancerStateUpdate string string f64 string
| UpstreamCountUpdate string string "UpstreamState list"
| AvailabilityUpdate bool int

fun run_update ::
  "('d, 'h, 's) prometheus \<Rightarrow> (string \<times> string) range_order \<Rightarrow> (string \<times> ('d, 'h) gaugeAndValue) range_order
    \<Rightarrow> gauge_update \<Rightarrow> ('d, 'h, 's) group_op" where
  "run_update P rkv r (BalancerStateUpdate setup service value state) = updateBalancerStateGauge P rkv r setup service value state"
| "run_update P rkv r (UpstreamCountUpdate setup service ups) = updateUpstreamCountGauge P rkv r setup service ups"
| "run_update P rkv r (AvailabilityUpdate initial value) = updateAvailabilityGauge P rkv r initial value"

fun run_updates ::
  "('d, 'h, 's) prometheus \<Rightarrow> (string \<times> string) range_order \<Rightarrow> (string \<times> ('d, 'h) gaugeAndValue) range_order
    \<Rightarrow> gauge_update list \<Rightarrow> ('d, 'h, 's) group_op" where
  "run_updates P rkv r [] gs = Some gs"
| "run_updates P rkv r (u # us) gs = Option.bind (run_update P rkv r u gs) (run_updates P rkv r us)"

lemma run_update_invisible:
  assumes "prometheus_ok P exported" "get_exports P exported" "go_range r" "invisible exported D gs"
  shows "\<exists>gs'. run_update P rkv r u gs = Some gs' \<and> invisible exported D gs'"
proof -
  have one: "\<exists>gs'. prepared P rkv v t (published P r) gs = Some gs' \<and> invisible exported D gs'" if "only_members exported D gs" for v t gs
    using prepared_members [OF assms(2) that] published_invisible [OF assms(1,3)] by metis
  have two: "\<exists>gs'. prepared P rkv v t (prepared P rkv v' t' (published P r)) gs = Some gs' \<and> invisible exported D gs'"
    if "only_members exported D gs" for v t v' t' gs
    using prepared_members [OF assms(2) that] one by metis
  have "only_members exported D gs" using assms(4) by (simp add: invisible_def)
  with one two show ?thesis
    by (cases u) (simp_all add: updateBalancerStateGauge_def updateUpstreamCountGauge_def updateAvailabilityGauge_def Let_def)
qed



subsection \<open>Checks are counted\<close>

definition check_labels :: "string \<Rightarrow> string \<Rightarrow> string \<Rightarrow> string \<Rightarrow> KV" where
  "check_labels setup service host result = [(''setup'', setup), (''service'', service), (''host'', host), (''result'', result)]"

definition counters_of ::
  "('d \<Rightarrow> KV \<Rightarrow> 'h) \<Rightarrow> 'd CounterDefinition \<Rightarrow> string \<Rightarrow> string \<Rightarrow> 'h HealthCounters \<Rightarrow> bool" where
  "counters_of handle c setup service h \<longleftrightarrow>
     (\<forall>host x. map_of (hct_passCounters h) host = Some x \<longrightarrow> x = handle (gd_gauges c) (check_labels setup service host ''pass'')) \<and>
     (\<forall>host x. map_of (hct_failCounters h) host = Some x \<longrightarrow> x = handle (gd_gauges c) (check_labels setup service host ''fail''))"

lemma increase_val:
  assumes "counters_ok P val handle" and "gd_tagNames c = [''setup'', ''service'', ''host'', ''result'']"
    and m: "\<forall>host x. map_of m host = Some x \<longrightarrow> x = handle (gd_gauges c) (check_labels setup service host result)"
  shows "\<exists>m' s'. increaseCounter P (getHealthCheckCounter P c setup service host result (m, s)) = (m', s') \<and>
    (\<forall>host x. map_of m' host = Some x \<longrightarrow> x = handle (gd_gauges c) (check_labels setup service host result)) \<and>
    val s' = (val s)(handle (gd_gauges c) (check_labels setup service host result) :=
      val s (handle (gd_gauges c) (check_labels setup service host result)) + 1)"
proof (cases "map_of m host")
  case None
  have "tagLabels (gd_tagNames c) [[(''setup'', setup), (''service'', service), (''host'', host), (''result'', result)]] = check_labels setup service host result"
    by (simp add: assms(2) tagLabels_def check_labels_def)
  moreover obtain s' where "pr_GetMetricWith P (gd_gauges c) (check_labels setup service host result) s =
      (Inr (handle (gd_gauges c) (check_labels setup service host result)), s')" "val s' = val s"
    using assms(1) unfolding counters_ok_def by blast
  ultimately show ?thesis
    using None m assms(1) by (simp add: increaseCounter_def getHealthCheckCounter_def CounterDefinition_V_def counters_ok_def)
next
  case (Some x)
  with m have "x = handle (gd_gauges c) (check_labels setup service host result)" by blast
  then show ?thesis using Some m assms(1) by (simp add: increaseCounter_def getHealthCheckCounter_def counters_ok_def)
qed

definition counted_as :: "string \<Rightarrow> string \<Rightarrow> string \<times> bool \<times> bool \<Rightarrow> bool" where
  "counted_as host result = (\<lambda>(h, enabled, status). h = host \<and> (if status then result = ''pass'' else enabled \<and> result = ''fail''))"

lemma countCheck_val:
  assumes c: "counters_ok P val handle" "gd_tagNames c = [''setup'', ''service'', ''host'', ''result'']" and h: "counters_of handle c setup service h"
  shows "\<exists>h' s'. countCheck P c setup service x (h, s) = (h', s') \<and> counters_of handle c setup service h' \<and>
    (\<forall>host result. val s' (handle (gd_gauges c) (check_labels setup service host result)) =
       val s (handle (gd_gauges c) (check_labels setup service host result)) + (if counted_as host result x then 1 else 0))"
proof -
  obtain host enabled status where x: "x = (host, enabled, status)" by (metis surj_pair)
  have inj: "handle d (check_labels setup service a b) = handle d (check_labels setup service a' b') \<longleftrightarrow> a = a' \<and> b = b'" for d a b a' b'
    using c(1) unfolding counters_ok_def check_labels_def by blast
  from increase_val [OF c, of "hct_passCounters h" "setup" service "''pass''" host s] h obtain mp sp where
    p: "increaseCounter P (getHealthCheckCounter P c setup service host ''pass'' (hct_passCounters h, s)) = (mp, sp)"
    "\<forall>host x. map_of mp host = Some x \<longrightarrow> x = handle (gd_gauges c) (check_labels setup service host ''pass'')"
    "val sp = (val s)(handle (gd_gauges c) (check_labels setup service host ''pass'') := val s (handle (gd_gauges c) (check_labels setup service host ''pass'')) + 1)"
    unfolding counters_of_def by blast
  from increase_val [OF c, of "hct_failCounters h" "setup" service "''fail''" host s] h obtain mf sf where
    f: "increaseCounter P (getHealthCheckCounter P c setup service host ''fail'' (hct_failCounters h, s)) = (mf, sf)"
    "\<forall>host x. map_of mf host = Some x \<longrightarrow> x = handle (gd_gauges c) (check_labels setup service host ''fail'')"
    "val sf = (val s)(handle (gd_gauges c) (check_labels setup service host ''fail'') := val s (handle (gd_gauges c) (check_labels setup service host ''fail'')) + 1)"
    unfolding counters_of_def by blast
  show ?thesis
    using h p f by (auto simp: x countCheck_def counted_as_def increasePassCounter_def increaseFailCounter_def counters_of_def inj)
qed

text \<open>
  C32: The counters of checks count: over any sequence of checks, the pass counter of a host grows by
  the number of its positive checks and its fail counter by the number of its negative ones, not
  counting those of a host that discovery has disabled; every host has its own two counters.
\<close>

theorem checks_counted:
  assumes "counters_ok P val handle" and "gd_tagNames c = [''setup'', ''service'', ''host'', ''result'']"
    and "fold (countCheck P c setup service) checks (\<lparr>hct_passCounters = [], hct_failCounters = []\<rparr>, s) = (h', s')"
  shows "val s' (handle (gd_gauges c) (check_labels setup service host result)) =
    val s (handle (gd_gauges c) (check_labels setup service host result)) + of_nat (length (filter (counted_as host result) checks))"
proof -
  have "val s' (handle (gd_gauges c) (check_labels setup service host result)) =
      val s (handle (gd_gauges c) (check_labels setup service host result)) + of_nat (length (filter (counted_as host result) checks))"
    if "fold (countCheck P c setup service) checks (h, s) = (h', s')" "counters_of handle c setup service h" for h s
    using that
  proof (induction checks arbitrary: h s)
    case (Cons x checks)
    from countCheck_val [OF assms(1,2) Cons.prems(2), of x s] obtain h1 s1 where
      1: "countCheck P c setup service x (h, s) = (h1, s1)" "counters_of handle c setup service h1"
      "val s1 (handle (gd_gauges c) (check_labels setup service host result)) =
         val s (handle (gd_gauges c) (check_labels setup service host result)) + (if counted_as host result x then 1 else 0)" by blast
    then show ?case using Cons.IH [OF _ 1(2)] Cons.prems(1) by simp
  qed simp
  moreover have "counters_of handle c setup service \<lparr>hct_passCounters = [], hct_failCounters = []\<rparr>" by (simp add: counters_of_def)
  ultimately show ?thesis using assms(3) by blast
qed

theorem checks_counted_witness:
  "\<exists>h' s'. fold (countCheck ledger \<lparr>gd_tagNames = [''setup'', ''service'', ''host'', ''result''], gd_gauges = ''checks''\<rparr> ''setup'' ''web'')
      [(''a'', True, True), (''a'', True, False), (''b'', True, True), (''a'', False, False)] (\<lparr>hct_passCounters = [], hct_failCounters = []\<rparr>, \<lambda>_. 0) = (h', s') \<and>
    s' (''checks'', check_labels ''setup'' ''web'' ''a'' ''fail'') = 1"
proof -
  let ?c = "\<lparr>gd_tagNames = [''setup'', ''service'', ''host'', ''result''], gd_gauges = ''checks''\<rparr> :: string CounterDefinition"
  let ?checks = "[(''a'', True, True), (''a'', True, False), (''b'', True, True), (''a'', False, False)]"
  obtain h' s' where run: "fold (countCheck ledger ?c ''setup'' ''web'') ?checks (\<lparr>hct_passCounters = [], hct_failCounters = []\<rparr>, \<lambda>_. 0) = (h', s')"
    by (metis surj_pair)
  have "s' (''checks'', check_labels ''setup'' ''web'' ''a'' ''fail'') = 1"
    using checks_counted [OF ledger_counters _ run, of "''a''" "''fail''"] by (simp add: counted_as_def)
  with run show ?thesis by blast
qed

end
