(* ===== verification/Spec2Isabelle.thy ===== *)
theory Spec2Isabelle
  imports Push Dp_Order Dp_Shutdown Ipvs_Mqliang V2stats Dp_Traffic Netlink Pretty Kglbd Cp_Metrics
begin

text \<open>
  Verification of kglb, a layer 4 load balancer control and data plane.
\<close>

end
